theory Spec2Isabelle
  imports Complex_Main
begin

section \<open>Note-to-fretboard mapping: the two converters of the repository\<close>

text \<open>
  The repository holds two converters from pitched notes to guitar tablature:
  \<^item> \<^verbatim>\<open>services/midi_to_tab_converter.py\<close>, class \<^verbatim>\<open>MidiToTabConverter\<close>;
  \<^item> \<^verbatim>\<open>services/tab_renderer/tab_converter.py\<close>, classes \<^verbatim>\<open>TabConverter\<close> and
    \<^verbatim>\<open>ChordShapeDetector\<close>.
  Both are embedded below, function by function. Python integers are \<open>int\<close>; Python
  floats (times in seconds, difficulties, scores, costs) are modelled as exact reals, so
  rounding of binary floating point is outside this development. A Python exception is
  a value \<open>Inl e\<close> of a sum type. Record fields carry a short prefix because the two
  files use the same field names (\<^verbatim>\<open>string\<close>, \<^verbatim>\<open>fret\<close>, \<^verbatim>\<open>tuning\<close>, ...).
\<close>

datatype py_error = ValueError | ZeroDivisionError | TypeError | IndexError

subsection \<open>Python built-ins used by the source\<close>

text \<open>\<^verbatim>\<open>min(xs, key=f)\<close> on a non-empty sequence: the first element whose key is minimal.\<close>

definition py_min_key :: "('a \<Rightarrow> 'k::linorder) \<Rightarrow> 'a \<Rightarrow> 'a list \<Rightarrow> 'a" where
  "py_min_key f x xs = foldl (\<lambda>best a. if f a < f best then a else best) x xs"

text \<open>\<^verbatim>\<open>sorted(xs, key=f)\<close> is a stable sort, as \<^const>\<open>sort_key\<close> is.\<close>

definition py_sorted :: "('a \<Rightarrow> 'k::linorder) \<Rightarrow> 'a list \<Rightarrow> 'a list" where
  "py_sorted f xs = sort_key f xs"

text \<open>
  \<^verbatim>\<open>xs.sort(key=f, reverse=True)\<close>: descending, and elements with equal keys keep
  their original order.
\<close>

definition py_sorted_reverse :: "('a \<Rightarrow> 'k::linorder) \<Rightarrow> 'a list \<Rightarrow> 'a list" where
  "py_sorted_reverse f xs = rev (sort_key f (rev xs))"

text \<open>\<^verbatim>\<open>int(x)\<close> on a float truncates towards zero.\<close>

definition py_int :: "real \<Rightarrow> int" where
  "py_int x = (if 0 \<le> x then \<lfloor>x\<rfloor> else \<lceil>x\<rceil>)"

text \<open>\<^verbatim>\<open>min(xs)\<close> and \<^verbatim>\<open>max(xs)\<close> raise \<^verbatim>\<open>ValueError\<close> on an empty sequence.\<close>

definition py_min :: "'a::linorder list \<Rightarrow> py_error + 'a" where
  "py_min xs = (case xs of [] \<Rightarrow> Inl ValueError | x # rest \<Rightarrow> Inr (foldl min x rest))"

definition py_max :: "'a::linorder list \<Rightarrow> py_error + 'a" where
  "py_max xs = (case xs of [] \<Rightarrow> Inl ValueError | x # rest \<Rightarrow> Inr (foldl max x rest))"

text \<open>\<^verbatim>\<open>xs[i]\<close>: a negative index counts from the end, an index out of range raises.\<close>

definition py_index :: "'a list \<Rightarrow> int \<Rightarrow> py_error + 'a" where
  "py_index xs i =
     (if 0 \<le> i \<and> i < int (length xs) then Inr (xs ! nat i)
      else if - int (length xs) \<le> i \<and> i < 0 then Inr (xs ! nat (int (length xs) + i))
      else Inl IndexError)"

text \<open>\<^verbatim>\<open>str(i)\<close> of an integer, in decimal.\<close>

fun str_nat :: "nat \<Rightarrow> string" where
  "str_nat n =
     (if n < 10 then [char_of (48 + n)]
      else str_nat (n div 10) @ [char_of (48 + n mod 10)])"

definition py_str :: "int \<Rightarrow> string" where
  "py_str i = (if i < 0 then CHR ''-'' # str_nat (nat (- i)) else str_nat (nat i))"

section \<open>\<^verbatim>\<open>midi_to_tab_converter.py\<close>\<close>

datatype Technique =
  NORMAL | HAMMER_ON | PULL_OFF | SLIDE_UP | SLIDE_DOWN | BEND | RELEASE | VIBRATO
  | PALM_MUTE | HARMONIC | TAP

record TabNote =
  tn_string :: int
  tn_fret :: int
  tn_start_time :: real
  tn_duration :: real
  tn_technique :: Technique
  tn_velocity :: int
  tn_alternatives :: "(int \<times> int) list"

record TabConfig =
  tuning :: "int list"
  capo :: int
  max_fret_span :: int
  prefer_low_positions :: bool
  detect_chords :: bool
  detect_techniques :: bool

text \<open>\<^verbatim>\<open>Tuning.STANDARD\<close> and the field defaults of the dataclass \<^verbatim>\<open>TabConfig\<close>.\<close>

definition STANDARD :: "int list" where
  "STANDARD = [40, 45, 50, 55, 59, 64]"

definition default_TabConfig :: TabConfig where
  "default_TabConfig =
     \<lparr> tuning = STANDARD, capo = 0, max_fret_span = 4, prefer_low_positions = True,
       detect_chords = True, detect_techniques = True \<rparr>"

text \<open>The entries of the note dictionaries built by \<^verbatim>\<open>_extract_midi_data\<close>;
  \<open>mn_melodic\<close> is \<^verbatim>\<open>midi_note.get('context', {}).get('melodic', False)\<close>.\<close>

record midi_note =
  mn_pitch :: int
  mn_start :: real
  mn_end :: real
  mn_velocity :: int
  mn_melodic :: bool

text \<open>\<^verbatim>\<open>__init__\<close>: \<^verbatim>\<open>self.tuning = [note + self.config.capo for note in self.config.tuning]\<close>,
  \<^verbatim>\<open>self.max_fret = 24\<close>.\<close>

definition self_tuning :: "TabConfig \<Rightarrow> int list" where
  "self_tuning cfg = map (\<lambda>note. note + capo cfg) (tuning cfg)"

definition max_fret :: int where
  "max_fret = 24"

definition get_fret_positions :: "TabConfig \<Rightarrow> int \<Rightarrow> (int \<times> int) list" where
  "get_fret_positions cfg midi_pitch =
     [(int string_idx + 1, midi_pitch - open_pitch).
        (string_idx, open_pitch) \<leftarrow> enumerate 0 (self_tuning cfg),
        0 \<le> midi_pitch - open_pitch \<and> midi_pitch - open_pitch \<le> max_fret]"

subsection \<open>Choosing a position\<close>

definition position_cost :: "TabConfig \<Rightarrow> int \<times> int \<Rightarrow> bool \<Rightarrow> int \<times> int \<Rightarrow> real" where
  "position_cost cfg previous melodic pos =
     (let string_diff = \<bar>fst pos - fst previous\<bar>;
          fret_diff = \<bar>snd pos - snd previous\<bar>;
          cost0 = real_of_int (string_diff * 3 + fret_diff);
          cost1 = (if fret_diff > max_fret_span cfg
                   then cost0 + real_of_int ((fret_diff - max_fret_span cfg) * 5) else cost0);
          cost2 = (if melodic then cost1 + real_of_int (string_diff * 2) else cost1);
          cost3 = (if prefer_low_positions cfg \<and> snd pos > 12
                   then cost2 + real_of_int (snd pos - 12) * 0.5 else cost2)
      in cost3)"

text \<open>\<^verbatim>\<open>_select_optimal_position\<close> returns \<^verbatim>\<open>None\<close> on an empty candidate list.\<close>

definition select_optimal_position ::
  "TabConfig \<Rightarrow> (int \<times> int) list \<Rightarrow> (int \<times> int) option \<Rightarrow> bool \<Rightarrow> (int \<times> int) option" where
  "select_optimal_position cfg positions previous melodic =
     (case positions of
        [] \<Rightarrow> None
      | p # ps \<Rightarrow>
          (case previous of
             None \<Rightarrow>
               if prefer_low_positions cfg then Some (py_min_key snd p ps)
               else Some (positions ! (length positions div 2))
           | Some prev \<Rightarrow>
               Some (fst (py_min_key snd
                      (p, position_cost cfg prev melodic p)
                      (map (\<lambda>pos. (pos, position_cost cfg prev melodic pos)) ps)))))"

subsection \<open>Notes to tab notes\<close>

text \<open>
  The loop of \<^verbatim>\<open>_convert_to_tab_notes\<close>, with its three variables: the list
  \<^verbatim>\<open>tab_notes\<close>, \<^verbatim>\<open>previous_position\<close>, and the pitches passed to
  \<^verbatim>\<open>logger.warning\<close> (the only record the code keeps of a note it leaves out).
  Subscripting the \<^verbatim>\<open>None\<close> that \<^verbatim>\<open>_select_optimal_position\<close> may return
  raises \<^verbatim>\<open>TypeError\<close>.
\<close>

fun convert_loop ::
  "TabConfig \<Rightarrow> midi_note list \<Rightarrow> TabNote list \<Rightarrow> (int \<times> int) option \<Rightarrow> int list
     \<Rightarrow> py_error + (TabNote list \<times> int list)" where
  "convert_loop cfg [] tab_notes previous_position warnings = Inr (tab_notes, warnings)"
| "convert_loop cfg (midi_note # rest) tab_notes previous_position warnings =
     (let positions = get_fret_positions cfg (mn_pitch midi_note) in
      if positions = [] then
        convert_loop cfg rest tab_notes previous_position (warnings @ [mn_pitch midi_note])
      else
        (case select_optimal_position cfg positions previous_position (mn_melodic midi_note) of
           None \<Rightarrow> Inl TypeError
         | Some optimal_pos \<Rightarrow>
             convert_loop cfg rest
               (tab_notes @
                 [\<lparr> tn_string = fst optimal_pos,
                    tn_fret = snd optimal_pos,
                    tn_start_time = mn_start midi_note,
                    tn_duration = mn_end midi_note - mn_start midi_note,
                    tn_technique = NORMAL,
                    tn_velocity = mn_velocity midi_note,
                    tn_alternatives = [p \<leftarrow> positions. p \<noteq> optimal_pos] \<rparr>])
               (Some optimal_pos) warnings))"

definition convert_to_tab_notes ::
  "TabConfig \<Rightarrow> midi_note list \<Rightarrow> py_error + (TabNote list \<times> int list)" where
  "convert_to_tab_notes cfg midi_notes = convert_loop cfg midi_notes [] None []"

subsection \<open>Chords\<close>

record ChordInfo =
  ci_root :: string
  ci_type :: string
  ci_shape :: "string option"
  ci_pitches :: "int list"

record Chord =
  ch_time :: real
  ch_duration :: real
  ch_chord :: ChordInfo
  ch_tab_positions :: "(int \<times> int) list"

text \<open>\<^verbatim>\<open>_load_chord_shapes\<close>: a dictionary of dictionaries, in insertion order.\<close>

definition chord_shapes :: "(string \<times> (string \<times> (int \<times> int) list) list) list" where
  "chord_shapes =
     [(''Cmajor'', [(''open'', [(2, 3), (3, 2), (5, 1)])]),
      (''Gmajor'', [(''open'', [(1, 3), (2, 3), (6, 3)])]),
      (''Dmajor'', [(''open'', [(1, 2), (2, 3), (3, 2)])]),
      (''Aminor'', [(''open'', [(2, 2), (3, 2), (4, 1)])]),
      (''Eminor'', [(''open'', [(3, 2), (4, 2)])])]"

definition chord_patterns :: "(string \<times> int list) list" where
  "chord_patterns =
     [(''major'', [0, 4, 7]),
      (''minor'', [0, 3, 7]),
      (''7'', [0, 4, 7, 10]),
      (''maj7'', [0, 4, 7, 11]),
      (''m7'', [0, 3, 7, 10]),
      (''sus2'', [0, 2, 7]),
      (''sus4'', [0, 5, 7]),
      (''dim'', [0, 3, 6]),
      (''aug'', [0, 4, 8])]"

definition root_names :: "string list" where
  "root_names = [''C'', ''C#'', ''D'', ''D#'', ''E'', ''F'', ''F#'', ''G'', ''G#'', ''A'', ''A#'', ''B'']"

definition find_chord_shape :: "TabNote list \<Rightarrow> string \<Rightarrow> string \<Rightarrow> string option" where
  "find_chord_shape tab_notes root_name chord_type =
     (let positions = map (\<lambda>n. (tn_string n, tn_fret n)) tab_notes;
          shapes = (case map_of chord_shapes (root_name @ chord_type) of
                      None \<Rightarrow> [] | Some d \<Rightarrow> d)
      in case find (\<lambda>(shape_name, shape_positions). set shape_positions \<subseteq> set positions) shapes of
           Some (shape_name, shape_positions) \<Rightarrow> Some shape_name
         | None \<Rightarrow>
             (let frets = [tn_fret n. n \<leftarrow> tab_notes, tn_fret n > 0] in
              case frets of
                [] \<Rightarrow> None
              | f # fs \<Rightarrow>
                  if foldl min f fs = foldl max f fs
                  then Some (''Barre '' @ py_str (foldl min f fs))
                  else None))"

text \<open>
  \<^verbatim>\<open>_identify_chord\<close>: the first root (0 to 11) and, for it, the first pattern of
  \<^verbatim>\<open>chord_patterns\<close> whose pitch classes all occur among those of the group.
\<close>

definition identify_chord :: "int list \<Rightarrow> TabNote list \<Rightarrow> ChordInfo option" where
  "identify_chord pitches tab_notes =
     (let pitch_classes = sort (remdups (map (\<lambda>p. p mod 12) pitches)) in
      case find (\<lambda>(root_pc, chord_type, pattern).
                   set (map (\<lambda>interval. (root_pc + interval) mod 12) pattern)
                     \<subseteq> set pitch_classes)
             [(root_pc, chord_type, pattern).
                root_pc \<leftarrow> [0 ..< 12], (chord_type, pattern) \<leftarrow> chord_patterns] of
        None \<Rightarrow> None
      | Some (root_pc, chord_type, pattern) \<Rightarrow>
          (let root_name = root_names ! root_pc in
           Some \<lparr> ci_root = root_name,
                  ci_type = chord_type,
                  ci_shape = find_chord_shape tab_notes root_name chord_type,
                  ci_pitches = pitches \<rparr>))"

text \<open>
  The first loop of \<^verbatim>\<open>_detect_chords\<close>, over the notes sorted by start time, with
  its variables \<^verbatim>\<open>note_groups\<close> and \<^verbatim>\<open>current_group\<close>.
\<close>

fun group_loop :: "TabNote list \<Rightarrow> TabNote list list \<Rightarrow> TabNote list
     \<Rightarrow> TabNote list list \<times> TabNote list" where
  "group_loop [] note_groups current_group = (note_groups, current_group)"
| "group_loop (note # rest) note_groups current_group =
     (if current_group = []
         \<or> \<bar>tn_start_time note - tn_start_time (last current_group)\<bar> < 0.05
      then group_loop rest note_groups (current_group @ [note])
      else group_loop rest
             (if length current_group \<ge> 3 then note_groups @ [current_group] else note_groups)
             [note])"

definition note_groups_of :: "TabNote list \<Rightarrow> TabNote list list" where
  "note_groups_of tab_notes =
     (let (note_groups, current_group) = group_loop (py_sorted tn_start_time tab_notes) [] []
      in if length current_group \<ge> 3 then note_groups @ [current_group] else note_groups)"

text \<open>\<^verbatim>\<open>[self.tuning[n.string - 1] + n.fret for n in group]\<close>\<close>

fun group_pitches :: "TabConfig \<Rightarrow> TabNote list \<Rightarrow> py_error + int list" where
  "group_pitches cfg [] = Inr []"
| "group_pitches cfg (n # ns) =
     (case py_index (self_tuning cfg) (tn_string n - 1) of
        Inl e \<Rightarrow> Inl e
      | Inr open_pitch \<Rightarrow>
          (case group_pitches cfg ns of
             Inl e \<Rightarrow> Inl e
           | Inr ps \<Rightarrow> Inr ((open_pitch + tn_fret n) # ps)))"

text \<open>The second loop of \<^verbatim>\<open>_detect_chords\<close>: a group becomes a chord only when
  \<^verbatim>\<open>_identify_chord\<close> names it.\<close>

definition analyze_group :: "TabConfig \<Rightarrow> TabNote list \<Rightarrow> py_error + Chord option" where
  "analyze_group cfg grp =
     (case group_pitches cfg grp of
        Inl e \<Rightarrow> Inl e
      | Inr pitches \<Rightarrow>
          (case identify_chord pitches grp of
             None \<Rightarrow> Inr None
           | Some chord_info \<Rightarrow>
               (case py_max (map tn_duration grp) of
                  Inl e \<Rightarrow> Inl e
                | Inr d \<Rightarrow>
                    (case grp of
                       [] \<Rightarrow> Inl IndexError
                     | g0 # _ \<Rightarrow>
                         Inr (Some \<lparr> ch_time = tn_start_time g0,
                                    ch_duration = d,
                                    ch_chord = chord_info,
                                    ch_tab_positions =
                                      map (\<lambda>n. (tn_string n, tn_fret n)) grp \<rparr>)))))"

fun analyze_groups :: "TabConfig \<Rightarrow> TabNote list list \<Rightarrow> py_error + Chord list" where
  "analyze_groups cfg [] = Inr []"
| "analyze_groups cfg (grp # rest) =
     (case analyze_group cfg grp of
        Inl e \<Rightarrow> Inl e
      | Inr c \<Rightarrow>
          (case analyze_groups cfg rest of
             Inl e \<Rightarrow> Inl e
           | Inr chords \<Rightarrow> Inr (case c of None \<Rightarrow> chords | Some chord \<Rightarrow> chord # chords)))"

definition detect_chords_M :: "TabConfig \<Rightarrow> TabNote list \<Rightarrow> py_error + Chord list" where
  "detect_chords_M cfg tab_notes = analyze_groups cfg (note_groups_of tab_notes)"

subsection \<open>Techniques\<close>

text \<open>
  \<^verbatim>\<open>_detect_techniques\<close> walks the list with \<^verbatim>\<open>prev_note = tab_notes[i - 1]\<close> and
  assigns \<^verbatim>\<open>curr_note.technique\<close>; it reads only fields it never writes, so the
  previous note can be passed along as it was.
\<close>

definition classify_technique :: "TabNote \<Rightarrow> TabNote \<Rightarrow> TabNote" where
  "classify_technique prev_note curr_note =
     (if tn_string prev_note = tn_string curr_note then
        (let time_diff = tn_start_time curr_note - tn_start_time prev_note;
             fret_diff = tn_fret curr_note - tn_fret prev_note
         in if fret_diff > 0 \<and> time_diff < 0.1 \<and> tn_velocity curr_note < tn_velocity prev_note
            then curr_note\<lparr>tn_technique := HAMMER_ON\<rparr>
            else if fret_diff < 0 \<and> time_diff < 0.1
                    \<and> tn_velocity curr_note < tn_velocity prev_note
            then curr_note\<lparr>tn_technique := PULL_OFF\<rparr>
            else if \<bar>fret_diff\<bar> > 1 \<and> time_diff < 0.2
            then (if fret_diff > 0 then curr_note\<lparr>tn_technique := SLIDE_UP\<rparr>
                  else curr_note\<lparr>tn_technique := SLIDE_DOWN\<rparr>)
            else curr_note)
      else curr_note)"

fun detect_techniques_from :: "TabNote \<Rightarrow> TabNote list \<Rightarrow> TabNote list" where
  "detect_techniques_from prev_note [] = []"
| "detect_techniques_from prev_note (curr_note # rest) =
     classify_technique prev_note curr_note # detect_techniques_from curr_note rest"

fun detect_techniques_M :: "TabNote list \<Rightarrow> TabNote list" where
  "detect_techniques_M [] = []"
| "detect_techniques_M (first # rest) = first # detect_techniques_from first rest"

subsection \<open>Measures\<close>

record TabMeasure =
  tm_measure_number :: int
  tm_time_signature :: "int \<times> int"
  tm_tempo :: real
  tm_notes :: "TabNote list"
  tm_chords :: "Chord list"

text \<open>
  The loop of \<^verbatim>\<open>_organize_measures\<close> over \<^verbatim>\<open>tab_notes\<close>; its variables are
  \<^verbatim>\<open>measures\<close> (here \<open>measures_acc\<close>), \<^verbatim>\<open>current_measure_notes\<close>, \<^verbatim>\<open>measure_start\<close> and
  \<^verbatim>\<open>measure_num\<close>.
\<close>

fun organize_loop ::
  "real \<Rightarrow> int \<times> int \<Rightarrow> real \<Rightarrow> Chord list \<Rightarrow> TabNote list
     \<Rightarrow> TabMeasure list \<Rightarrow> TabNote list \<Rightarrow> real \<Rightarrow> int
     \<Rightarrow> TabMeasure list \<times> TabNote list \<times> real \<times> int" where
  "organize_loop tempo time_sig measure_duration chords [] measures_acc current measure_start measure_num =
     (measures_acc, current, measure_start, measure_num)"
| "organize_loop tempo time_sig measure_duration chords (note # rest)
       measures_acc current measure_start measure_num =
     (if tn_start_time note < measure_start + measure_duration then
        organize_loop tempo time_sig measure_duration chords rest
          measures_acc (current @ [note]) measure_start measure_num
      else
        organize_loop tempo time_sig measure_duration chords rest
          (measures_acc @
            [\<lparr> tm_measure_number = measure_num,
               tm_time_signature = time_sig,
               tm_tempo = tempo,
               tm_notes = current,
               tm_chords = [c \<leftarrow> chords. measure_start \<le> ch_time c
                                      \<and> ch_time c < measure_start + measure_duration] \<rparr>])
          [note] (measure_start + measure_duration) (measure_num + 1))"

text \<open>
  \<^verbatim>\<open>tempo\<close> and \<^verbatim>\<open>time_sig\<close> are what the function reads from \<^verbatim>\<open>timing_info\<close>
  (the tempo and the first time signature). \<^verbatim>\<open>60.0 / tempo\<close> raises
  \<^verbatim>\<open>ZeroDivisionError\<close> at tempo zero.
\<close>

definition organize_measures ::
  "TabNote list \<Rightarrow> Chord list \<Rightarrow> real \<Rightarrow> int \<times> int \<Rightarrow> py_error + TabMeasure list" where
  "organize_measures tab_notes chords tempo time_sig =
     (if tempo = 0 then Inl ZeroDivisionError
      else
        let beats_per_measure = fst time_sig;
            beat_duration = 60 / tempo;
            measure_duration = real_of_int beats_per_measure * beat_duration;
            (measures_acc, current, measure_start, measure_num) =
              organize_loop tempo time_sig measure_duration chords tab_notes [] [] 0 1
        in Inr (if current \<noteq> [] then
                  measures_acc @
                    [\<lparr> tm_measure_number = measure_num,
                       tm_time_signature = time_sig,
                       tm_tempo = tempo,
                       tm_notes = current,
                       tm_chords = [c \<leftarrow> chords. ch_time c \<ge> measure_start] \<rparr>]
                else measures_acc))"

subsection \<open>The whole conversion\<close>

text \<open>
  \<^verbatim>\<open>MidiToTabConverter.convert_midi_to_tab\<close> from the notes of the MIDI file on:
  \<^verbatim>\<open>_extract_midi_data\<close> sorts them by start time (\<^verbatim>\<open>notes.sort\<close>, stable); the tempo
  and the first time signature are what it puts into \<^verbatim>\<open>timing_info\<close>. The result
  holds the measures, the chords and the logged warnings; the text rendering of the
  measures is not modelled.
\<close>

definition convert_midi_to_tab_M ::
  "TabConfig \<Rightarrow> midi_note list \<Rightarrow> real \<Rightarrow> int \<times> int
     \<Rightarrow> py_error + (TabMeasure list \<times> Chord list \<times> int list)" where
  "convert_midi_to_tab_M cfg file_notes tempo time_sig =
     (let notes = py_sorted mn_start file_notes in
      case convert_to_tab_notes cfg notes of
        Inl e \<Rightarrow> Inl e
      | Inr (tab_notes, warnings) \<Rightarrow>
          (case (if detect_chords cfg then detect_chords_M cfg tab_notes else Inr []) of
             Inl e \<Rightarrow> Inl e
           | Inr chords \<Rightarrow>
               (case organize_measures
                       (if detect_techniques cfg then detect_techniques_M tab_notes
                        else tab_notes)
                       chords tempo time_sig of
                  Inl e \<Rightarrow> Inl e
                | Inr measures_acc \<Rightarrow> Inr (measures_acc, chords, warnings))))"

section \<open>\<^verbatim>\<open>tab_renderer/tab_converter.py\<close>\<close>

datatype PlayingTechnique =
  PT_NORMAL | PT_HAMMER_ON | PT_PULL_OFF | PT_SLIDE_UP | PT_SLIDE_DOWN | PT_BEND
  | PT_VIBRATO | PT_PALM_MUTE | PT_HARMONIC | PT_TAP | PT_DEAD_NOTE

record GuitarNote =
  gn_pitch :: int
  gn_start_time :: real
  gn_end_time :: real
  gn_string :: int
  gn_fret :: int
  gn_velocity :: int
  gn_techniques :: "PlayingTechnique list"
  gn_is_chord_tone :: bool
  gn_chord_shape :: "string option"
  gn_difficulty :: real

record TabConfiguration =
  tc_tuning :: "int list"
  tc_capo_position :: int
  tc_max_fret_span :: int
  tc_prefer_open_strings :: bool
  tc_prefer_low_positions :: bool
  tc_max_position :: int
  tc_allow_impossible_stretches :: bool
  tc_detect_chords :: bool
  tc_optimize_fingering :: bool
  tc_include_techniques :: bool
  tc_difficulty_threshold :: real

text \<open>The field defaults of the dataclass \<^verbatim>\<open>TabConfiguration\<close>.\<close>

definition default_TabConfiguration :: TabConfiguration where
  "default_TabConfiguration =
     \<lparr> tc_tuning = STANDARD, tc_capo_position = 0, tc_max_fret_span = 4,
       tc_prefer_open_strings = True, tc_prefer_low_positions = True, tc_max_position = 12,
       tc_allow_impossible_stretches = False, tc_detect_chords = True,
       tc_optimize_fingering = True, tc_include_techniques = True,
       tc_difficulty_threshold = 0.7 \<rparr>"

text \<open>The dictionaries built by \<^verbatim>\<open>_find_positions\<close>.\<close>

record Position =
  p_string :: int
  p_fret :: int
  p_difficulty :: real
  p_is_open :: bool
  p_position :: int

definition calculate_difficulty :: "int \<Rightarrow> int \<Rightarrow> real" where
  "calculate_difficulty string fret =
     (if fret = 0 then 0
      else
        let d0 = real_of_int fret / 24 * 0.3;
            d1 = (if fret > 12 then d0 + real_of_int (fret - 12) / 12 * 0.3 else d0);
            d2 = (if string = 1 \<or> string = 6 then d1 + 0.1 else d1);
            d3 = (if string \<le> 3 \<and> fret > 15 then d2 + 0.2 else d2)
        in min d3 1)"

definition get_hand_position :: "int \<Rightarrow> int" where
  "get_hand_position fret =
     (if fret = 0 then 0
      else if fret \<le> 4 then 1
      else if fret \<le> 7 then 5
      else if fret \<le> 10 then 8
      else if fret \<le> 14 then 12
      else 15)"

text \<open>
  \<^verbatim>\<open>_find_positions\<close> keeps a dictionary \<^verbatim>\<open>position_cache\<close> from pitch to the list it
  computed; the tuning is fixed for the life of the converter and the cached lists are
  copied on the way in and out and never mutated, so the cache is a memo table of the
  pure function below.
\<close>

definition find_positions :: "TabConfiguration \<Rightarrow> int \<Rightarrow> Position list" where
  "find_positions cfg pitch =
     [\<lparr> p_string = int string_idx + 1,
        p_fret = pitch - open_pitch,
        p_difficulty = calculate_difficulty (int string_idx + 1) (pitch - open_pitch),
        p_is_open = (pitch - open_pitch = 0),
        p_position = get_hand_position (pitch - open_pitch) \<rparr>.
        (string_idx, open_pitch) \<leftarrow> enumerate 0 (tc_tuning cfg),
        0 \<le> pitch - open_pitch \<and> pitch - open_pitch \<le> 24]"

text \<open>The note dictionaries the caller passes in; \<^verbatim>\<open>velocity\<close> is optional, and
  \<^verbatim>\<open>_assign_chord_fingerings\<close> adds the last two keys.\<close>

record NoteData =
  nd_pitch :: int
  nd_start :: real
  nd_end :: real
  nd_velocity :: "int option"
  nd_chord_shape :: "string option"
  nd_is_chord_tone :: bool

record TC_TabMeasure =
  tcm_number :: int
  tcm_time_signature :: "int \<times> int"
  tcm_tempo :: real
  tcm_notes :: "GuitarNote list"
  tcm_chords :: "(string \<times> string) list list"
  tcm_lyrics :: "string option"

subsection \<open>\<^verbatim>\<open>ChordShapeDetector\<close>\<close>

definition COMMON_SHAPES :: "(string \<times> (int \<times> int) list) list" where
  "COMMON_SHAPES =
     [(''C'', [(1, 0), (2, 1), (3, 0), (4, 2), (5, 3)]),
      (''G'', [(1, 3), (2, 0), (3, 0), (4, 0), (5, 2), (6, 3)]),
      (''D'', [(1, 2), (2, 3), (3, 2), (4, 0)]),
      (''A'', [(1, 0), (2, 2), (3, 2), (4, 2), (5, 0)]),
      (''E'', [(1, 0), (2, 0), (3, 1), (4, 2), (5, 2), (6, 0)]),
      (''F'', [(1, 1), (2, 1), (3, 2), (4, 3), (5, 3), (6, 1)]),
      (''Am'', [(1, 0), (2, 1), (3, 2), (4, 2), (5, 0)]),
      (''Em'', [(1, 0), (2, 0), (3, 0), (4, 2), (5, 2), (6, 0)]),
      (''Dm'', [(1, 1), (2, 3), (3, 2), (4, 0)]),
      (''G7'', [(1, 1), (2, 0), (3, 0), (4, 0), (5, 2), (6, 3)]),
      (''C7'', [(1, 0), (2, 1), (3, 3), (4, 2), (5, 3)]),
      (''D7'', [(1, 2), (2, 1), (3, 2), (4, 0)])]"

definition matches_shape :: "(int \<times> int) list \<Rightarrow> (int \<times> int) list \<Rightarrow> py_error + bool" where
  "matches_shape positions shape =
     (if length positions \<noteq> length shape then Inr False
      else
        (case py_min [snd p. p \<leftarrow> positions, snd p > 0] of
           Inl e \<Rightarrow> Inl e
         | Inr min_fret_positions \<Rightarrow>
             (case py_min [snd s. s \<leftarrow> shape, snd s > 0] of
                Inl e \<Rightarrow> Inl e
              | Inr min_fret_shape \<Rightarrow>
                  (let offset = min_fret_positions - min_fret_shape;
                       adjusted_shape =
                         map (\<lambda>(s, f). (s, if f > 0 then f + offset else 0)) shape
                   in Inr (list_all (\<lambda>pos. pos \<in> set adjusted_shape) positions)))))"

fun first_matching_shape ::
  "(int \<times> int) list \<Rightarrow> (string \<times> (int \<times> int) list) list \<Rightarrow> py_error + string option" where
  "first_matching_shape positions [] = Inr None"
| "first_matching_shape positions ((chord_name, shape) # rest) =
     (case matches_shape positions shape of
        Inl e \<Rightarrow> Inl e
      | Inr matched \<Rightarrow>
          if matched then Inr (Some chord_name) else first_matching_shape positions rest)"

definition detect_chord_shape :: "GuitarNote list \<Rightarrow> py_error + string option" where
  "detect_chord_shape notes =
     (if length notes < 3 then Inr None
      else first_matching_shape (map (\<lambda>n. (gn_string n, gn_fret n)) notes) COMMON_SHAPES)"

subsection \<open>\<^verbatim>\<open>TabConverter\<close>: one note\<close>

definition filter_positions :: "TabConfiguration \<Rightarrow> Position list \<Rightarrow> Position list" where
  "filter_positions cfg positions =
     [pos \<leftarrow> positions.
        \<not> (p_fret pos > tc_max_position cfg \<and> \<not> p_is_open pos)
        \<and> \<not> (p_difficulty pos > tc_difficulty_threshold cfg)]"

definition position_score :: "TabConfiguration \<Rightarrow> GuitarNote list \<Rightarrow> Position \<Rightarrow> real" where
  "position_score cfg previous_notes pos =
     (let s0 = (if tc_prefer_open_strings cfg \<and> p_is_open pos then 2 else 0);
          s1 = (if tc_prefer_low_positions cfg
                then s0 + real_of_int (12 - p_fret pos) / 12 else s0);
          s2 = (if previous_notes \<noteq> [] then
                  (let last_note = last previous_notes;
                       position_change = \<bar>p_position pos - get_hand_position (gn_fret last_note)\<bar>;
                       string_change = \<bar>p_string pos - gn_string last_note\<bar>
                   in s1 - real_of_int position_change * 0.5 - real_of_int string_change * 0.2)
                else s1)
      in s2 - p_difficulty pos * 2)"

text \<open>With two or more candidates the scored list is not empty, so its head exists.\<close>

definition tc_select_optimal_position ::
  "TabConfiguration \<Rightarrow> Position list \<Rightarrow> GuitarNote list \<Rightarrow> Position option" where
  "tc_select_optimal_position cfg positions previous_notes =
     (case positions of
        [] \<Rightarrow> None
      | [p] \<Rightarrow> Some p
      | _ \<Rightarrow>
          Some (snd (hd (py_sorted_reverse fst
                  (map (\<lambda>pos. (position_score cfg previous_notes pos, pos)) positions)))))"

text \<open>
  \<^verbatim>\<open>_convert_note\<close> returns a list of at most one note; the second component is what
  it passes to \<^verbatim>\<open>logger.warning\<close> (the pitch of a note it leaves out).
\<close>

definition convert_note ::
  "TabConfiguration \<Rightarrow> NoteData \<Rightarrow> GuitarNote list \<Rightarrow> py_error + (GuitarNote list \<times> int list)" where
  "convert_note cfg note_data measure_notes =
     (let pitch = nd_pitch note_data;
          adjusted_pitch = pitch - tc_capo_position cfg;
          positions = filter_positions cfg (find_positions cfg adjusted_pitch)
      in if positions = [] then Inr ([], [pitch])
         else
           (case tc_select_optimal_position cfg positions measure_notes of
              None \<Rightarrow> Inl TypeError
            | Some optimal_pos \<Rightarrow>
                Inr ([\<lparr> gn_pitch = pitch,
                         gn_start_time = nd_start note_data,
                         gn_end_time = nd_end note_data,
                         gn_string = p_string optimal_pos,
                         gn_fret = p_fret optimal_pos,
                         gn_velocity = (case nd_velocity note_data of None \<Rightarrow> 80 | Some v \<Rightarrow> v),
                         gn_techniques = [],
                         gn_is_chord_tone = False,
                         gn_chord_shape = None,
                         gn_difficulty = p_difficulty optimal_pos \<rparr>], [])))"

subsection \<open>\<^verbatim>\<open>TabConverter\<close>: measures and chord groups\<close>

fun measures_loop ::
  "real \<Rightarrow> NoteData list \<Rightarrow> NoteData list list \<Rightarrow> NoteData list \<Rightarrow> real
     \<Rightarrow> NoteData list list \<times> NoteData list" where
  "measures_loop measure_duration [] measures_acc current_measure measure_start_time =
     (measures_acc, current_measure)"
| "measures_loop measure_duration (note # rest) measures_acc current_measure measure_start_time =
     (if nd_start note \<ge> measure_start_time + measure_duration then
        measures_loop measure_duration rest
          (if current_measure \<noteq> [] then measures_acc @ [current_measure] else measures_acc)
          [note] (measure_start_time + measure_duration)
      else
        measures_loop measure_duration rest measures_acc (current_measure @ [note])
          measure_start_time)"

definition group_into_measures ::
  "NoteData list \<Rightarrow> int \<times> int \<Rightarrow> real \<Rightarrow> py_error + NoteData list list" where
  "group_into_measures notes time_signature tempo =
     (if notes = [] then Inr []
      else if tempo = 0 then Inl ZeroDivisionError
      else
        let beats_per_measure = fst time_signature;
            beat_duration = 60 / tempo;
            measure_duration = real_of_int beats_per_measure * beat_duration;
            (measures_acc, current_measure) =
              measures_loop measure_duration (py_sorted nd_start notes) [] [] 0
        in Inr (if current_measure \<noteq> [] then measures_acc @ [current_measure]
                else measures_acc))"

fun chord_groups_loop ::
  "NoteData list \<Rightarrow> NoteData list list \<Rightarrow> NoteData list \<Rightarrow> real option
     \<Rightarrow> NoteData list list \<times> NoteData list" where
  "chord_groups_loop [] chord_groups current_group group_start = (chord_groups, current_group)"
| "chord_groups_loop (note # rest) chord_groups current_group group_start =
     (case group_start of
        None \<Rightarrow> chord_groups_loop rest chord_groups [note] (Some (nd_start note))
      | Some gs \<Rightarrow>
          if \<bar>nd_start note - gs\<bar> \<le> 0.05 then
            chord_groups_loop rest chord_groups (current_group @ [note]) (Some gs)
          else
            chord_groups_loop rest
              (if length current_group \<ge> 2 then chord_groups @ [current_group]
               else chord_groups)
              [note] (Some (nd_start note)))"

definition detect_chord_groups :: "NoteData list \<Rightarrow> NoteData list list" where
  "detect_chord_groups notes =
     (let (chord_groups, current_group) =
            chord_groups_loop (py_sorted nd_start notes) [] [] None
      in if length current_group \<ge> 2 then chord_groups @ [current_group] else chord_groups)"

text \<open>
  \<^verbatim>\<open>_assign_chord_fingerings\<close> looks the positions up by the note's own pitch (no capo
  adjustment) and takes the first, then writes two keys into the caller's dictionaries
  when a shape is found; the result is the updated group. An empty string would be
  falsy.
\<close>

definition assign_chord_fingerings ::
  "TabConfiguration \<Rightarrow> NoteData list \<Rightarrow> py_error + NoteData list" where
  "assign_chord_fingerings cfg chord_notes =
     (let temp_notes =
            concat (map (\<lambda>note.
              (case find_positions cfg (nd_pitch note) of
                 [] \<Rightarrow> []
               | p0 # _ \<Rightarrow>
                   [\<lparr> gn_pitch = nd_pitch note,
                      gn_start_time = nd_start note,
                      gn_end_time = nd_end note,
                      gn_string = p_string p0,
                      gn_fret = p_fret p0,
                      gn_velocity = (case nd_velocity note of None \<Rightarrow> 80 | Some v \<Rightarrow> v),
                      gn_techniques = [],
                      gn_is_chord_tone = False,
                      gn_chord_shape = None,
                      gn_difficulty = 0 \<rparr>])) chord_notes)
      in case detect_chord_shape temp_notes of
           Inl e \<Rightarrow> Inl e
         | Inr None \<Rightarrow> Inr chord_notes
         | Inr (Some chord_shape) \<Rightarrow>
             if chord_shape = [] then Inr chord_notes
             else Inr (map (\<lambda>note. note\<lparr>nd_chord_shape := Some chord_shape,
                                         nd_is_chord_tone := True\<rparr>) chord_notes))"

subsection \<open>\<^verbatim>\<open>TabConverter\<close>: passes that mutate the notes of a measure\<close>

text \<open>
  \<^verbatim>\<open>_optimize_measure_fingering\<close> and \<^verbatim>\<open>_detect_techniques\<close> sort a copy of
  \<^verbatim>\<open>measure.notes\<close> and then assign to fields of the note objects, which the measure
  shares. A note object is identified here by its index in \<^verbatim>\<open>measure.notes\<close>: the
  passes work on (index, note) pairs and the result is written back by index, which
  leaves the order of \<^verbatim>\<open>measure.notes\<close> as it was.
\<close>

type_synonym note_ref = "nat \<times> GuitarNote"

definition write_back :: "note_ref list \<Rightarrow> GuitarNote list \<Rightarrow> GuitarNote list" where
  "write_back refs store = fold (\<lambda>(i, n) st. st[i := n]) refs store"

fun proximity_loop ::
  "real \<Rightarrow> note_ref list \<Rightarrow> note_ref list list \<Rightarrow> note_ref list
     \<Rightarrow> note_ref list list \<times> note_ref list" where
  "proximity_loop threshold [] groups current_group = (groups, current_group)"
| "proximity_loop threshold (note # rest) groups current_group =
     (if current_group = [] then proximity_loop threshold rest groups [note]
      else if gn_start_time (snd note) - gn_end_time (snd (last current_group)) \<le> threshold
      then proximity_loop threshold rest groups (current_group @ [note])
      else proximity_loop threshold rest (groups @ [current_group]) [note])"

definition group_by_time_proximity :: "note_ref list \<Rightarrow> real \<Rightarrow> note_ref list list" where
  "group_by_time_proximity notes threshold =
     (let (groups, current_group) =
            proximity_loop threshold (py_sorted (\<lambda>n. gn_start_time (snd n)) notes) [] []
      in if current_group \<noteq> [] then groups @ [current_group] else groups)"

text \<open>The body of the loop of \<^verbatim>\<open>_optimize_group_fingering\<close>, for one note: the
  alternatives come from \<^verbatim>\<open>self._find_positions(note.pitch)\<close>.\<close>

definition reassign_note :: "TabConfiguration \<Rightarrow> int \<Rightarrow> GuitarNote \<Rightarrow> GuitarNote" where
  "reassign_note cfg target_position note =
     (let current_position = get_hand_position (gn_fret note) in
      if \<bar>current_position - target_position\<bar> > tc_max_fret_span cfg then
        (case find (\<lambda>alt. \<bar>get_hand_position (p_fret alt) - target_position\<bar>
                              \<le> tc_max_fret_span cfg)
                (find_positions cfg (gn_pitch note)) of
           None \<Rightarrow> note
         | Some alt \<Rightarrow> note\<lparr>gn_string := p_string alt, gn_fret := p_fret alt,
                            gn_difficulty := p_difficulty alt\<rparr>)
      else note)"

definition optimize_group_fingering ::
  "TabConfiguration \<Rightarrow> note_ref list \<Rightarrow> py_error + note_ref list" where
  "optimize_group_fingering cfg notes =
     (if notes = [] then Inl ZeroDivisionError
      else
        let avg_fret = real_of_int (sum_list (map (\<lambda>n. gn_fret (snd n)) notes))
                         / real (length notes);
            target_position = get_hand_position (py_int avg_fret)
        in Inr (map (\<lambda>(i, note). (i, reassign_note cfg target_position note)) notes))"

fun optimize_groups ::
  "TabConfiguration \<Rightarrow> note_ref list list \<Rightarrow> GuitarNote list \<Rightarrow> py_error + GuitarNote list" where
  "optimize_groups cfg [] store = Inr store"
| "optimize_groups cfg (grp # rest) store =
     (if length grp > 1 then
        (case optimize_group_fingering cfg grp of
           Inl e \<Rightarrow> Inl e
         | Inr grp' \<Rightarrow> optimize_groups cfg rest (write_back grp' store))
      else optimize_groups cfg rest store)"

definition optimize_measure_fingering ::
  "TabConfiguration \<Rightarrow> GuitarNote list \<Rightarrow> py_error + GuitarNote list" where
  "optimize_measure_fingering cfg measure_notes =
     (if length measure_notes < 2 then Inr measure_notes
      else optimize_groups cfg
             (group_by_time_proximity (enumerate 0 measure_notes) 0.5) measure_notes)"

text \<open>What one round of the loop of \<^verbatim>\<open>_detect_techniques\<close> appends to
  \<^verbatim>\<open>current.techniques\<close>, given the neighbours in start-time order.\<close>

definition new_techniques ::
  "GuitarNote option \<Rightarrow> GuitarNote \<Rightarrow> GuitarNote option \<Rightarrow> PlayingTechnique list" where
  "new_techniques prev current next_note =
     (case prev of
        None \<Rightarrow> []
      | Some prev \<Rightarrow>
          if gn_string current = gn_string prev
             \<and> \<bar>gn_start_time current - gn_end_time prev\<bar> < 0.05
          then (if gn_fret current > gn_fret prev then [PT_HAMMER_ON]
                else if gn_fret current < gn_fret prev then [PT_PULL_OFF] else [])
          else [])
     @ (case next_note of
          None \<Rightarrow> []
        | Some next_note \<Rightarrow>
            if gn_string current = gn_string next_note
               \<and> gn_end_time current \<ge> gn_start_time next_note
               \<and> \<bar>gn_fret current - gn_fret next_note\<bar> \<ge> 2
            then (if gn_fret next_note > gn_fret current then [PT_SLIDE_UP]
                  else [PT_SLIDE_DOWN])
            else [])
     @ (if gn_velocity current < 40 then [PT_PALM_MUTE] else [])
     @ (if gn_fret current \<in> set [12, 7, 5, 4, 3] \<and> gn_velocity current > 100
        then [PT_HARMONIC] else [])"

fun techniques_loop :: "GuitarNote option \<Rightarrow> note_ref list \<Rightarrow> note_ref list" where
  "techniques_loop prev [] = []"
| "techniques_loop prev ((i, current) # rest) =
     (i, current\<lparr>gn_techniques :=
           gn_techniques current
             @ new_techniques prev current
                 (case rest of [] \<Rightarrow> None | nxt # _ \<Rightarrow> Some (snd nxt))\<rparr>)
       # techniques_loop (Some current) rest"

definition tc_detect_techniques :: "GuitarNote list \<Rightarrow> GuitarNote list" where
  "tc_detect_techniques measure_notes =
     write_back
       (techniques_loop None
          (py_sorted (\<lambda>n. gn_start_time (snd n)) (enumerate 0 measure_notes)))
       measure_notes"

subsection \<open>\<^verbatim>\<open>TabConverter.convert_midi_to_tab\<close>\<close>

text \<open>Step 3: every chord group is handed to \<^verbatim>\<open>_assign_chord_fingerings\<close>, which
  may raise.\<close>

fun assign_all :: "TabConfiguration \<Rightarrow> NoteData list list \<Rightarrow> py_error + NoteData list list" where
  "assign_all cfg [] = Inr []"
| "assign_all cfg (grp # rest) =
     (case assign_chord_fingerings cfg grp of
        Inl e \<Rightarrow> Inl e
      | Inr grp' \<Rightarrow>
          (case assign_all cfg rest of Inl e \<Rightarrow> Inl e | Inr gs \<Rightarrow> Inr (grp' # gs)))"

text \<open>Step 4: the notes of the measure in turn, each seeing the notes converted before
  it in this measure.\<close>

fun convert_notes_loop ::
  "TabConfiguration \<Rightarrow> NoteData list \<Rightarrow> GuitarNote list \<Rightarrow> int list
     \<Rightarrow> py_error + (GuitarNote list \<times> int list)" where
  "convert_notes_loop cfg [] measure_notes warnings = Inr (measure_notes, warnings)"
| "convert_notes_loop cfg (note_data # rest) measure_notes warnings =
     (case convert_note cfg note_data measure_notes of
        Inl e \<Rightarrow> Inl e
      | Inr (guitar_notes, ws) \<Rightarrow>
          convert_notes_loop cfg rest (measure_notes @ guitar_notes) (warnings @ ws))"

text \<open>
  One round of the loop over the measures. The keys that step 3 writes into the note
  dictionaries are read by no later step, so only its exception is kept.
\<close>

definition convert_measure ::
  "TabConfiguration \<Rightarrow> int \<times> int \<Rightarrow> real \<Rightarrow> nat \<Rightarrow> NoteData list
     \<Rightarrow> py_error + (TC_TabMeasure \<times> int list)" where
  "convert_measure cfg time_signature tempo measure_num measure_notes =
     (case (if tc_detect_chords cfg
            then assign_all cfg (detect_chord_groups measure_notes) else Inr []) of
        Inl e \<Rightarrow> Inl e
      | Inr _ \<Rightarrow>
          (case convert_notes_loop cfg measure_notes [] [] of
             Inl e \<Rightarrow> Inl e
           | Inr (notes4, warnings) \<Rightarrow>
               (case (if tc_optimize_fingering cfg
                      then optimize_measure_fingering cfg notes4 else Inr notes4) of
                  Inl e \<Rightarrow> Inl e
                | Inr notes5 \<Rightarrow>
                    Inr (\<lparr> tcm_number = int measure_num + 1,
                           tcm_time_signature = time_signature,
                           tcm_tempo = tempo,
                           tcm_notes = (if tc_include_techniques cfg
                                        then tc_detect_techniques notes5 else notes5),
                           tcm_chords = [],
                           tcm_lyrics = None \<rparr>, warnings))))"

fun convert_measures ::
  "TabConfiguration \<Rightarrow> int \<times> int \<Rightarrow> real \<Rightarrow> (nat \<times> NoteData list) list
     \<Rightarrow> py_error + (TC_TabMeasure list \<times> int list)" where
  "convert_measures cfg time_signature tempo [] = Inr ([], [])"
| "convert_measures cfg time_signature tempo ((measure_num, measure_notes) # rest) =
     (case convert_measure cfg time_signature tempo measure_num measure_notes of
        Inl e \<Rightarrow> Inl e
      | Inr (tab_measure, ws) \<Rightarrow>
          (case convert_measures cfg time_signature tempo rest of
             Inl e \<Rightarrow> Inl e
           | Inr (tab_measures, ws') \<Rightarrow> Inr (tab_measure # tab_measures, ws @ ws')))"

definition tc_convert_midi_to_tab ::
  "TabConfiguration \<Rightarrow> NoteData list \<Rightarrow> int \<times> int \<Rightarrow> real
     \<Rightarrow> py_error + (TC_TabMeasure list \<times> int list)" where
  "tc_convert_midi_to_tab cfg midi_notes time_signature tempo =
     (case group_into_measures midi_notes time_signature tempo of
        Inl e \<Rightarrow> Inl e
      | Inr measure_groups \<Rightarrow>
          convert_measures cfg time_signature tempo (enumerate 0 measure_groups))"

section \<open>Notions used to state the properties\<close>

text \<open>A note is playable for \<^verbatim>\<open>MidiToTabConverter\<close> when its resolver finds a position.\<close>

definition playable_M :: "TabConfig \<Rightarrow> midi_note \<Rightarrow> bool" where
  "playable_M cfg n \<longleftrightarrow> get_fret_positions cfg (mn_pitch n) \<noteq> []"

text \<open>A note is kept by \<^verbatim>\<open>TabConverter._convert_note\<close> when a position is left after
  \<^verbatim>\<open>_filter_positions\<close>.\<close>

definition kept_T :: "TabConfiguration \<Rightarrow> NoteData \<Rightarrow> bool" where
  "kept_T cfg nd \<longleftrightarrow>
     filter_positions cfg (find_positions cfg (nd_pitch nd - tc_capo_position cfg)) \<noteq> []"

text \<open>The fields of a \<^verbatim>\<open>GuitarNote\<close> that neither mutating pass touches.\<close>

definition note_key :: "GuitarNote \<Rightarrow> int \<times> real \<times> real \<times> int" where
  "note_key g = (gn_pitch g, gn_start_time g, gn_end_time g, gn_velocity g)"

text \<open>The same fields of a note dictionary, with the default velocity 80 of \<^verbatim>\<open>_convert_note\<close>.\<close>

definition note_data_key :: "NoteData \<Rightarrow> int \<times> real \<times> real \<times> int" where
  "note_data_key nd =
     (nd_pitch nd, nd_start nd, nd_end nd, (case nd_velocity nd of None \<Rightarrow> 80 | Some v \<Rightarrow> v))"

text \<open>Concrete notes for the examples below.\<close>

definition note_data :: "int \<Rightarrow> real \<Rightarrow> real \<Rightarrow> int \<Rightarrow> NoteData" where
  "note_data p s e v = \<lparr> nd_pitch = p, nd_start = s, nd_end = e, nd_velocity = Some v,
                nd_chord_shape = None, nd_is_chord_tone = False \<rparr>"

definition midi :: "int \<Rightarrow> real \<Rightarrow> real \<Rightarrow> int \<Rightarrow> midi_note" where
  "midi p s e v = \<lparr> mn_pitch = p, mn_start = s, mn_end = e, mn_velocity = v, mn_melodic = False \<rparr>"

definition open_note :: "int \<Rightarrow> GuitarNote" where
  "open_note s = \<lparr> gn_pitch = 0, gn_start_time = 0, gn_end_time = 1, gn_string = s,
       gn_fret = 0, gn_velocity = 80, gn_techniques = [], gn_is_chord_tone = False,
       gn_chord_shape = None, gn_difficulty = 0 \<rparr>"

text \<open>The time window that the loop of \<^verbatim>\<open>_organize_measures\<close> uses for the chords of
  its measure number \<open>i + 1\<close>: \<^verbatim>\<open>measure_start <= c['time'] < measure_start + measure_duration\<close>
  with \<^verbatim>\<open>measure_start\<close> at \<open>i\<close> measure durations.\<close>

definition in_window :: "real \<Rightarrow> nat \<Rightarrow> Chord \<Rightarrow> bool" where
  "in_window measure_duration i c \<longleftrightarrow>
     real i * measure_duration \<le> ch_time c \<and> ch_time c < real (Suc i) * measure_duration"

text \<open>A tab note for the examples below.\<close>

definition tab_note :: "int \<Rightarrow> int \<Rightarrow> real \<Rightarrow> real \<Rightarrow> int \<Rightarrow> TabNote" where
  "tab_note s f st d v =
     \<lparr> tn_string = s, tn_fret = f, tn_start_time = st, tn_duration = d,
       tn_technique = NORMAL, tn_velocity = v, tn_alternatives = [] \<rparr>"

text \<open>A \<^verbatim>\<open>GuitarNote\<close> for the examples below.\<close>

definition guitar_note :: "int \<Rightarrow> int \<Rightarrow> real \<Rightarrow> real \<Rightarrow> int \<Rightarrow> GuitarNote" where
  "guitar_note s f st e v =
     \<lparr> gn_pitch = 0, gn_start_time = st, gn_end_time = e, gn_string = s, gn_fret = f,
       gn_velocity = v, gn_techniques = [], gn_is_chord_tone = False,
       gn_chord_shape = None, gn_difficulty = 0 \<rparr>"

text \<open>
  The notes of a measure in the order in which \<^verbatim>\<open>TabConverter._detect_techniques\<close>
  walks them: \<^verbatim>\<open>sorted(measure.notes, key=lambda n: n.start_time)\<close>, each note paired
  with its index in \<^verbatim>\<open>measure.notes\<close>.
\<close>

definition start_time_order :: "GuitarNote list \<Rightarrow> note_ref list" where
  "start_time_order measure_notes =
     py_sorted (\<lambda>n. gn_start_time (snd n)) (enumerate 0 measure_notes)"

text \<open>A run of tab notes in which every note starts less than 50 ms from the note
  before it, and a list of runs in which the first note of every run is 50 ms or more
  from the last note of the run before: the time test of \<^verbatim>\<open>_detect_chords\<close>, which
  compares a note with \<^verbatim>\<open>current_group[-1]\<close>.\<close>

fun chained_M :: "TabNote list \<Rightarrow> bool" where
  "chained_M (a # b # rest) =
     (\<bar>tn_start_time b - tn_start_time a\<bar> < 0.05 \<and> chained_M (b # rest))"
| "chained_M _ = True"

fun separated_M :: "TabNote list list \<Rightarrow> bool" where
  "separated_M (r # s # rest) =
     (\<not> \<bar>tn_start_time (hd s) - tn_start_time (last r)\<bar> < 0.05 \<and> separated_M (s # rest))"
| "separated_M _ = True"

text \<open>The state of the loop of \<^verbatim>\<open>_detect_chords\<close> after some notes: \<open>runs\<close> are the
  runs closed so far, of which \<^verbatim>\<open>note_groups\<close> keeps those of three notes or more.\<close>

definition group_loop_state :: "TabNote list list \<Rightarrow> TabNote list list \<Rightarrow> TabNote list \<Rightarrow> bool" where
  "group_loop_state runs note_groups current_group \<longleftrightarrow>
     [] \<notin> set runs \<and> list_all chained_M runs \<and> chained_M current_group
     \<and> separated_M (if current_group = [] then runs else runs @ [current_group])
     \<and> (current_group = [] \<longrightarrow> runs = [])
     \<and> note_groups = [r \<leftarrow> runs. 3 \<le> length r]"

text \<open>A group of note dictionaries in which every note starts within 50 ms of the
  first note of the group, and a list of groups in which the first note of every group
  is more than 50 ms from the first note of the group before: the time test of
  \<^verbatim>\<open>_detect_chord_groups\<close>, which compares a note with \<^verbatim>\<open>group_start\<close>.\<close>

definition anchored_T :: "NoteData list \<Rightarrow> bool" where
  "anchored_T grp = list_all (\<lambda>x. \<bar>nd_start x - nd_start (hd grp)\<bar> \<le> 0.05) grp"

fun separated_T :: "NoteData list list \<Rightarrow> bool" where
  "separated_T (r # s # rest) =
     (\<not> \<bar>nd_start (hd s) - nd_start (hd r)\<bar> \<le> 0.05 \<and> separated_T (s # rest))"
| "separated_T _ = True"

text \<open>The state of the loop of \<^verbatim>\<open>_detect_chord_groups\<close> after some notes.\<close>

definition chord_groups_loop_state ::
  "NoteData list list \<Rightarrow> NoteData list list \<Rightarrow> NoteData list \<Rightarrow> real option \<Rightarrow> bool" where
  "chord_groups_loop_state runs chord_groups current_group group_start \<longleftrightarrow>
     [] \<notin> set runs \<and> list_all anchored_T runs \<and> anchored_T current_group
     \<and> separated_T (if current_group = [] then runs else runs @ [current_group])
     \<and> (current_group = [] \<longrightarrow> runs = [])
     \<and> group_start = (if current_group = [] then None
                       else Some (nd_start (hd current_group)))
     \<and> chord_groups = [r \<leftarrow> runs. 2 \<le> length r]"

text \<open>A group of \<^verbatim>\<open>_detect_chords\<close> becomes a chord when its pitches can be read
  off the tuning and \<^verbatim>\<open>_identify_chord\<close> names them.\<close>

definition recognised_M :: "TabConfig \<Rightarrow> TabNote list \<Rightarrow> bool" where
  "recognised_M cfg grp =
     (case group_pitches cfg grp of
        Inl e \<Rightarrow> False
      | Inr pitches \<Rightarrow> identify_chord pitches grp \<noteq> None)"

section \<open>Properties\<close>

subsection \<open>The position resolvers\<close>

lemma get_fret_positions_iff:
  "(s, f) \<in> set (get_fret_positions cfg p) \<longleftrightarrow>
     1 \<le> s \<and> s \<le> int (length (tuning cfg)) \<and>
     p = tuning cfg ! nat (s - 1) + capo cfg + f \<and> 0 \<le> f \<and> f \<le> max_fret"
proof
  assume "(s, f) \<in> set (get_fret_positions cfg p)"
  then obtain i op where io: "(i, op) \<in> set (enumerate 0 (self_tuning cfg))"
    and s: "s = int i + 1" and f: "f = p - op" and r: "0 \<le> p - op" "p - op \<le> max_fret"
    by (auto simp: get_fret_positions_def)
  from io have "i < length (tuning cfg)" and "op = tuning cfg ! i + capo cfg"
    by (auto simp: in_set_enumerate_eq self_tuning_def)
  with s f r show "1 \<le> s \<and> s \<le> int (length (tuning cfg)) \<and>
     p = tuning cfg ! nat (s - 1) + capo cfg + f \<and> 0 \<le> f \<and> f \<le> max_fret"
    by simp
next
  assume a: "1 \<le> s \<and> s \<le> int (length (tuning cfg)) \<and>
     p = tuning cfg ! nat (s - 1) + capo cfg + f \<and> 0 \<le> f \<and> f \<le> max_fret"
  define i where "i = nat (s - 1)"
  define op where "op = tuning cfg ! i + capo cfg"
  from a have i: "i < length (tuning cfg)" and s: "s = int i + 1"
    by (auto simp: i_def)
  then have "(i, op) \<in> set (enumerate 0 (self_tuning cfg))"
    by (simp add: in_set_enumerate_eq self_tuning_def op_def)
  moreover from a have "f = p - op" "0 \<le> p - op" "p - op \<le> max_fret"
    by (auto simp: op_def i_def)
  ultimately show "(s, f) \<in> set (get_fret_positions cfg p)"
    using s by (force simp: get_fret_positions_def)
qed

lemma find_positions_iff:
  "pos \<in> set (find_positions cfg q) \<longleftrightarrow>
     (\<exists>i < length (tc_tuning cfg).
        0 \<le> q - tc_tuning cfg ! i \<and> q - tc_tuning cfg ! i \<le> 24 \<and>
        pos = \<lparr> p_string = int i + 1, p_fret = q - tc_tuning cfg ! i,
                p_difficulty = calculate_difficulty (int i + 1) (q - tc_tuning cfg ! i),
                p_is_open = (q - tc_tuning cfg ! i = 0),
                p_position = get_hand_position (q - tc_tuning cfg ! i) \<rparr>)"
  by (auto simp: find_positions_def in_set_enumerate_eq)

lemma get_fret_positions_empty_iff:
  "get_fret_positions cfg p = [] \<longleftrightarrow>
     (\<forall>i < length (tuning cfg).
        p - (tuning cfg ! i + capo cfg) < 0 \<or> p - (tuning cfg ! i + capo cfg) > max_fret)"
proof -
  have "get_fret_positions cfg p = [] \<longleftrightarrow> (\<forall>s f. (s, f) \<notin> set (get_fret_positions cfg p))"
    by (cases "get_fret_positions cfg p") auto
  also have "\<dots> \<longleftrightarrow> (\<forall>i < length (tuning cfg).
        p - (tuning cfg ! i + capo cfg) < 0 \<or> p - (tuning cfg ! i + capo cfg) > max_fret)"
  proof
    assume h: "\<forall>s f. (s, f) \<notin> set (get_fret_positions cfg p)"
    show "\<forall>i < length (tuning cfg).
        p - (tuning cfg ! i + capo cfg) < 0 \<or> p - (tuning cfg ! i + capo cfg) > max_fret"
    proof (intro allI impI)
      fix i assume i: "i < length (tuning cfg)"
      from h have "(int i + 1, p - (tuning cfg ! i + capo cfg)) \<notin> set (get_fret_positions cfg p)"
        by blast
      with i show "p - (tuning cfg ! i + capo cfg) < 0 \<or> p - (tuning cfg ! i + capo cfg) > max_fret"
        by (auto simp: get_fret_positions_iff)
    qed
  next
    assume h: "\<forall>i < length (tuning cfg).
        p - (tuning cfg ! i + capo cfg) < 0 \<or> p - (tuning cfg ! i + capo cfg) > max_fret"
    show "\<forall>s f. (s, f) \<notin> set (get_fret_positions cfg p)"
    proof (intro allI notI)
      fix s f assume "(s, f) \<in> set (get_fret_positions cfg p)"
      then have a: "1 \<le> s" "s \<le> int (length (tuning cfg))"
        "p = tuning cfg ! nat (s - 1) + capo cfg + f" "0 \<le> f" "f \<le> max_fret"
        by (auto simp: get_fret_positions_iff)
      then have "nat (s - 1) < length (tuning cfg)" by auto
      with h a show False by fastforce
    qed
  qed
  finally show ?thesis .
qed

lemma find_positions_empty_iff:
  "find_positions cfg q = [] \<longleftrightarrow>
     (\<forall>i < length (tc_tuning cfg). q - tc_tuning cfg ! i < 0 \<or> q - tc_tuning cfg ! i > 24)"
proof
  assume e: "find_positions cfg q = []"
  show "\<forall>i < length (tc_tuning cfg). q - tc_tuning cfg ! i < 0 \<or> q - tc_tuning cfg ! i > 24"
  proof (intro allI impI, rule ccontr)
    fix i assume i: "i < length (tc_tuning cfg)"
      and n: "\<not> (q - tc_tuning cfg ! i < 0 \<or> q - tc_tuning cfg ! i > 24)"
    then have "\<exists>pos. pos \<in> set (find_positions cfg q)"
      unfolding find_positions_iff by (intro exI[of _ i] exI conjI) auto
    with e show False by simp
  qed
next
  assume h: "\<forall>i < length (tc_tuning cfg). q - tc_tuning cfg ! i < 0 \<or> q - tc_tuning cfg ! i > 24"
  have "pos \<notin> set (find_positions cfg q)" for pos
    unfolding find_positions_iff using h by fastforce
  then show "find_positions cfg q = []"
    by (cases "find_positions cfg q") auto
qed

lemma get_fret_positions_standard_64:
  "get_fret_positions default_TabConfig 64 = [(1, 24), (2, 19), (3, 14), (4, 9), (5, 5), (6, 0)]"
  by (simp add: get_fret_positions_def default_TabConfig_def STANDARD_def self_tuning_def
        max_fret_def)

lemma get_fret_positions_standard_28: "get_fret_positions default_TabConfig 28 = []"
  by (simp add: get_fret_positions_def default_TabConfig_def STANDARD_def self_tuning_def
        max_fret_def)

text \<open>
  Claim C1. For every pitch and every configuration, each candidate of either resolver
  (\<^verbatim>\<open>_get_fret_positions\<close>; \<^verbatim>\<open>_find_positions\<close> as \<^verbatim>\<open>_convert_note\<close> calls it, on
  the pitch less the capo) names a string of the tuning and a fret between 0 and 24 with
  pitch = open pitch of the string + capo + fret; and the candidate list is empty exactly
  when every string would need a fret below 0 or above 24.
\<close>

theorem position_resolver_sound_and_complete:
  "(\<forall>(s, f) \<in> set (get_fret_positions cfg pitch).
      1 \<le> s \<and> s \<le> int (length (tuning cfg)) \<and>
      pitch = tuning cfg ! nat (s - 1) + capo cfg + f \<and> 0 \<le> f \<and> f \<le> max_fret)
   \<and> (get_fret_positions cfg pitch = [] \<longleftrightarrow>
        (\<forall>i < length (tuning cfg).
           pitch - (tuning cfg ! i + capo cfg) < 0 \<or> pitch - (tuning cfg ! i + capo cfg) > max_fret))
   \<and> (\<forall>pos \<in> set (find_positions tcfg (pitch - tc_capo_position tcfg)).
        1 \<le> p_string pos \<and> p_string pos \<le> int (length (tc_tuning tcfg)) \<and>
        pitch = tc_tuning tcfg ! nat (p_string pos - 1) + tc_capo_position tcfg + p_fret pos \<and>
        0 \<le> p_fret pos \<and> p_fret pos \<le> 24)
   \<and> (find_positions tcfg (pitch - tc_capo_position tcfg) = [] \<longleftrightarrow>
        (\<forall>i < length (tc_tuning tcfg).
           pitch - (tc_tuning tcfg ! i + tc_capo_position tcfg) < 0
           \<or> pitch - (tc_tuning tcfg ! i + tc_capo_position tcfg) > 24))"
proof (intro conjI)
  show "\<forall>(s, f) \<in> set (get_fret_positions cfg pitch).
      1 \<le> s \<and> s \<le> int (length (tuning cfg)) \<and>
      pitch = tuning cfg ! nat (s - 1) + capo cfg + f \<and> 0 \<le> f \<and> f \<le> max_fret"
    using get_fret_positions_iff by blast
  show "get_fret_positions cfg pitch = [] \<longleftrightarrow>
        (\<forall>i < length (tuning cfg).
           pitch - (tuning cfg ! i + capo cfg) < 0 \<or> pitch - (tuning cfg ! i + capo cfg) > max_fret)"
    by (rule get_fret_positions_empty_iff)
  show "\<forall>pos \<in> set (find_positions tcfg (pitch - tc_capo_position tcfg)).
        1 \<le> p_string pos \<and> p_string pos \<le> int (length (tc_tuning tcfg)) \<and>
        pitch = tc_tuning tcfg ! nat (p_string pos - 1) + tc_capo_position tcfg + p_fret pos \<and>
        0 \<le> p_fret pos \<and> p_fret pos \<le> 24"
    by (auto simp: find_positions_iff)
  show "find_positions tcfg (pitch - tc_capo_position tcfg) = [] \<longleftrightarrow>
        (\<forall>i < length (tc_tuning tcfg).
           pitch - (tc_tuning tcfg ! i + tc_capo_position tcfg) < 0
           \<or> pitch - (tc_tuning tcfg ! i + tc_capo_position tcfg) > 24)"
    by (simp add: find_positions_empty_iff algebra_simps)
qed

theorem position_resolver_witness:
  "(6, 0) \<in> set (get_fret_positions default_TabConfig 64)
   \<and> (64 :: int) = tuning default_TabConfig ! nat (6 - 1) + capo default_TabConfig + 0
   \<and> get_fret_positions default_TabConfig 28 = []
   \<and> 28 - (tuning default_TabConfig ! 5 + capo default_TabConfig) < 0"
proof -
  have a: "(6, 0) \<in> set (get_fret_positions default_TabConfig 64)"
    by (simp add: get_fret_positions_standard_64)
  have b: "(64 :: int) = tuning default_TabConfig ! nat (6 - 1) + capo default_TabConfig + 0"
    using position_resolver_sound_and_complete [of default_TabConfig 64 default_TabConfiguration] a
    by fastforce
  have c: "length (tuning default_TabConfig) = 6"
    by (simp add: default_TabConfig_def STANDARD_def)
  have "28 - (tuning default_TabConfig ! 5 + capo default_TabConfig) < 0
        \<or> 28 - (tuning default_TabConfig ! 5 + capo default_TabConfig) > max_fret"
    using position_resolver_sound_and_complete [of default_TabConfig 28 default_TabConfiguration]
      get_fret_positions_standard_28 c by simp
  then have d: "28 - (tuning default_TabConfig ! 5 + capo default_TabConfig) < 0"
    by (simp add: default_TabConfig_def STANDARD_def max_fret_def)
  from a b d show ?thesis by (simp add: get_fret_positions_standard_28)
qed

subsection \<open>Conversion loops and mutating passes\<close>

lemma py_min_key_in_set: "py_min_key f x xs \<in> set (x # xs)"
  unfolding py_min_key_def
  by (induction xs arbitrary: x) (auto split: if_splits)

lemma select_optimal_position_Some:
  assumes "positions \<noteq> []"
  shows "\<exists>p \<in> set positions. select_optimal_position cfg positions previous melodic = Some p"
proof -
  from assms obtain q qs where pq: "positions = q # qs" by (cases positions) auto
  show ?thesis
  proof (cases previous)
    case None
    have "length positions div 2 < length positions" using assms by simp
    then have "positions ! (length positions div 2) \<in> set positions" by (rule nth_mem)
    moreover have "py_min_key snd q qs \<in> set positions"
      using py_min_key_in_set [of snd q qs] pq by simp
    ultimately show ?thesis using None pq
      by (simp add: select_optimal_position_def)
  next
    case (Some prev)
    let ?c = "\<lambda>pos. (pos, position_cost cfg prev melodic pos)"
    have "py_min_key snd (?c q) (map ?c qs) \<in> set (?c q # map ?c qs)"
      by (rule py_min_key_in_set)
    then have "fst (py_min_key snd (?c q) (map ?c qs)) \<in> set (q # qs)"
      by auto
    then show ?thesis using Some pq
      by (simp add: select_optimal_position_def)
  qed
qed

lemma convert_loop_result:
  "\<exists>new_notes.
     convert_loop cfg ns acc prev wlog =
       Inr (acc @ new_notes, wlog @ map mn_pitch [n \<leftarrow> ns. get_fret_positions cfg (mn_pitch n) = []])
     \<and> map (\<lambda>t. (tn_start_time t, tn_duration t, tn_velocity t)) new_notes
         = map (\<lambda>n. (mn_start n, mn_end n - mn_start n, mn_velocity n))
             [n \<leftarrow> ns. get_fret_positions cfg (mn_pitch n) \<noteq> []]"
proof (induction ns arbitrary: acc prev wlog)
  case Nil
  show ?case by simp
next
  case (Cons n ns)
  show ?case
  proof (cases "get_fret_positions cfg (mn_pitch n) = []")
    case True
    from Cons.IH [of acc prev "wlog @ [mn_pitch n]"] True show ?thesis
      by auto
  next
    case False
    then obtain p where p: "select_optimal_position cfg (get_fret_positions cfg (mn_pitch n)) prev (mn_melodic n) = Some p"
      using select_optimal_position_Some by blast
    define t where "t = \<lparr> tn_string = fst p, tn_fret = snd p, tn_start_time = mn_start n,
                    tn_duration = mn_end n - mn_start n, tn_technique = NORMAL,
                    tn_velocity = mn_velocity n,
                    tn_alternatives = [q \<leftarrow> get_fret_positions cfg (mn_pitch n). q \<noteq> p] \<rparr>"
    from Cons.IH [of "acc @ [t]" "Some p" wlog] obtain new_notes where
      nn: "convert_loop cfg ns (acc @ [t]) (Some p) wlog =
       Inr ((acc @ [t]) @ new_notes, wlog @ map mn_pitch [n \<leftarrow> ns. get_fret_positions cfg (mn_pitch n) = []])"
      "map (\<lambda>t. (tn_start_time t, tn_duration t, tn_velocity t)) new_notes
         = map (\<lambda>n. (mn_start n, mn_end n - mn_start n, mn_velocity n))
             [n \<leftarrow> ns. get_fret_positions cfg (mn_pitch n) \<noteq> []]"
      by blast
    show ?thesis
      apply (rule exI [of _ "t # new_notes"])
      using False p nn by (simp add: t_def Let_def)
  qed
qed

lemma tc_select_optimal_position_Some:
  assumes "positions \<noteq> []"
  shows "\<exists>p \<in> set positions. tc_select_optimal_position cfg positions previous_notes = Some p"
proof (cases positions)
  case Nil
  with assms show ?thesis by simp
next
  case (Cons q qs)
  show ?thesis
  proof (cases qs)
    case Nil
    with Cons show ?thesis by (simp add: tc_select_optimal_position_def)
  next
    case (Cons r rs)
    let ?scored = "map (\<lambda>pos. (position_score cfg previous_notes pos, pos)) positions"
    have "length (py_sorted_reverse fst ?scored) = length positions"
      by (simp add: py_sorted_reverse_def)
    with assms have ne: "py_sorted_reverse fst ?scored \<noteq> []"
      by auto
    have "hd (py_sorted_reverse fst ?scored) \<in> set (py_sorted_reverse fst ?scored)"
      using ne by (rule hd_in_set)
    then have "hd (py_sorted_reverse fst ?scored) \<in> set ?scored"
      by (simp add: py_sorted_reverse_def)
    then have "snd (hd (py_sorted_reverse fst ?scored)) \<in> set positions"
      by auto
    then show ?thesis
      using Cons \<open>positions = q # qs\<close> by (simp add: tc_select_optimal_position_def)
  qed
qed

lemma convert_note_cases:
  "(filter_positions cfg (find_positions cfg (nd_pitch nd - tc_capo_position cfg)) = []
      \<and> convert_note cfg nd prev = Inr ([], [nd_pitch nd]))
   \<or> (filter_positions cfg (find_positions cfg (nd_pitch nd - tc_capo_position cfg)) \<noteq> []
      \<and> (\<exists>p \<in> set (filter_positions cfg (find_positions cfg (nd_pitch nd - tc_capo_position cfg))).
            convert_note cfg nd prev =
              Inr ([\<lparr> gn_pitch = nd_pitch nd,
                       gn_start_time = nd_start nd,
                       gn_end_time = nd_end nd,
                       gn_string = p_string p,
                       gn_fret = p_fret p,
                       gn_velocity = (case nd_velocity nd of None \<Rightarrow> 80 | Some v \<Rightarrow> v),
                       gn_techniques = [],
                       gn_is_chord_tone = False,
                       gn_chord_shape = None,
                       gn_difficulty = p_difficulty p \<rparr>], [])))"
proof (cases "filter_positions cfg (find_positions cfg (nd_pitch nd - tc_capo_position cfg)) = []")
  case True
  then show ?thesis by (simp add: convert_note_def)
next
  case False
  from tc_select_optimal_position_Some [OF False, of cfg prev]
  obtain p where "p \<in> set (filter_positions cfg (find_positions cfg (nd_pitch nd - tc_capo_position cfg)))"
    "tc_select_optimal_position cfg (filter_positions cfg (find_positions cfg (nd_pitch nd - tc_capo_position cfg))) prev = Some p"
    by blast
  with False show ?thesis
    by (auto simp: convert_note_def Let_def)
qed

lemma convert_notes_loop_result:
  "\<exists>new_notes.
     convert_notes_loop cfg nds acc wlog =
       Inr (acc @ new_notes, wlog @ map nd_pitch [nd \<leftarrow> nds. \<not> kept_T cfg nd])
     \<and> map (\<lambda>g. (gn_pitch g, gn_start_time g, gn_end_time g)) new_notes
         = map (\<lambda>nd. (nd_pitch nd, nd_start nd, nd_end nd)) [nd \<leftarrow> nds. kept_T cfg nd]"
proof (induction nds arbitrary: acc wlog)
  case Nil
  show ?case by simp
next
  case (Cons nd nds)
  from convert_note_cases [of cfg nd acc] show ?case
  proof (elim disjE conjE bexE)
    assume e: "filter_positions cfg (find_positions cfg (nd_pitch nd - tc_capo_position cfg)) = []"
      and c: "convert_note cfg nd acc = Inr ([], [nd_pitch nd])"
    from Cons.IH [of acc "wlog @ [nd_pitch nd]"] e c show ?thesis
      by (auto simp: kept_T_def)
  next
    fix p :: Position
    assume e: "filter_positions cfg (find_positions cfg (nd_pitch nd - tc_capo_position cfg)) \<noteq> []"
      and c: "convert_note cfg nd acc =
              Inr ([\<lparr> gn_pitch = nd_pitch nd,
                       gn_start_time = nd_start nd,
                       gn_end_time = nd_end nd,
                       gn_string = p_string p,
                       gn_fret = p_fret p,
                       gn_velocity = (case nd_velocity nd of None \<Rightarrow> 80 | Some v \<Rightarrow> v),
                       gn_techniques = [],
                       gn_is_chord_tone = False,
                       gn_chord_shape = None,
                       gn_difficulty = p_difficulty p \<rparr>], [])" (is "_ = Inr ([?g], [])")
    from Cons.IH [of "acc @ [?g]" wlog] obtain new_notes where
      nn: "convert_notes_loop cfg nds (acc @ [?g]) wlog =
             Inr ((acc @ [?g]) @ new_notes, wlog @ map nd_pitch [nd \<leftarrow> nds. \<not> kept_T cfg nd])"
        "map (\<lambda>g. (gn_pitch g, gn_start_time g, gn_end_time g)) new_notes
         = map (\<lambda>nd. (nd_pitch nd, nd_start nd, nd_end nd)) [nd \<leftarrow> nds. kept_T cfg nd]"
      by blast
    show ?thesis
      apply (rule exI [of _ "?g # new_notes"])
      using e c nn by (simp add: kept_T_def)
  qed
qed

lemma length_write_back: "length (write_back refs store) = length store"
  unfolding write_back_def
  by (induction refs arbitrary: store) (auto split: prod.splits)

lemma map_write_back:
  "\<forall>(i, n) \<in> set refs. i < length store \<and> key n = key (store ! i)
     \<Longrightarrow> map key (write_back refs store) = map key store"
proof (induction refs arbitrary: store)
  case Nil
  show ?case by (simp add: write_back_def)
next
  case (Cons r refs)
  obtain i n where r: "r = (i, n)" by (cases r)
  from Cons.prems r have i: "i < length store" and k: "key n = key (store ! i)"
    by auto
  have eq: "map key (store[i := n]) = map key store"
    using i k by (simp add: map_update list_update_same_conv)
  have "\<forall>(j, m) \<in> set refs. j < length (store[i := n]) \<and> key m = key (store[i := n] ! j)"
  proof (clarify)
    fix j m assume jm: "(j, m) \<in> set refs"
    with Cons.prems have j: "j < length store" and km: "key m = key (store ! j)" by auto
    have "key (store[i := n] ! j) = map key (store[i := n]) ! j" using j by simp
    also have "\<dots> = key (store ! j)" using eq j by simp
    finally show "j < length (store[i := n]) \<and> key m = key (store[i := n] ! j)"
      using j km by simp
  qed
  from Cons.IH [OF this] have "map key (write_back refs (store[i := n])) = map key store"
    using eq by simp
  then show ?case by (simp add: write_back_def r)
qed

lemma proximity_loop_concat:
  "proximity_loop th ns groups cur = (groups', cur')
     \<Longrightarrow> concat groups' @ cur' = concat groups @ cur @ ns"
  by (induction ns arbitrary: groups cur) (auto split: if_splits)

lemma group_by_time_proximity_concat:
  "concat (group_by_time_proximity refs th) = py_sorted (\<lambda>n. gn_start_time (snd n)) refs"
proof -
  obtain groups' cur' where
    l: "proximity_loop th (py_sorted (\<lambda>n. gn_start_time (snd n)) refs) [] [] = (groups', cur')"
    by (cases "proximity_loop th (py_sorted (\<lambda>n. gn_start_time (snd n)) refs) [] []")
  from proximity_loop_concat [OF l] show ?thesis
    by (auto simp: group_by_time_proximity_def l)
qed

lemma note_key_reassign_note: "note_key (reassign_note cfg target g) = note_key g"
  by (simp add: reassign_note_def note_key_def Let_def split: option.splits)

lemma optimize_groups_key:
  "optimize_groups cfg groups store = Inr store'
     \<Longrightarrow> \<forall>g \<in> set groups. \<forall>(i, n) \<in> set g. i < length store \<and> note_key n = note_key (store ! i)
     \<Longrightarrow> map note_key store' = map note_key store"
proof (induction groups arbitrary: store)
  case Nil
  then show ?case by simp
next
  case (Cons g groups)
  show ?case
  proof (cases "length g > 1")
    case False
    with Cons.prems have "optimize_groups cfg groups store = Inr store'" by simp
    from Cons.IH [OF this] Cons.prems(2) show ?thesis by simp
  next
    case True
    then have gne: "g \<noteq> []" by auto
    define g' where "g' = map (\<lambda>(i, note). (i, reassign_note cfg
         (get_hand_position (py_int (real_of_int (sum_list (map (\<lambda>n. gn_fret (snd n)) g))
                         / real (length g)))) note)) g"
    have og: "optimize_group_fingering cfg g = Inr g'"
      using gne by (simp add: optimize_group_fingering_def g'_def Let_def)
    with True Cons.prems have rest: "optimize_groups cfg groups (write_back g' store) = Inr store'"
      by simp
    have w: "\<forall>(i, n) \<in> set g'. i < length store \<and> note_key n = note_key (store ! i)"
      using Cons.prems(2) by (auto simp: g'_def note_key_reassign_note)
    from map_write_back [OF w] have eq: "map note_key (write_back g' store) = map note_key store" .
    have "\<forall>h \<in> set groups. \<forall>(i, n) \<in> set h.
            i < length (write_back g' store) \<and> note_key n = note_key (write_back g' store ! i)"
    proof (clarify)
      fix h i n assume h: "h \<in> set groups" and "(i, n) \<in> set h"
      with Cons.prems(2) have i: "i < length store" and k: "note_key n = note_key (store ! i)"
        by auto
      have "note_key (write_back g' store ! i) = map note_key (write_back g' store) ! i"
        using i by (simp add: length_write_back)
      also have "\<dots> = note_key (store ! i)" using eq i by simp
      finally show "i < length (write_back g' store) \<and> note_key n = note_key (write_back g' store ! i)"
        using i k by (simp add: length_write_back)
    qed
    from Cons.IH [OF rest this] eq show ?thesis by simp
  qed
qed

lemma in_enumerate_0: "(i, n) \<in> set (enumerate 0 xs) \<Longrightarrow> i < length xs \<and> n = xs ! i"
  by (simp add: in_set_enumerate_eq)

lemma in_concatI: "g \<in> set gs \<Longrightarrow> x \<in> set g \<Longrightarrow> x \<in> set (concat gs)"
  by auto

lemma group_by_time_proximity_member:
  assumes "g \<in> set (group_by_time_proximity refs th)" and "x \<in> set g"
  shows "x \<in> set refs"
proof -
  from assms have "x \<in> set (concat (group_by_time_proximity refs th))"
    by (rule in_concatI)
  then have "x \<in> set (py_sorted (\<lambda>n. gn_start_time (snd n)) refs)"
    by (simp only: group_by_time_proximity_concat)
  then show ?thesis by (simp add: py_sorted_def)
qed

lemma optimize_measure_fingering_key:
  assumes "optimize_measure_fingering cfg ns = Inr ns'"
  shows "map note_key ns' = map note_key ns"
proof (cases "length ns < 2")
  case True
  with assms show ?thesis by (simp add: optimize_measure_fingering_def)
next
  case False
  define groups where "groups = group_by_time_proximity (enumerate 0 ns) 0.5"
  from False assms have o: "optimize_groups cfg groups ns = Inr ns'"
    by (simp add: optimize_measure_fingering_def groups_def)
  have "\<forall>g \<in> set groups. \<forall>(i, n) \<in> set g. i < length ns \<and> note_key n = note_key (ns ! i)"
  proof (intro ballI, clarify)
    fix g i n assume "g \<in> set groups" "(i, n) \<in> set g"
    then have "(i, n) \<in> set (enumerate 0 ns)"
      unfolding groups_def by (rule group_by_time_proximity_member)
    from in_enumerate_0 [OF this]
    show "i < length ns \<and> note_key n = note_key (ns ! i)" by simp
  qed
  from optimize_groups_key [OF o this] show ?thesis .
qed

lemma techniques_loop_member:
  "(i, n) \<in> set (techniques_loop prev refs)
     \<Longrightarrow> \<exists>m. (i, m) \<in> set refs \<and> note_key n = note_key m"
proof (induction prev refs rule: techniques_loop.induct)
  case (1 prev)
  then show ?case by simp
next
  case (2 prev j current rest)
  from "2.prems" consider
    (here) "i = j" "n = current\<lparr>gn_techniques :=
           gn_techniques current
             @ new_techniques prev current
                 (case rest of [] \<Rightarrow> None | nxt # _ \<Rightarrow> Some (snd nxt))\<rparr>"
    | (there) "(i, n) \<in> set (techniques_loop (Some current) rest)"
    by auto
  then show ?case
  proof cases
    case here
    have "note_key n = note_key current" unfolding here(2) note_key_def by simp
    with here(1) show ?thesis by auto
  next
    case there
    from "2.IH" [OF there] show ?thesis by auto
  qed
qed

lemma tc_detect_techniques_key: "map note_key (tc_detect_techniques ns) = map note_key ns"
proof -
  let ?refs = "py_sorted (\<lambda>n. gn_start_time (snd n)) (enumerate 0 ns)"
  have "\<forall>(i, n) \<in> set (techniques_loop None ?refs).
          i < length ns \<and> note_key n = note_key (ns ! i)"
  proof (clarify)
    fix i n assume "(i, n) \<in> set (techniques_loop None ?refs)"
    from techniques_loop_member [OF this] obtain m where
      m: "(i, m) \<in> set ?refs" "note_key n = note_key m" by blast
    from m(1) have "(i, m) \<in> set (enumerate 0 ns)" by (simp add: py_sorted_def)
    from in_enumerate_0 [OF this] m(2)
    show "i < length ns \<and> note_key n = note_key (ns ! i)" by simp
  qed
  from map_write_back [OF this]
  show ?thesis by (simp add: tc_detect_techniques_def)
qed

lemma convert_notes_loop_key:
  "\<exists>new_notes.
     convert_notes_loop cfg nds acc wlog =
       Inr (acc @ new_notes, wlog @ map nd_pitch [nd \<leftarrow> nds. \<not> kept_T cfg nd])
     \<and> map note_key new_notes = map note_data_key [nd \<leftarrow> nds. kept_T cfg nd]"
proof (induction nds arbitrary: acc wlog)
  case Nil
  show ?case by simp
next
  case (Cons nd nds)
  from convert_note_cases [of cfg nd acc] show ?case
  proof (elim disjE conjE bexE)
    assume e: "filter_positions cfg (find_positions cfg (nd_pitch nd - tc_capo_position cfg)) = []"
      and c: "convert_note cfg nd acc = Inr ([], [nd_pitch nd])"
    from Cons.IH [of acc "wlog @ [nd_pitch nd]"] e c show ?thesis
      by (auto simp: kept_T_def)
  next
    fix p :: Position
    define g where "g = \<lparr> gn_pitch = nd_pitch nd,
                       gn_start_time = nd_start nd,
                       gn_end_time = nd_end nd,
                       gn_string = p_string p,
                       gn_fret = p_fret p,
                       gn_velocity = (case nd_velocity nd of None \<Rightarrow> 80 | Some v \<Rightarrow> v),
                       gn_techniques = [],
                       gn_is_chord_tone = False,
                       gn_chord_shape = None,
                       gn_difficulty = p_difficulty p \<rparr>"
    assume e: "filter_positions cfg (find_positions cfg (nd_pitch nd - tc_capo_position cfg)) \<noteq> []"
      and c: "convert_note cfg nd acc =
              Inr ([\<lparr> gn_pitch = nd_pitch nd,
                       gn_start_time = nd_start nd,
                       gn_end_time = nd_end nd,
                       gn_string = p_string p,
                       gn_fret = p_fret p,
                       gn_velocity = (case nd_velocity nd of None \<Rightarrow> 80 | Some v \<Rightarrow> v),
                       gn_techniques = [],
                       gn_is_chord_tone = False,
                       gn_chord_shape = None,
                       gn_difficulty = p_difficulty p \<rparr>], [])"
    then have c': "convert_note cfg nd acc = Inr ([g], [])" by (simp add: g_def)
    have k: "note_key g = note_data_key nd" by (simp add: g_def note_key_def note_data_key_def)
    from Cons.IH [of "acc @ [g]" wlog] obtain new_notes where
      nn: "convert_notes_loop cfg nds (acc @ [g]) wlog =
             Inr ((acc @ [g]) @ new_notes, wlog @ map nd_pitch [nd \<leftarrow> nds. \<not> kept_T cfg nd])"
        "map note_key new_notes = map note_data_key [nd \<leftarrow> nds. kept_T cfg nd]"
      by blast
    show ?thesis
      apply (rule exI [of _ "g # new_notes"])
      using e c' nn k by (simp add: kept_T_def)
  qed
qed

lemma measures_loop_concat:
  "measures_loop md ns ms cur st = (ms', cur')
     \<Longrightarrow> concat ms' @ cur' = concat ms @ cur @ ns"
  by (induction ns arbitrary: ms cur st) (simp_all split: if_splits)

lemma measures_loop_nonempty:
  "measures_loop md ns ms cur st = (ms', cur') \<Longrightarrow> [] \<notin> set ms \<Longrightarrow> [] \<notin> set ms'"
  by (induction ns arbitrary: ms cur st) (simp_all split: if_splits)

lemma group_into_measures_total:
  "tempo \<noteq> 0 \<or> notes = [] \<Longrightarrow> \<exists>gs. group_into_measures notes ts tempo = Inr gs"
  by (auto simp: group_into_measures_def Let_def split: prod.splits)

lemma group_into_measures_concat:
  assumes "group_into_measures notes ts tempo = Inr gs"
  shows "concat gs = py_sorted nd_start notes \<and> [] \<notin> set gs"
proof (cases "notes = []")
  case True
  with assms show ?thesis by (simp add: group_into_measures_def py_sorted_def)
next
  case False
  with assms have t: "tempo \<noteq> 0" by (auto simp: group_into_measures_def split: if_splits)
  define md where "md = real_of_int (fst ts) * (60 / tempo)"
  obtain ms' cur' where l: "measures_loop md (py_sorted nd_start notes) [] [] 0 = (ms', cur')"
    by (cases "measures_loop md (py_sorted nd_start notes) [] [] 0")
  from assms False t l have gs: "gs = (if cur' \<noteq> [] then ms' @ [cur'] else ms')"
    by (simp add: group_into_measures_def Let_def md_def)
  from measures_loop_concat [OF l] measures_loop_nonempty [OF l]
  show ?thesis unfolding gs by auto
qed

lemma convert_measure_result:
  assumes "convert_measure cfg ts tempo num nds = Inr (m, ws)"
  shows "map note_key (tcm_notes m) = map note_data_key [nd \<leftarrow> nds. kept_T cfg nd]
         \<and> ws = map nd_pitch [nd \<leftarrow> nds. \<not> kept_T cfg nd]
         \<and> tcm_number m = int num + 1"
proof -
  from convert_notes_loop_key [of cfg nds "[]" "[]"] obtain notes4 where
    l: "convert_notes_loop cfg nds [] [] = Inr (notes4, map nd_pitch [nd \<leftarrow> nds. \<not> kept_T cfg nd])"
    and k4: "map note_key notes4 = map note_data_key [nd \<leftarrow> nds. kept_T cfg nd]"
    by auto
  from assms l obtain notes5 where
    o: "(if tc_optimize_fingering cfg then optimize_measure_fingering cfg notes4 else Inr notes4)
          = Inr notes5"
    and m: "m = \<lparr> tcm_number = int num + 1, tcm_time_signature = ts, tcm_tempo = tempo,
                  tcm_notes = (if tc_include_techniques cfg
                               then tc_detect_techniques notes5 else notes5),
                  tcm_chords = [], tcm_lyrics = None \<rparr>"
    and w: "ws = map nd_pitch [nd \<leftarrow> nds. \<not> kept_T cfg nd]"
    by (auto simp: convert_measure_def split: sum.splits)
  have k5: "map note_key notes5 = map note_key notes4"
  proof (cases "tc_optimize_fingering cfg")
    case True
    with o have "optimize_measure_fingering cfg notes4 = Inr notes5" by simp
    then show ?thesis by (rule optimize_measure_fingering_key)
  next
    case False
    with o show ?thesis by simp
  qed
  have "map note_key (tcm_notes m) = map note_key notes5"
    unfolding m by (simp add: tc_detect_techniques_key)
  with k5 k4 w m show ?thesis by simp
qed

lemma convert_measures_result:
  "convert_measures cfg ts tempo xs = Inr (tms, ws)
     \<Longrightarrow> map note_key (concat (map tcm_notes tms))
           = map note_data_key [nd \<leftarrow> concat (map snd xs). kept_T cfg nd]
         \<and> ws = map nd_pitch [nd \<leftarrow> concat (map snd xs). \<not> kept_T cfg nd]
         \<and> map tcm_number tms = map (\<lambda>x. int (fst x) + 1) xs"
proof (induction xs arbitrary: tms ws)
  case Nil
  then show ?case by simp
next
  case (Cons x xs)
  obtain num nds where x: "x = (num, nds)" by (cases x)
  from Cons.prems x obtain m w1 tms' w2 where
    a: "convert_measure cfg ts tempo num nds = Inr (m, w1)"
    and b: "convert_measures cfg ts tempo xs = Inr (tms', w2)"
    and c: "tms = m # tms'" "ws = w1 @ w2"
    by (auto split: sum.splits)
  from convert_measure_result [OF a] Cons.IH [OF b] show ?case
    by (simp add: c x)
qed

lemma tc_convert_midi_to_tab_result:
  assumes "tc_convert_midi_to_tab cfg midi_notes ts tempo = Inr (tms, ws)"
  shows "map note_key (concat (map tcm_notes tms))
           = map note_data_key [nd \<leftarrow> py_sorted nd_start midi_notes. kept_T cfg nd]"
    and "ws = map nd_pitch [nd \<leftarrow> py_sorted nd_start midi_notes. \<not> kept_T cfg nd]"
    and "map tcm_number tms = map (\<lambda>k. int k + 1) [0 ..< length tms]"
proof -
  from assms obtain gs where g: "group_into_measures midi_notes ts tempo = Inr gs"
    and c: "convert_measures cfg ts tempo (enumerate 0 gs) = Inr (tms, ws)"
    by (auto simp: tc_convert_midi_to_tab_def split: sum.splits)
  from group_into_measures_concat [OF g] have cg: "concat gs = py_sorted nd_start midi_notes"
    by simp
  from convert_measures_result [OF c] have
    r: "map note_key (concat (map tcm_notes tms))
           = map note_data_key [nd \<leftarrow> concat gs. kept_T cfg nd]"
       "ws = map nd_pitch [nd \<leftarrow> concat gs. \<not> kept_T cfg nd]"
       "map tcm_number tms = map (\<lambda>x. int (fst x) + 1) (enumerate 0 gs)"
    by simp_all
  from r(1) cg show "map note_key (concat (map tcm_notes tms))
           = map note_data_key [nd \<leftarrow> py_sorted nd_start midi_notes. kept_T cfg nd]" by simp
  from r(2) cg show "ws = map nd_pitch [nd \<leftarrow> py_sorted nd_start midi_notes. \<not> kept_T cfg nd]"
    by simp
  from r(3) have "length tms = length gs"
    using length_map [of tcm_number tms] by (metis length_enumerate length_map)
  moreover have "map (\<lambda>x. int (fst x) + 1) (enumerate 0 gs) = map (\<lambda>k. int k + 1) [0 ..< length gs]"
  proof -
    have e: "map fst (enumerate 0 gs) = [0 ..< length gs]" by simp
    have "map (\<lambda>x. int (fst x) + 1) (enumerate 0 gs)
            = map (\<lambda>k. int k + 1) (map fst (enumerate 0 gs))"
      by (simp only: map_map comp_def)
    also have "\<dots> = map (\<lambda>k. int k + 1) [0 ..< length gs]"
      by (simp only: e)
    finally show ?thesis .
  qed
  ultimately show "map tcm_number tms = map (\<lambda>k. int k + 1) [0 ..< length tms]"
    using r(3) by simp
qed

lemma filter_partition_length:
  "length [x \<leftarrow> xs. P x] + length [x \<leftarrow> xs. \<not> P x] = length xs"
  by (induction xs) auto

text \<open>
  Claim C2, as the code has it. \<^verbatim>\<open>MidiToTabConverter._convert_to_tab_notes\<close> always
  returns; the warnings it logs and the tab notes it returns add up to the input notes;
  it warns for exactly the notes whose candidate list is empty and returns one tab note,
  in input order, for every other note. \<^verbatim>\<open>TabConverter.convert_midi_to_tab\<close>, when it
  returns, has logged one warning for every note with no candidate left after
  \<^verbatim>\<open>_filter_positions\<close> (which includes every note with no candidate at all) and
  holds exactly one \<^verbatim>\<open>GuitarNote\<close> for every other note, in start-time order; warnings
  and notes add up to the input notes. The warnings are log entries, not part of the
  returned value.
\<close>

theorem conversion_accounts_for_every_note:
  "(\<exists>tab_notes warnings.
      convert_to_tab_notes cfg ns = Inr (tab_notes, warnings)
      \<and> length warnings + length tab_notes = length ns
      \<and> warnings = map mn_pitch [n \<leftarrow> ns. \<not> playable_M cfg n]
      \<and> map (\<lambda>t. (tn_start_time t, tn_duration t, tn_velocity t)) tab_notes
          = map (\<lambda>n. (mn_start n, mn_end n - mn_start n, mn_velocity n))
              [n \<leftarrow> ns. playable_M cfg n])
   \<and> (\<forall>tab_measures warnings.
        tc_convert_midi_to_tab tcfg nds time_signature tempo = Inr (tab_measures, warnings)
        \<longrightarrow> length warnings + length (concat (map tcm_notes tab_measures)) = length nds
            \<and> warnings = map nd_pitch [nd \<leftarrow> py_sorted nd_start nds. \<not> kept_T tcfg nd]
            \<and> map note_key (concat (map tcm_notes tab_measures))
                = map note_data_key [nd \<leftarrow> py_sorted nd_start nds. kept_T tcfg nd])
   \<and> (\<forall>nd. find_positions tcfg (nd_pitch nd - tc_capo_position tcfg) = []
          \<longrightarrow> \<not> kept_T tcfg nd)"
proof (intro conjI allI impI)
  have "\<exists>tab_notes. convert_to_tab_notes cfg ns =
          Inr (tab_notes, map mn_pitch [n \<leftarrow> ns. get_fret_positions cfg (mn_pitch n) = []])
     \<and> map (\<lambda>t. (tn_start_time t, tn_duration t, tn_velocity t)) tab_notes
         = map (\<lambda>n. (mn_start n, mn_end n - mn_start n, mn_velocity n))
             [n \<leftarrow> ns. get_fret_positions cfg (mn_pitch n) \<noteq> []]"
    using convert_loop_result [of cfg ns "[]" None "[]"]
    by (simp add: convert_to_tab_notes_def)
  then obtain tab_notes where
    r: "convert_to_tab_notes cfg ns =
          Inr (tab_notes, map mn_pitch [n \<leftarrow> ns. get_fret_positions cfg (mn_pitch n) = []])"
    and k: "map (\<lambda>t. (tn_start_time t, tn_duration t, tn_velocity t)) tab_notes
         = map (\<lambda>n. (mn_start n, mn_end n - mn_start n, mn_velocity n))
             [n \<leftarrow> ns. get_fret_positions cfg (mn_pitch n) \<noteq> []]"
    by (elim exE conjE)
  have "length tab_notes = length [n \<leftarrow> ns. get_fret_positions cfg (mn_pitch n) \<noteq> []]"
    using arg_cong [OF k, of length] by simp
  then have "length (map mn_pitch [n \<leftarrow> ns. get_fret_positions cfg (mn_pitch n) = []])
               + length tab_notes = length ns"
    using filter_partition_length [of "\<lambda>n. get_fret_positions cfg (mn_pitch n) \<noteq> []" ns]
    by simp
  with r k have "convert_to_tab_notes cfg ns
        = Inr (tab_notes, map mn_pitch [n \<leftarrow> ns. \<not> playable_M cfg n])
      \<and> length (map mn_pitch [n \<leftarrow> ns. \<not> playable_M cfg n]) + length tab_notes = length ns
      \<and> map mn_pitch [n \<leftarrow> ns. \<not> playable_M cfg n] = map mn_pitch [n \<leftarrow> ns. \<not> playable_M cfg n]
      \<and> map (\<lambda>t. (tn_start_time t, tn_duration t, tn_velocity t)) tab_notes
          = map (\<lambda>n. (mn_start n, mn_end n - mn_start n, mn_velocity n))
              [n \<leftarrow> ns. playable_M cfg n]"
    by (simp add: playable_M_def)
  then show "\<exists>tab_notes warnings.
      convert_to_tab_notes cfg ns = Inr (tab_notes, warnings)
      \<and> length warnings + length tab_notes = length ns
      \<and> warnings = map mn_pitch [n \<leftarrow> ns. \<not> playable_M cfg n]
      \<and> map (\<lambda>t. (tn_start_time t, tn_duration t, tn_velocity t)) tab_notes
          = map (\<lambda>n. (mn_start n, mn_end n - mn_start n, mn_velocity n))
              [n \<leftarrow> ns. playable_M cfg n]"
    by (intro exI)
next
  fix tab_measures warnings
  assume a: "tc_convert_midi_to_tab tcfg nds time_signature tempo = Inr (tab_measures, warnings)"
  note r = tc_convert_midi_to_tab_result [OF a]
  show w: "warnings = map nd_pitch [nd \<leftarrow> py_sorted nd_start nds. \<not> kept_T tcfg nd]"
    by (rule r(2))
  show k: "map note_key (concat (map tcm_notes tab_measures))
                = map note_data_key [nd \<leftarrow> py_sorted nd_start nds. kept_T tcfg nd]"
    by (rule r(1))
  have "length (concat (map tcm_notes tab_measures))
                 = length [nd \<leftarrow> py_sorted nd_start nds. kept_T tcfg nd]"
    using arg_cong [OF k, of length] by (simp only: length_map)
  moreover from w have "length warnings = length [nd \<leftarrow> py_sorted nd_start nds. \<not> kept_T tcfg nd]"
    by simp
  ultimately show "length warnings + length (concat (map tcm_notes tab_measures)) = length nds"
    using filter_partition_length [of "kept_T tcfg" "py_sorted nd_start nds"]
    by (simp add: py_sorted_def)
next
  fix nd :: NoteData
  assume "find_positions tcfg (nd_pitch nd - tc_capo_position tcfg) = []"
  then show "\<not> kept_T tcfg nd" by (simp add: kept_T_def filter_positions_def)
qed

lemma convert_to_tab_notes_example:
  "convert_to_tab_notes default_TabConfig [midi 28 0 1 80, midi 64 1 2 80] =
     Inr ([\<lparr> tn_string = 6, tn_fret = 0, tn_start_time = 1, tn_duration = 1,
              tn_technique = NORMAL, tn_velocity = 80,
              tn_alternatives = [(1, 24), (2, 19), (3, 14), (4, 9), (5, 5)] \<rparr>], [28])"
  by code_simp

lemma tc_convert_midi_to_tab_example:
  "tc_convert_midi_to_tab default_TabConfiguration
     [note_data 88 0 0.5 80, note_data 64 0.5 1 80] (4, 4) 120 =
     Inr ([\<lparr> tcm_number = 1, tcm_time_signature = (4, 4), tcm_tempo = 120,
              tcm_notes =
                [\<lparr> gn_pitch = 64, gn_start_time = 0.5, gn_end_time = 1, gn_string = 6,
                   gn_fret = 0, gn_velocity = 80, gn_techniques = [],
                   gn_is_chord_tone = False, gn_chord_shape = None, gn_difficulty = 0 \<rparr>],
              tcm_chords = [], tcm_lyrics = None \<rparr>], [88])"
  by code_simp

theorem conversion_accounts_witness:
  "(\<exists>tab_notes. convert_to_tab_notes default_TabConfig [midi 28 0 1 80, midi 64 1 2 80]
                    = Inr (tab_notes, [28])
                  \<and> length [28 :: int] + length tab_notes = 2)
   \<and> (\<exists>tab_measures. tc_convert_midi_to_tab default_TabConfiguration
          [note_data 88 0 0.5 80, note_data 64 0.5 1 80] (4, 4) 120 = Inr (tab_measures, [88])
        \<and> length [88 :: int] + length (concat (map tcm_notes tab_measures)) = 2)
   \<and> \<not> kept_T default_TabConfiguration (note_data 28 0 1 80)"
proof -
  have f: "find_positions default_TabConfiguration
             (nd_pitch (note_data 28 0 1 80) - tc_capo_position default_TabConfiguration) = []"
    by code_simp
  note t = conversion_accounts_for_every_note
    [of default_TabConfig "[midi 28 0 1 80, midi 64 1 2 80]" default_TabConfiguration
        "[note_data 88 0 0.5 80, note_data 64 0.5 1 80]" "(4, 4)" 120]
  from t [THEN conjunct1] obtain tab_notes warnings where
    e: "convert_to_tab_notes default_TabConfig [midi 28 0 1 80, midi 64 1 2 80]
          = Inr (tab_notes, warnings)"
    and l: "length warnings + length tab_notes = length [midi 28 0 1 80, midi 64 1 2 80]"
    by (elim exE conjE)
  from e have w: "warnings = [28]"
    by (simp add: convert_to_tab_notes_example)
  have a: "\<exists>tab_notes. convert_to_tab_notes default_TabConfig [midi 28 0 1 80, midi 64 1 2 80]
                    = Inr (tab_notes, [28])
                  \<and> length [28 :: int] + length tab_notes = 2"
    using e l unfolding w by (intro exI [of _ tab_notes]) simp
  from t [THEN conjunct2, THEN conjunct1, rule_format, OF tc_convert_midi_to_tab_example,
          THEN conjunct1]
  have "length [88 :: int] + length (concat (map tcm_notes
          [\<lparr> tcm_number = 1, tcm_time_signature = (4, 4), tcm_tempo = 120,
              tcm_notes =
                [\<lparr> gn_pitch = 64, gn_start_time = 0.5, gn_end_time = 1, gn_string = 6,
                   gn_fret = 0, gn_velocity = 80, gn_techniques = [],
                   gn_is_chord_tone = False, gn_chord_shape = None, gn_difficulty = 0 \<rparr>],
              tcm_chords = [], tcm_lyrics = None \<rparr>])) = 2"
    by simp
  with tc_convert_midi_to_tab_example
  have b: "\<exists>tab_measures. tc_convert_midi_to_tab default_TabConfiguration
          [note_data 88 0 0.5 80, note_data 64 0.5 1 80] (4, 4) 120 = Inr (tab_measures, [88])
        \<and> length [88 :: int] + length (concat (map tcm_notes tab_measures)) = 2"
    by (intro exI conjI)
  from t [THEN conjunct2, THEN conjunct2, rule_format, OF f]
  have c: "\<not> kept_T default_TabConfiguration (note_data 28 0 1 80)" .
  from a b c show ?thesis by (intro conjI)
qed

text \<open>
  Claim C2 as stated fails for \<^verbatim>\<open>TabConverter\<close>: pitch 88 has a candidate (string 6,
  fret 24) under the default configuration, yet the conversion returns no note for it
  (fret 24 is above \<^verbatim>\<open>max_position\<close>).
\<close>

theorem playable_note_dropped_counterexample:
  "find_positions default_TabConfiguration (88 - tc_capo_position default_TabConfiguration)
     = [\<lparr> p_string = 6, p_fret = 24, p_difficulty = 0.7, p_is_open = False, p_position = 15 \<rparr>]
   \<and> tc_convert_midi_to_tab default_TabConfiguration [note_data 88 0 0.5 80] (4, 4) 120
       = Inr ([\<lparr> tcm_number = 1, tcm_time_signature = (4, 4), tcm_tempo = 120,
                 tcm_notes = [], tcm_chords = [], tcm_lyrics = None \<rparr>], [88])"
  by code_simp






lemma convert_note_preserves_pitch:
  assumes "convert_note cfg nd previous_notes = Inr ([g], ws)"
  shows "tc_tuning cfg ! nat (gn_string g - 1) + tc_capo_position cfg + gn_fret g = gn_pitch g"
proof -
  from convert_note_cases [of cfg nd previous_notes] assms
  obtain p where p: "p \<in> set (filter_positions cfg
                          (find_positions cfg (nd_pitch nd - tc_capo_position cfg)))"
    and g: "gn_pitch g = nd_pitch nd" "gn_string g = p_string p" "gn_fret g = p_fret p"
    by (elim disjE conjE bexE) auto
  from p have "p \<in> set (find_positions cfg (nd_pitch nd - tc_capo_position cfg))"
    by (simp add: filter_positions_def)
  then obtain i where "i < length (tc_tuning cfg)" "p_string p = int i + 1"
    "p_fret p = nd_pitch nd - tc_capo_position cfg - tc_tuning cfg ! i"
    unfolding find_positions_iff by auto
  with g show ?thesis by simp
qed

text \<open>
  Claim C9 fails on the code. With capo 2 and the notes of pitch 66 (0 to 0.5 s) and 78
  (0.5 to 1 s), \<^verbatim>\<open>_convert_note\<close> puts the first note on the open string 6, and
  \<^verbatim>\<open>_optimize_group_fingering\<close> then moves it to string 5, fret 7, a position it
  looked up with \<^verbatim>\<open>_find_positions(note.pitch)\<close>, without the capo adjustment that
  \<^verbatim>\<open>_convert_note\<close> makes: open pitch 59 + capo 2 + fret 7 is 68, not 66.
\<close>

theorem capo_pitch_lost_in_optimization:
  "tc_convert_midi_to_tab (default_TabConfiguration\<lparr>tc_capo_position := 2\<rparr>)
     [note_data 66 0 0.5 80, note_data 78 0.5 1 80] (4, 4) 120
   = Inr ([\<lparr> tcm_number = 1, tcm_time_signature = (4, 4), tcm_tempo = 120,
             tcm_notes =
               [\<lparr> gn_pitch = 66, gn_start_time = 0, gn_end_time = 0.5, gn_string = 5,
                  gn_fret = 7, gn_velocity = 80, gn_techniques = [],
                  gn_is_chord_tone = False, gn_chord_shape = None, gn_difficulty = 7 / 80 \<rparr>,
                \<lparr> gn_pitch = 78, gn_start_time = 0.5, gn_end_time = 1, gn_string = 6,
                  gn_fret = 12, gn_velocity = 80, gn_techniques = [],
                  gn_is_chord_tone = False, gn_chord_shape = None, gn_difficulty = 1 / 4 \<rparr>],
             tcm_chords = [], tcm_lyrics = None \<rparr>], [])
   \<and> tc_tuning (default_TabConfiguration\<lparr>tc_capo_position := 2\<rparr>) ! nat (5 - 1)
       + tc_capo_position (default_TabConfiguration\<lparr>tc_capo_position := 2\<rparr>) + 7 = 68"
  by code_simp

lemma capo_pitch_before_optimization:
  "convert_notes_loop (default_TabConfiguration\<lparr>tc_capo_position := 2\<rparr>)
     [note_data 66 0 0.5 80, note_data 78 0.5 1 80] [] []
   = Inr ([\<lparr> gn_pitch = 66, gn_start_time = 0, gn_end_time = 0.5, gn_string = 6,
             gn_fret = 0, gn_velocity = 80, gn_techniques = [],
             gn_is_chord_tone = False, gn_chord_shape = None, gn_difficulty = 0 \<rparr>,
           \<lparr> gn_pitch = 78, gn_start_time = 0.5, gn_end_time = 1, gn_string = 6,
             gn_fret = 12, gn_velocity = 80, gn_techniques = [],
             gn_is_chord_tone = False, gn_chord_shape = None, gn_difficulty = 1 / 4 \<rparr>], [])"
  by code_simp

lemma detect_chord_shape_three_open:
  "detect_chord_shape [open_note 1, open_note 2, open_note 3] = Inr None"
  by code_simp

text \<open>
  Claim C10 fails on the code. For four notes on open strings the first shape of four
  positions (\<^verbatim>\<open>D\<close>) reaches \<^verbatim>\<open>min(p[1] for p in positions if p[1] > 0)\<close> with nothing
  to take the minimum of, and \<^verbatim>\<open>ValueError\<close> is raised; through
  \<^verbatim>\<open>_assign_chord_fingerings\<close> the same exception ends a whole conversion (four
  simultaneous notes of pitch 40 in standard tuning).
\<close>

theorem detect_chord_shape_raises_on_open_strings:
  "detect_chord_shape [open_note 1, open_note 2, open_note 3, open_note 4] = Inl ValueError
   \<and> tc_convert_midi_to_tab default_TabConfiguration
        [note_data 40 0 1 80, note_data 40 0 1 80, note_data 40 0 1 80, note_data 40 0 1 80]
        (4, 4) 120 = Inl ValueError"
  by code_simp

lemma organize_loop_concat:
  "organize_loop tempo ts md chords ns ms cur st num = (ms', cur', st', num')
     \<Longrightarrow> concat (map tm_notes ms') @ cur' = concat (map tm_notes ms) @ cur @ ns"
  by (induction ns arbitrary: ms cur st num) (simp_all split: if_splits)

lemma organize_loop_invariant:
  "organize_loop tempo ts md chords ns ms cur st num = (ms', cur', st', num')
     \<Longrightarrow> st = real (length ms) * md
     \<Longrightarrow> num = int (length ms) + 1
     \<Longrightarrow> \<forall>i < length ms. tm_measure_number (ms ! i) = int i + 1
                \<and> tm_chords (ms ! i) = filter (in_window md i) chords
     \<Longrightarrow> st' = real (length ms') * md \<and> num' = int (length ms') + 1
         \<and> (\<forall>i < length ms'. tm_measure_number (ms' ! i) = int i + 1
                \<and> tm_chords (ms' ! i) = filter (in_window md i) chords)"
proof (induction ns arbitrary: ms cur st num)
  case Nil
  then show ?case by auto
next
  case (Cons n ns)
  show ?case
  proof (cases "tn_start_time n < st + md")
    case True
    with Cons.prems(1) have
      "organize_loop tempo ts md chords ns ms (cur @ [n]) st num = (ms', cur', st', num')"
      by simp
    from Cons.IH [OF this Cons.prems(2) Cons.prems(3) Cons.prems(4)] show ?thesis .
  next
    case False
    define m where "m = \<lparr> tm_measure_number = num, tm_time_signature = ts, tm_tempo = tempo,
        tm_notes = cur,
        tm_chords = [c \<leftarrow> chords. st \<le> ch_time c \<and> ch_time c < st + md] \<rparr>"
    from False Cons.prems(1) have l:
      "organize_loop tempo ts md chords ns (ms @ [m]) [n] (st + md) (num + 1) = (ms', cur', st', num')"
      by (simp add: m_def)
    have a: "st + md = real (length (ms @ [m])) * md"
      using Cons.prems(2) by (simp add: algebra_simps)
    have b: "num + 1 = int (length (ms @ [m])) + 1"
      using Cons.prems(3) by simp
    have "(\<lambda>c. st \<le> ch_time c \<and> ch_time c < st + md) = in_window md (length ms)"
      using Cons.prems(2) by (intro ext) (simp add: in_window_def algebra_simps)
    then have w: "tm_chords m = filter (in_window md (length ms)) chords"
      by (simp add: m_def)
    have c: "\<forall>i < length (ms @ [m]). tm_measure_number ((ms @ [m]) ! i) = int i + 1
                \<and> tm_chords ((ms @ [m]) ! i) = filter (in_window md i) chords"
    proof (intro allI impI)
      fix i assume i: "i < length (ms @ [m])"
      show "tm_measure_number ((ms @ [m]) ! i) = int i + 1
                \<and> tm_chords ((ms @ [m]) ! i) = filter (in_window md i) chords"
      proof (cases "i < length ms")
        case True
        with Cons.prems(4) show ?thesis by (simp add: nth_append)
      next
        case False
        with i have "i = length ms" by simp
        with w Cons.prems(3) show ?thesis by (simp add: nth_append m_def)
      qed
    qed
    from Cons.IH [OF l a b c] show ?thesis .
  qed
qed

lemma detect_techniques_from_start_times:
  "map tn_start_time (detect_techniques_from prev ns) = map tn_start_time ns"
  by (induction prev ns rule: detect_techniques_from.induct)
     (simp_all add: classify_technique_def Let_def)

lemma detect_techniques_M_start_times:
  "map tn_start_time (detect_techniques_M ns) = map tn_start_time ns"
  by (cases ns) (simp_all add: detect_techniques_from_start_times)

lemma organize_loop_current:
  "organize_loop tempo ts md chords ns ms cur st num = (ms', cur', st', num')
     \<Longrightarrow> cur \<noteq> [] \<or> ns \<noteq> [] \<Longrightarrow> cur' \<noteq> []"
  by (induction ns arbitrary: ms cur st num) (auto split: if_splits)

lemma organize_measures_result:
  assumes "tempo \<noteq> 0"
  shows "\<exists>ms. organize_measures tab_notes chords tempo ts = Inr ms
      \<and> concat (map tm_notes ms) = tab_notes
      \<and> (\<forall>i < length ms. tm_measure_number (ms ! i) = int i + 1)
      \<and> (\<forall>i. Suc i < length ms \<longrightarrow>
            tm_chords (ms ! i)
              = filter (in_window (real_of_int (fst ts) * (60 / tempo)) i) chords)"
proof -
  define md where "md = real_of_int (fst ts) * (60 / tempo)"
  obtain ms' cur' st' num' where
    l: "organize_loop tempo ts md chords tab_notes [] [] 0 1 = (ms', cur', st', num')"
    by (cases "organize_loop tempo ts md chords tab_notes [] [] 0 1") auto
  define final where "final = \<lparr> tm_measure_number = num', tm_time_signature = ts,
      tm_tempo = tempo, tm_notes = cur', tm_chords = [c \<leftarrow> chords. ch_time c \<ge> st'] \<rparr>"
  define ms where "ms = (if cur' \<noteq> [] then ms' @ [final] else ms')"
  have r: "organize_measures tab_notes chords tempo ts = Inr ms"
    unfolding organize_measures_def Let_def l [unfolded md_def]
    using assms by (simp add: ms_def final_def)
  from organize_loop_concat [OF l]
  have c: "concat (map tm_notes ms') @ cur' = tab_notes" by simp
  have inv: "st' = real (length ms') * md \<and> num' = int (length ms') + 1
         \<and> (\<forall>i < length ms'. tm_measure_number (ms' ! i) = int i + 1
                \<and> tm_chords (ms' ! i) = filter (in_window md i) chords)"
    by (rule organize_loop_invariant [OF l]) simp_all
  have c': "concat (map tm_notes ms) = tab_notes"
    using c by (auto simp: ms_def final_def)
  have n: "\<forall>i < length ms. tm_measure_number (ms ! i) = int i + 1"
  proof (intro allI impI)
    fix i assume i: "i < length ms"
    show "tm_measure_number (ms ! i) = int i + 1"
    proof (cases "i < length ms'")
      case True
      with inv show ?thesis by (simp add: ms_def nth_append)
    next
      case False
      with i have "cur' \<noteq> []" "i = length ms'" by (auto simp: ms_def split: if_splits)
      with inv show ?thesis by (simp add: ms_def final_def nth_append)
    qed
  qed
  have w: "\<forall>i. Suc i < length ms \<longrightarrow> tm_chords (ms ! i) = filter (in_window md i) chords"
  proof (intro allI impI)
    fix i assume "Suc i < length ms"
    then have "i < length ms'" by (auto simp: ms_def split: if_splits)
    with inv show "tm_chords (ms ! i) = filter (in_window md i) chords"
      by (simp add: ms_def nth_append)
  qed
  from r c' n w show ?thesis unfolding md_def by blast
qed

lemma convert_midi_to_tab_M_start_times:
  assumes "convert_midi_to_tab_M cfg file_notes tempo ts = Inr (ms, chords, ws)"
  shows "map tn_start_time (concat (map tm_notes ms))
           = map mn_start [n \<leftarrow> py_sorted mn_start file_notes. playable_M cfg n]"
proof -
  define sorted_notes where "sorted_notes = py_sorted mn_start file_notes"
  have "\<exists>tab_notes. convert_to_tab_notes cfg sorted_notes =
          Inr (tab_notes, map mn_pitch [n \<leftarrow> sorted_notes. get_fret_positions cfg (mn_pitch n) = []])
     \<and> map (\<lambda>t. (tn_start_time t, tn_duration t, tn_velocity t)) tab_notes
         = map (\<lambda>n. (mn_start n, mn_end n - mn_start n, mn_velocity n))
             [n \<leftarrow> sorted_notes. get_fret_positions cfg (mn_pitch n) \<noteq> []]"
    using convert_loop_result [of cfg sorted_notes "[]" None "[]"]
    by (simp add: convert_to_tab_notes_def)
  then obtain tab_notes where
    r: "convert_to_tab_notes cfg sorted_notes =
          Inr (tab_notes, map mn_pitch [n \<leftarrow> sorted_notes. get_fret_positions cfg (mn_pitch n) = []])"
    and k: "map (\<lambda>t. (tn_start_time t, tn_duration t, tn_velocity t)) tab_notes
         = map (\<lambda>n. (mn_start n, mn_end n - mn_start n, mn_velocity n))
             [n \<leftarrow> sorted_notes. get_fret_positions cfg (mn_pitch n) \<noteq> []]"
    by (elim exE conjE)
  have s: "map tn_start_time tab_notes
             = map mn_start [n \<leftarrow> sorted_notes. get_fret_positions cfg (mn_pitch n) \<noteq> []]"
    using arg_cong [OF k, of "map fst"] by (simp add: comp_def)
  define tab_notes' where
    "tab_notes' = (if detect_techniques cfg then detect_techniques_M tab_notes else tab_notes)"
  have s': "map tn_start_time tab_notes' = map tn_start_time tab_notes"
    by (simp add: tab_notes'_def detect_techniques_M_start_times)
  from assms r have o: "organize_measures tab_notes' chords tempo ts = Inr ms"
    by (auto simp: convert_midi_to_tab_M_def sorted_notes_def [symmetric] tab_notes'_def Let_def
        split: sum.splits if_splits)
  then have t: "tempo \<noteq> 0" by (auto simp: organize_measures_def split: if_splits)
  from organize_measures_result [OF t, of tab_notes' chords ts] o
  have "concat (map tm_notes ms) = tab_notes'" by auto
  with s s' show ?thesis by (simp add: playable_M_def sorted_notes_def)
qed

lemma sorted_filter_sort_key:
  "sorted (map f [x \<leftarrow> py_sorted f xs. P x])"
  unfolding py_sorted_def by (rule sorted_filter) (rule sorted_sort_key)

lemma organize_measures_boundary_example:
  "organize_measures [tab_note 6 0 1.999 0.5 80, tab_note 6 0 2 0.5 80] [] 120 (4, 4) =
     Inr [\<lparr> tm_measure_number = 1, tm_time_signature = (4, 4), tm_tempo = 120,
             tm_notes = [tab_note 6 0 1.999 0.5 80], tm_chords = [] \<rparr>,
          \<lparr> tm_measure_number = 2, tm_time_signature = (4, 4), tm_tempo = 120,
             tm_notes = [tab_note 6 0 2 0.5 80], tm_chords = [] \<rparr>]"
  by code_simp

lemma group_into_measures_boundary_example:
  "group_into_measures [note_data 64 1.999 2.5 80, note_data 64 2 2.5 80] (4, 4) 120 =
     Inr [[note_data 64 1.999 2.5 80], [note_data 64 2 2.5 80]]"
  by code_simp

text \<open>
  Claim C4 fails on the code. At 120 BPM in 4/4 (measure duration 2 s) a note starting
  at 5 s that follows a note starting at 0 s belongs to the measure of index 2, the
  interval from 4 s to 6 s. Both converters advance the measure start by one measure
  duration only (an \<^verbatim>\<open>if\<close> where the claim needs a loop) and put the note into the
  measure of index 1 (measure number 2).
\<close>

theorem note_after_empty_measures_misplaced:
  "organize_measures [tab_note 1 0 0 0.5 80, tab_note 1 0 5 0.5 80] [] 120 (4, 4) =
     Inr [\<lparr> tm_measure_number = 1, tm_time_signature = (4, 4), tm_tempo = 120,
             tm_notes = [tab_note 1 0 0 0.5 80], tm_chords = [] \<rparr>,
          \<lparr> tm_measure_number = 2, tm_time_signature = (4, 4), tm_tempo = 120,
             tm_notes = [tab_note 1 0 5 0.5 80], tm_chords = [] \<rparr>]
   \<and> group_into_measures [note_data 40 0 0.5 80, note_data 40 5 5.5 80] (4, 4) 120 =
       Inr [[note_data 40 0 0.5 80], [note_data 40 5 5.5 80]]
   \<and> 2 * (real_of_int 4 * (60 / 120)) \<le> tn_start_time (tab_note 1 0 5 0.5 80)
   \<and> tn_start_time (tab_note 1 0 5 0.5 80) < 3 * (real_of_int 4 * (60 / 120))"
  by code_simp

text \<open>
  What the measure builders do guarantee. \<^verbatim>\<open>_organize_measures\<close> returns (for a
  tempo other than zero) measures whose notes, concatenated in measure order, are the
  tab notes it was given, each once and in the same order; the measures are numbered
  1, 2, 3, ... and the measure of index \<open>i\<close> (other than the last) takes the chords of
  the window from \<open>i\<close> to \<open>i + 1\<close> measure durations. \<^verbatim>\<open>_group_into_measures\<close>
  returns non-empty groups whose concatenation is the input sorted by start time, and
  \<^verbatim>\<open>TabConverter.convert_midi_to_tab\<close> numbers its measures 1, 2, 3, ... and keeps in
  them, in start-time order, exactly the notes it converts. None of this places a note
  inside the window of its measure.
\<close>

lemma measures_partition_notes:
  "(tempo \<noteq> 0 \<longrightarrow>
      (\<exists>ms. organize_measures tab_notes chords tempo ts = Inr ms
        \<and> concat (map tm_notes ms) = tab_notes
        \<and> (\<forall>i < length ms. tm_measure_number (ms ! i) = int i + 1)
        \<and> (\<forall>i. Suc i < length ms \<longrightarrow>
              tm_chords (ms ! i)
                = filter (in_window (real_of_int (fst ts) * (60 / tempo)) i) chords)))
   \<and> (\<forall>ms chords' ws.
        convert_midi_to_tab_M cfg file_notes tempo ts = Inr (ms, chords', ws)
        \<longrightarrow> map tn_start_time (concat (map tm_notes ms))
              = map mn_start [n \<leftarrow> py_sorted mn_start file_notes. playable_M cfg n]
            \<and> sorted (map tn_start_time (concat (map tm_notes ms))))
   \<and> (\<forall>groups. group_into_measures nds ts tempo = Inr groups
        \<longrightarrow> concat groups = py_sorted nd_start nds \<and> [] \<notin> set groups)
   \<and> (\<forall>tab_measures ws.
        tc_convert_midi_to_tab tcfg nds ts tempo = Inr (tab_measures, ws)
        \<longrightarrow> map tcm_number tab_measures = map (\<lambda>i. int i + 1) [0 ..< length tab_measures]
            \<and> map note_key (concat (map tcm_notes tab_measures))
                = map note_data_key [nd \<leftarrow> py_sorted nd_start nds. kept_T tcfg nd]
            \<and> sorted (map gn_start_time (concat (map tcm_notes tab_measures))))"
proof (intro conjI allI impI)
  assume "tempo \<noteq> 0"
  then show "\<exists>ms. organize_measures tab_notes chords tempo ts = Inr ms
        \<and> concat (map tm_notes ms) = tab_notes
        \<and> (\<forall>i < length ms. tm_measure_number (ms ! i) = int i + 1)
        \<and> (\<forall>i. Suc i < length ms \<longrightarrow>
              tm_chords (ms ! i)
                = filter (in_window (real_of_int (fst ts) * (60 / tempo)) i) chords)"
    by (rule organize_measures_result)
next
  fix ms chords' ws
  assume a: "convert_midi_to_tab_M cfg file_notes tempo ts = Inr (ms, chords', ws)"
  show s: "map tn_start_time (concat (map tm_notes ms))
              = map mn_start [n \<leftarrow> py_sorted mn_start file_notes. playable_M cfg n]"
    by (rule convert_midi_to_tab_M_start_times [OF a])
  show "sorted (map tn_start_time (concat (map tm_notes ms)))"
    unfolding s by (rule sorted_filter_sort_key)
next
  fix groups
  assume a: "group_into_measures nds ts tempo = Inr groups"
  from group_into_measures_concat [OF a]
  show "concat groups = py_sorted nd_start nds" and "[] \<notin> set groups"
    by simp_all
next
  fix tab_measures ws
  assume a: "tc_convert_midi_to_tab tcfg nds ts tempo = Inr (tab_measures, ws)"
  note r = tc_convert_midi_to_tab_result [OF a]
  show "map tcm_number tab_measures = map (\<lambda>i. int i + 1) [0 ..< length tab_measures]"
    by (rule r(3))
  show k: "map note_key (concat (map tcm_notes tab_measures))
                = map note_data_key [nd \<leftarrow> py_sorted nd_start nds. kept_T tcfg nd]"
    by (rule r(1))
  have "map gn_start_time (concat (map tcm_notes tab_measures))
          = map (\<lambda>k. fst (snd k)) (map note_key (concat (map tcm_notes tab_measures)))"
    by (simp add: note_key_def comp_def)
  also have "\<dots> = map (\<lambda>k. fst (snd k))
                      (map note_data_key [nd \<leftarrow> py_sorted nd_start nds. kept_T tcfg nd])"
    by (simp only: k)
  also have "\<dots> = map nd_start [nd \<leftarrow> py_sorted nd_start nds. kept_T tcfg nd]"
    by (simp add: note_data_key_def comp_def)
  finally show "sorted (map gn_start_time (concat (map tcm_notes tab_measures)))"
    by (simp only: sorted_filter_sort_key)
qed

lemma convert_midi_to_tab_M_example:
  "convert_midi_to_tab_M default_TabConfig
     [midi 64 2 2.5 80, midi 28 1 1.5 80, midi 60 0 0.5 80] 120 (4, 4) =
   Inr ([\<lparr> tm_measure_number = 1, tm_time_signature = (4, 4), tm_tempo = 120,
            tm_notes =
              [\<lparr> tn_string = 5, tn_fret = 1, tn_start_time = 0, tn_duration = 0.5,
                 tn_technique = NORMAL, tn_velocity = 80,
                 tn_alternatives = [(1, 20), (2, 15), (3, 10), (4, 5)] \<rparr>],
            tm_chords = [] \<rparr>,
         \<lparr> tm_measure_number = 2, tm_time_signature = (4, 4), tm_tempo = 120,
            tm_notes =
              [\<lparr> tn_string = 5, tn_fret = 5, tn_start_time = 2, tn_duration = 0.5,
                 tn_technique = NORMAL, tn_velocity = 80,
                 tn_alternatives = [(1, 24), (2, 19), (3, 14), (4, 9), (6, 0)] \<rparr>],
            tm_chords = [] \<rparr>], [], [28])"
  by code_simp

lemma measures_partition_example:
  "(\<exists>ms. organize_measures [tab_note 6 0 1.999 0.5 80, tab_note 6 0 2 0.5 80] [] 120 (4, 4)
           = Inr ms
         \<and> concat (map tm_notes ms) = [tab_note 6 0 1.999 0.5 80, tab_note 6 0 2 0.5 80])
   \<and> (\<exists>ms chords' ws.
         convert_midi_to_tab_M default_TabConfig
           [midi 64 2 2.5 80, midi 28 1 1.5 80, midi 60 0 0.5 80] 120 (4, 4)
           = Inr (ms, chords', ws)
         \<and> sorted (map tn_start_time (concat (map tm_notes ms))))
   \<and> concat [[note_data 64 1.999 2.5 80], [note_data 64 2 2.5 80]]
       = py_sorted nd_start [note_data 64 1.999 2.5 80, note_data 64 2 2.5 80]
   \<and> (\<exists>tab_measures ws.
         tc_convert_midi_to_tab default_TabConfiguration
           [note_data 88 0 0.5 80, note_data 64 0.5 1 80] (4, 4) 120 = Inr (tab_measures, ws)
         \<and> map tcm_number tab_measures = map (\<lambda>i. int i + 1) [0 ..< length tab_measures])"
proof -
  note t = measures_partition_notes
    [of 120 "[tab_note 6 0 1.999 0.5 80, tab_note 6 0 2 0.5 80]" "[]" "(4, 4)"
        default_TabConfig "[midi 64 2 2.5 80, midi 28 1 1.5 80, midi 60 0 0.5 80]"]
  have nz: "(120 :: real) \<noteq> 0" by simp
  from t [THEN conjunct1, rule_format, OF nz]
  have a: "\<exists>ms. organize_measures [tab_note 6 0 1.999 0.5 80, tab_note 6 0 2 0.5 80] [] 120 (4, 4)
           = Inr ms
         \<and> concat (map tm_notes ms) = [tab_note 6 0 1.999 0.5 80, tab_note 6 0 2 0.5 80]"
    by blast
  from t [THEN conjunct2, THEN conjunct1, rule_format, OF convert_midi_to_tab_M_example,
          THEN conjunct2] convert_midi_to_tab_M_example
  have b: "\<exists>ms chords' ws.
         convert_midi_to_tab_M default_TabConfig
           [midi 64 2 2.5 80, midi 28 1 1.5 80, midi 60 0 0.5 80] 120 (4, 4)
           = Inr (ms, chords', ws)
         \<and> sorted (map tn_start_time (concat (map tm_notes ms)))"
    by (intro exI conjI)
  note u = measures_partition_notes
    [of 120 "[]" "[]" "(4, 4)" default_TabConfig "[]"
        "[note_data 64 1.999 2.5 80, note_data 64 2 2.5 80]"]
  from u [THEN conjunct2, THEN conjunct2, THEN conjunct1, rule_format,
          OF group_into_measures_boundary_example, THEN conjunct1]
  have c: "concat [[note_data 64 1.999 2.5 80], [note_data 64 2 2.5 80]]
       = py_sorted nd_start [note_data 64 1.999 2.5 80, note_data 64 2 2.5 80]" .
  note v = measures_partition_notes
    [of 120 "[]" "[]" "(4, 4)" default_TabConfig "[]"
        "[note_data 88 0 0.5 80, note_data 64 0.5 1 80]" default_TabConfiguration]
  from v [THEN conjunct2, THEN conjunct2, THEN conjunct2, rule_format,
          OF tc_convert_midi_to_tab_example, THEN conjunct1] tc_convert_midi_to_tab_example
  have d: "\<exists>tab_measures ws.
         tc_convert_midi_to_tab default_TabConfiguration
           [note_data 88 0 0.5 80, note_data 64 0.5 1 80] (4, 4) 120 = Inr (tab_measures, ws)
         \<and> map tcm_number tab_measures = map (\<lambda>i. int i + 1) [0 ..< length tab_measures]"
    by (intro exI conjI)
  from a b c d show ?thesis by (intro conjI)
qed

lemma detect_techniques_from_nth:
  "i < length ns \<Longrightarrow>
     detect_techniques_from prev ns ! i
       = classify_technique (if i = 0 then prev else ns ! (i - 1)) (ns ! i)"
proof (induction prev ns arbitrary: i rule: detect_techniques_from.induct)
  case (1 prev_note)
  then show ?case by simp
next
  case (2 prev_note curr_note rest)
  show ?case
  proof (cases i)
    case 0
    then show ?thesis by simp
  next
    case (Suc j)
    with "2.prems" have j: "j < length rest" by simp
    from "2.IH" [OF j] Suc show ?thesis by (cases j) simp_all
  qed
qed

lemma detect_techniques_M_nth:
  assumes "Suc i < length ns"
  shows "detect_techniques_M ns ! Suc i = classify_technique (ns ! i) (ns ! Suc i)"
proof -
  from assms obtain first rest where ns: "ns = first # rest" and i: "i < length rest"
    by (cases ns) auto
  from detect_techniques_from_nth [OF i, of first] show ?thesis
    unfolding ns by (cases i) simp_all
qed

lemma classify_technique_hammer_on:
  assumes "tn_technique cur_note = NORMAL"
  shows "tn_technique (classify_technique prev_note cur_note) = HAMMER_ON \<longleftrightarrow>
           tn_string prev_note = tn_string cur_note \<and> tn_fret cur_note > tn_fret prev_note
           \<and> tn_start_time cur_note - tn_start_time prev_note < 0.1
           \<and> tn_velocity cur_note < tn_velocity prev_note"
  using assms by (simp add: classify_technique_def Let_def)

lemma classify_technique_pull_off:
  assumes "tn_technique cur_note = NORMAL"
  shows "tn_technique (classify_technique prev_note cur_note) = PULL_OFF \<longleftrightarrow>
           tn_string prev_note = tn_string cur_note \<and> tn_fret cur_note < tn_fret prev_note
           \<and> tn_start_time cur_note - tn_start_time prev_note < 0.1
           \<and> tn_velocity cur_note < tn_velocity prev_note"
  using assms by (auto simp: classify_technique_def Let_def)

lemma new_techniques_hammer_on:
  "PT_HAMMER_ON \<in> set (new_techniques (Some prev) current next_note) \<longleftrightarrow>
     gn_string current = gn_string prev
     \<and> \<bar>gn_start_time current - gn_end_time prev\<bar> < 0.05
     \<and> gn_fret current > gn_fret prev"
  by (auto simp: new_techniques_def split: option.splits)

lemma new_techniques_pull_off:
  "PT_PULL_OFF \<in> set (new_techniques (Some prev) current next_note) \<longleftrightarrow>
     gn_string current = gn_string prev
     \<and> \<bar>gn_start_time current - gn_end_time prev\<bar> < 0.05
     \<and> gn_fret current < gn_fret prev"
  by (auto simp: new_techniques_def split: option.splits)

text \<open>
  Claim C6 as stated fails for \<^verbatim>\<open>MidiToTabConverter\<close> on its own scenario: on one
  string, fret 5 from 0 to 0.5 s and then fret 3 at 0.51 s with lower velocity. The
  gap to the previous note's end is 10 ms, but the code measures 0.51 s from start to
  start and leaves the note untagged.
\<close>

theorem pull_off_scenario_counterexample:
  "map tn_technique (detect_techniques_M [tab_note 3 5 0 0.5 80, tab_note 3 3 0.51 0.5 70])
     = [NORMAL, NORMAL]
   \<and> tn_start_time (tab_note 3 3 0.51 0.5 70)
       - (tn_start_time (tab_note 3 5 0 0.5 80) + tn_duration (tab_note 3 5 0 0.5 80)) < 0.1"
  by code_simp

lemma py_min_key_snoc:
  "py_min_key f x (xs @ [y]) =
     (if f y < f (py_min_key f x xs) then y else py_min_key f x xs)"
  by (simp add: py_min_key_def)

lemma py_min_key_first_minimum:
  "\<exists>pre post. x # xs = pre @ [py_min_key f x xs] @ post
      \<and> (\<forall>a \<in> set pre. f (py_min_key f x xs) < f a)
      \<and> (\<forall>a \<in> set post. f (py_min_key f x xs) \<le> f a)"
proof (induction xs rule: rev_induct)
  case Nil
  show ?case by (intro exI [of _ "[]"]) (simp add: py_min_key_def)
next
  case (snoc y xs)
  then obtain pre post where s: "x # xs = pre @ [py_min_key f x xs] @ post"
    and a: "\<forall>a \<in> set pre. f (py_min_key f x xs) < f a"
    and b: "\<forall>a \<in> set post. f (py_min_key f x xs) \<le> f a"
    by blast
  show ?case
  proof (cases "f y < f (py_min_key f x xs)")
    case True
    have all: "\<forall>a \<in> set (x # xs). f y < f a"
    proof
      fix c assume "c \<in> set (x # xs)"
      then have "c \<in> set pre \<or> c = py_min_key f x xs \<or> c \<in> set post"
        unfolding s by auto
      with a b True show "f y < f c" by (auto intro: less_trans less_le_trans)
    qed
    have "x # (xs @ [y]) = (x # xs) @ [y] @ []" by simp
    with all True show ?thesis
      unfolding py_min_key_snoc by (intro exI [of _ "x # xs"] exI [of _ "[]"]) simp
  next
    case False
    have "x # (xs @ [y]) = pre @ [py_min_key f x xs] @ (post @ [y])"
      using s by simp
    moreover have "\<forall>a \<in> set (post @ [y]). f (py_min_key f x xs) \<le> f a"
      using b False by auto
    ultimately show ?thesis
      unfolding py_min_key_snoc using a False
      by (intro exI [of _ pre] exI [of _ "post @ [y]"]) simp
  qed
qed

lemma comprehension_as_map_filter:
  "concat (map (\<lambda>x. if P x then [g x] else []) xs) = map g (filter P xs)"
  by (induction xs) simp_all

lemma get_fret_positions_strings_increase:
  "sorted_wrt (<) (map fst (get_fret_positions cfg p))"
proof -
  let ?P = "\<lambda>x. 0 \<le> p - snd x \<and> p - snd x \<le> max_fret"
  let ?g = "\<lambda>x. (int (fst x) + 1, p - snd x)"
  have e: "get_fret_positions cfg p = map ?g (filter ?P (enumerate 0 (self_tuning cfg)))"
    unfolding get_fret_positions_def case_prod_beta
    by (rule comprehension_as_map_filter)
  have "sorted_wrt (<) (map fst (enumerate 0 (self_tuning cfg)))"
    by simp
  then have "sorted_wrt (\<lambda>a b. fst a < fst b) (enumerate 0 (self_tuning cfg))"
    by (simp only: sorted_wrt_map)
  then have "sorted_wrt (\<lambda>a b. fst a < fst b) (filter ?P (enumerate 0 (self_tuning cfg)))"
    by (rule sorted_wrt_filter)
  then have "sorted_wrt (\<lambda>a b. fst (?g a) < fst (?g b))
               (filter ?P (enumerate 0 (self_tuning cfg)))"
    by (rule sorted_wrt_mono_rel [rotated]) simp
  then show ?thesis
    unfolding e by (simp only: sorted_wrt_map)
qed

lemma sorted_last_max:
  assumes "sorted (map f xs)" and "x \<in> set xs"
  shows "f x \<le> f (last xs)"
proof -
  from assms(2) obtain i where i: "i < length xs" "xs ! i = x"
    by (auto simp: in_set_conv_nth)
  then have ne: "xs \<noteq> []" by auto
  have "map f xs ! i \<le> map f xs ! (length xs - 1)"
    using assms(1) i by (intro sorted_nth_mono) auto
  with i ne show ?thesis by (simp add: last_conv_nth)
qed

lemma py_sorted_reverse_hd_max:
  assumes "x \<in> set xs"
  shows "f x \<le> f (hd (py_sorted_reverse f xs))"
proof -
  have ne: "sort_key f (rev xs) \<noteq> []"
    using assms by (metis length_greater_0_conv length_pos_if_in_set length_rev length_sort)
  have "x \<in> set (sort_key f (rev xs))" using assms by simp
  from sorted_last_max [OF sorted_sort_key this]
  show ?thesis using ne by (simp add: py_sorted_reverse_def hd_rev)
qed

lemma tc_select_optimal_position_max_score:
  assumes "tc_select_optimal_position cfg positions previous_notes = Some p"
    and "length positions \<ge> 2" and "q \<in> set positions"
  shows "position_score cfg previous_notes q \<le> position_score cfg previous_notes p"
proof -
  let ?sc = "\<lambda>pos. (position_score cfg previous_notes pos, pos)"
  from assms(2) obtain a b rest where ps: "positions = a # b # rest"
    by (cases positions; cases "tl positions") auto
  from assms(1) have p: "p = snd (hd (py_sorted_reverse fst (map ?sc positions)))"
    unfolding ps by (simp add: tc_select_optimal_position_def)
  have hin: "hd (py_sorted_reverse fst (map ?sc positions)) \<in> set (map ?sc positions)"
  proof -
    have "length (py_sorted_reverse fst (map ?sc positions)) = length positions"
      by (simp add: py_sorted_reverse_def)
    then have "py_sorted_reverse fst (map ?sc positions) \<noteq> []"
      unfolding ps by auto
    from hd_in_set [OF this] show ?thesis by (simp add: py_sorted_reverse_def)
  qed
  then have fs: "fst (hd (py_sorted_reverse fst (map ?sc positions)))
                   = position_score cfg previous_notes p"
    unfolding p by auto
  have "?sc q \<in> set (map ?sc positions)" using assms(3) by simp
  from py_sorted_reverse_hd_max [OF this, of fst] fs show ?thesis by simp
qed

text \<open>
  Claim C8, as the code has it. With no previous position and
  \<^verbatim>\<open>prefer_low_positions\<close> set, \<^verbatim>\<open>MidiToTabConverter._select_optimal_position\<close>
  returns the candidate with the lowest fret, and of several with that fret the first in
  the candidate list, which the resolver builds in order of rising string number.
  \<^verbatim>\<open>TabConverter._select_optimal_position\<close> returns the only candidate when there is
  one, and otherwise a candidate of the highest score (open-string bonus, low-fret bonus,
  less twice the difficulty), which is not always the one with the lowest fret. In
  standard tuning with capo 0, pitch 64 has the candidate (string 6, fret 0), the open
  string of index 5, and both selectors pick it.
\<close>

theorem first_note_selection:
  "(prefer_low_positions cfg \<and> positions \<noteq> [] \<longrightarrow>
      (\<exists>pre r post. positions = pre @ [r] @ post
         \<and> select_optimal_position cfg positions None melodic = Some r
         \<and> (\<forall>a \<in> set pre. snd r < snd a)
         \<and> (\<forall>a \<in> set post. snd r \<le> snd a)))
   \<and> sorted_wrt (<) (map fst (get_fret_positions cfg pitch))
   \<and> (6, 0) \<in> set (get_fret_positions default_TabConfig 64)
   \<and> select_optimal_position default_TabConfig (get_fret_positions default_TabConfig 64)
        None False = Some (6, 0)
   \<and> tc_select_optimal_position tcfg [p] previous_notes = Some p
   \<and> (\<forall>best q. tc_select_optimal_position tcfg candidates previous_notes = Some best
          \<and> length candidates \<ge> 2 \<and> q \<in> set candidates
        \<longrightarrow> position_score tcfg previous_notes q \<le> position_score tcfg previous_notes best)
   \<and> convert_note default_TabConfiguration (note_data 64 0 1 80) [] =
       Inr ([\<lparr> gn_pitch = 64, gn_start_time = 0, gn_end_time = 1, gn_string = 6,
                gn_fret = 0, gn_velocity = 80, gn_techniques = [],
                gn_is_chord_tone = False, gn_chord_shape = None, gn_difficulty = 0 \<rparr>], [])"
proof (intro conjI allI impI)
  assume a: "prefer_low_positions cfg \<and> positions \<noteq> []"
  then obtain x xs where ps: "positions = x # xs" by (cases positions) auto
  from py_min_key_first_minimum [of x xs snd] obtain pre post where
    s: "x # xs = pre @ [py_min_key snd x xs] @ post"
    and l: "\<forall>a \<in> set pre. snd (py_min_key snd x xs) < snd a"
    and r: "\<forall>a \<in> set post. snd (py_min_key snd x xs) \<le> snd a"
    by blast
  have "select_optimal_position cfg positions None melodic = Some (py_min_key snd x xs)"
    using a by (simp add: select_optimal_position_def ps)
  with s l r show "\<exists>pre r post. positions = pre @ [r] @ post
         \<and> select_optimal_position cfg positions None melodic = Some r
         \<and> (\<forall>a \<in> set pre. snd r < snd a)
         \<and> (\<forall>a \<in> set post. snd r \<le> snd a)"
    unfolding ps by blast
next
  show "sorted_wrt (<) (map fst (get_fret_positions cfg pitch))"
    by (rule get_fret_positions_strings_increase)
next
  show "(6, 0) \<in> set (get_fret_positions default_TabConfig 64)"
    by (simp add: get_fret_positions_standard_64)
next
  show "select_optimal_position default_TabConfig (get_fret_positions default_TabConfig 64)
        None False = Some (6, 0)"
    by code_simp
next
  show "tc_select_optimal_position tcfg [p] previous_notes = Some p"
    by (simp add: tc_select_optimal_position_def)
next
  fix best q
  assume "tc_select_optimal_position tcfg candidates previous_notes = Some best
          \<and> length candidates \<ge> 2 \<and> q \<in> set candidates"
  then show "position_score tcfg previous_notes q \<le> position_score tcfg previous_notes best"
    using tc_select_optimal_position_max_score by blast
next
  show "convert_note default_TabConfiguration (note_data 64 0 1 80) [] =
       Inr ([\<lparr> gn_pitch = 64, gn_start_time = 0, gn_end_time = 1, gn_string = 6,
                gn_fret = 0, gn_velocity = 80, gn_techniques = [],
                gn_is_chord_tone = False, gn_chord_shape = None, gn_difficulty = 0 \<rparr>], [])"
    by code_simp
qed

theorem first_note_selection_witness:
  "\<exists>pre r post. get_fret_positions default_TabConfig 64 = pre @ [r] @ post
     \<and> select_optimal_position default_TabConfig (get_fret_positions default_TabConfig 64)
          None False = Some r
     \<and> r = (6, 0)"
proof -
  have h1: "prefer_low_positions default_TabConfig"
    by (simp add: default_TabConfig_def)
  have h2: "get_fret_positions default_TabConfig 64 \<noteq> []"
    by (simp add: get_fret_positions_standard_64)
  from h1 h2 have h: "prefer_low_positions default_TabConfig
           \<and> get_fret_positions default_TabConfig 64 \<noteq> []"
    by (intro conjI)
  note t = first_note_selection
    [of default_TabConfig "get_fret_positions default_TabConfig 64" False]
  from t [THEN conjunct1, rule_format, OF h] obtain pre r post where
    s: "get_fret_positions default_TabConfig 64 = pre @ [r] @ post"
    and e: "select_optimal_position default_TabConfig (get_fret_positions default_TabConfig 64)
              None False = Some r"
    by blast
  from t [THEN conjunct2, THEN conjunct2, THEN conjunct2, THEN conjunct1] e
  have "r = (6, 0)" by simp
  with s e show ?thesis by blast
qed

text \<open>
  Claim C8 as stated fails for \<^verbatim>\<open>TabConverter\<close>: with the tuning 40, 45, 50, 55,
  59, 60 (all other options at their defaults, so \<^verbatim>\<open>prefer_low_positions\<close> is set) and
  no note yet in the measure, pitch 61 has the candidates (3, 11), (4, 6), (5, 2) and
  (6, 1) after filtering; the outer string 6 costs difficulty, and the selector returns
  string 5, fret 2, not the lowest fret.
\<close>

theorem lowest_fret_not_chosen_counterexample:
  "map (\<lambda>p. (p_string p, p_fret p))
     (filter_positions (default_TabConfiguration\<lparr>tc_tuning := [40, 45, 50, 55, 59, 60]\<rparr>)
        (find_positions (default_TabConfiguration\<lparr>tc_tuning := [40, 45, 50, 55, 59, 60]\<rparr>) 61))
     = [(3, 11), (4, 6), (5, 2), (6, 1)]
   \<and> tc_prefer_low_positions (default_TabConfiguration\<lparr>tc_tuning := [40, 45, 50, 55, 59, 60]\<rparr>)
   \<and> convert_note (default_TabConfiguration\<lparr>tc_tuning := [40, 45, 50, 55, 59, 60]\<rparr>)
        (note_data 61 0 1 80) [] =
       Inr ([\<lparr> gn_pitch = 61, gn_start_time = 0, gn_end_time = 1, gn_string = 5,
                gn_fret = 2, gn_velocity = 80, gn_techniques = [],
                gn_is_chord_tone = False, gn_chord_shape = None, gn_difficulty = 1 / 40 \<rparr>], [])"
  by code_simp

lemma group_loop_lengths:
  "group_loop ns gs cur = (gs', cur') \<Longrightarrow> \<forall>g \<in> set gs. 3 \<le> length g
     \<Longrightarrow> \<forall>g \<in> set gs'. 3 \<le> length g"
proof (induction ns arbitrary: gs cur)
  case Nil
  then show ?case by simp
next
  case (Cons n ns)
  show ?case
  proof (cases "cur = [] \<or> \<bar>tn_start_time n - tn_start_time (last cur)\<bar> < 0.05")
    case True
    with Cons.prems(1) have "group_loop ns gs (cur @ [n]) = (gs', cur')" by simp
    from Cons.IH [OF this Cons.prems(2)] show ?thesis .
  next
    case False
    with Cons.prems(1) have l:
      "group_loop ns (if length cur \<ge> 3 then gs @ [cur] else gs) [n] = (gs', cur')"
      by simp
    have "\<forall>g \<in> set (if length cur \<ge> 3 then gs @ [cur] else gs). 3 \<le> length g"
      using Cons.prems(2) by simp
    from Cons.IH [OF l this] show ?thesis .
  qed
qed

lemma group_loop_size:
  "group_loop ns gs cur = (gs', cur')
     \<Longrightarrow> length (concat gs') + length cur' \<le> length (concat gs) + length cur + length ns"
proof (induction ns arbitrary: gs cur)
  case Nil
  then show ?case by simp
next
  case (Cons n ns)
  show ?case
  proof (cases "cur = [] \<or> \<bar>tn_start_time n - tn_start_time (last cur)\<bar> < 0.05")
    case True
    with Cons.prems have "group_loop ns gs (cur @ [n]) = (gs', cur')" by simp
    from Cons.IH [OF this] show ?thesis by simp
  next
    case False
    with Cons.prems have
      "group_loop ns (if length cur \<ge> 3 then gs @ [cur] else gs) [n] = (gs', cur')"
      by simp
    from Cons.IH [OF this] show ?thesis by (simp split: if_splits)
  qed
qed

lemma note_groups_of_lengths: "\<forall>g \<in> set (note_groups_of ns). 3 \<le> length g"
proof -
  obtain gs' cur' where l: "group_loop (py_sorted tn_start_time ns) [] [] = (gs', cur')"
    by (cases "group_loop (py_sorted tn_start_time ns) [] []")
  from group_loop_lengths [OF l] have "\<forall>g \<in> set gs'. 3 \<le> length g" by simp
  then show ?thesis by (simp add: note_groups_of_def l)
qed

lemma note_groups_of_small:
  assumes "length ns < 3"
  shows "note_groups_of ns = []"
proof -
  obtain gs' cur' where l: "group_loop (py_sorted tn_start_time ns) [] [] = (gs', cur')"
    by (cases "group_loop (py_sorted tn_start_time ns) [] []")
  from group_loop_size [OF l] assms
  have s: "length (concat gs') + length cur' < 3" by (simp add: py_sorted_def)
  have "gs' = []"
  proof (rule ccontr)
    assume "gs' \<noteq> []"
    then obtain g rest where g: "gs' = g # rest" by (cases gs') auto
    with group_loop_lengths [OF l] have "3 \<le> length g" by simp
    with s g show False by simp
  qed
  with s show ?thesis by (simp add: note_groups_of_def l)
qed

lemma note_groups_of_three:
  assumes "tn_start_time a \<le> tn_start_time b" "tn_start_time b \<le> tn_start_time c"
    and "tn_start_time b - tn_start_time a < 0.05" "tn_start_time c - tn_start_time b < 0.05"
  shows "note_groups_of [a, b, c] = [[a, b, c]]"
proof -
  have "sorted (map tn_start_time [a, b, c])" using assms(1,2) by simp
  then have "py_sorted tn_start_time [a, b, c] = [a, b, c]"
    unfolding py_sorted_def by (rule sort_key_id_if_sorted)
  with assms show ?thesis by (simp add: note_groups_of_def)
qed

lemma chord_groups_loop_lengths:
  "chord_groups_loop ns gs cur st = (gs', cur') \<Longrightarrow> \<forall>g \<in> set gs. 2 \<le> length g
     \<Longrightarrow> \<forall>g \<in> set gs'. 2 \<le> length g"
proof (induction ns arbitrary: gs cur st)
  case Nil
  then show ?case by simp
next
  case (Cons n ns)
  show ?case
  proof (cases st)
    case None
    with Cons.prems(1) have "chord_groups_loop ns gs [n] (Some (nd_start n)) = (gs', cur')"
      by simp
    from Cons.IH [OF this Cons.prems(2)] show ?thesis .
  next
    case (Some t)
    show ?thesis
    proof (cases "\<bar>nd_start n - t\<bar> \<le> 0.05")
      case True
      with Some Cons.prems(1) have "chord_groups_loop ns gs (cur @ [n]) (Some t) = (gs', cur')"
        by simp
      from Cons.IH [OF this Cons.prems(2)] show ?thesis .
    next
      case False
      with Some Cons.prems(1) have l:
        "chord_groups_loop ns (if length cur \<ge> 2 then gs @ [cur] else gs) [n]
           (Some (nd_start n)) = (gs', cur')"
        by simp
      have "\<forall>g \<in> set (if length cur \<ge> 2 then gs @ [cur] else gs). 2 \<le> length g"
        using Cons.prems(2) by simp
      from Cons.IH [OF l this] show ?thesis .
    qed
  qed
qed

lemma detect_chord_groups_lengths: "\<forall>g \<in> set (detect_chord_groups ns). 2 \<le> length g"
proof -
  obtain gs' cur' where l: "chord_groups_loop (py_sorted nd_start ns) [] [] None = (gs', cur')"
    by (cases "chord_groups_loop (py_sorted nd_start ns) [] [] None")
  from chord_groups_loop_lengths [OF l] have "\<forall>g \<in> set gs'. 2 \<le> length g" by simp
  then show ?thesis by (simp add: detect_chord_groups_def l)
qed

lemma detect_chord_groups_pair:
  assumes "nd_start x = nd_start y"
  shows "detect_chord_groups [x, y] = [[x, y]]"
proof -
  have "sorted (map nd_start [x, y])" using assms by simp
  then have "py_sorted nd_start [x, y] = [x, y]"
    unfolding py_sorted_def by (rule sort_key_id_if_sorted)
  with assms show ?thesis by (simp add: detect_chord_groups_def)
qed

lemma detect_chords_M_three:
  assumes "note_groups_of [a, b, c] = [[a, b, c]]"
  shows "detect_chords_M cfg [a, b, c] =
          (case group_pitches cfg [a, b, c] of
             Inl e \<Rightarrow> Inl e
           | Inr pitches \<Rightarrow>
               (case identify_chord pitches [a, b, c] of
                  None \<Rightarrow> Inr []
                | Some chord_info \<Rightarrow>
                    Inr [\<lparr> ch_time = tn_start_time a,
                           ch_duration = max (max (tn_duration a) (tn_duration b)) (tn_duration c),
                           ch_chord = chord_info,
                           ch_tab_positions =
                             [(tn_string a, tn_fret a), (tn_string b, tn_fret b),
                              (tn_string c, tn_fret c)] \<rparr>]))"
  unfolding detect_chords_M_def assms
  by (simp add: analyze_group_def py_max_def split: sum.splits option.splits)

lemma c_major_pitches:
  "group_pitches default_TabConfig [tab_note 2 3 0 1 80, tab_note 3 2 0 1 80, tab_note 4 0 0 1 80]
     = Inr [48, 52, 55]"
  by code_simp

lemma c_major_identified:
  "identify_chord [48, 52, 55] [tab_note 2 3 0 1 80, tab_note 3 2 0 1 80, tab_note 4 0 0 1 80]
     = Some \<lparr> ci_root = ''C'', ci_type = ''major'', ci_shape = None,
              ci_pitches = [48, 52, 55] \<rparr>"
  by code_simp

text \<open>
  Claim C7 as stated fails three ways. Three simultaneous notes on the strings 1, 2 and
  3 (pitches 40, 45 and 51, which hold none of the interval patterns) give no chord in
  \<^verbatim>\<open>MidiToTabConverter\<close>; the notes 60, 64 and 67 struck together are all placed on
  string 5 by its selector and are still emitted as a chord; and \<^verbatim>\<open>TabConverter\<close>
  emits a group of two notes.
\<close>

theorem chord_rule_counterexample:
  "detect_chords_M default_TabConfig
     [tab_note 1 0 0 1 80, tab_note 2 0 0 1 80, tab_note 3 1 0 1 80] = Inr []
   \<and> (case convert_midi_to_tab_M default_TabConfig
              [midi 60 0 1 80, midi 64 0 1 70, midi 67 0 1 60] 120 (4, 4) of
         Inl e \<Rightarrow> []
       | Inr (ms, chords, ws) \<Rightarrow> map ch_tab_positions chords)
       = [[(5, 1), (5, 5), (5, 8)]]
   \<and> detect_chord_groups [note_data 60 0 1 80, note_data 64 0 1 80]
       = [[note_data 60 0 1 80, note_data 64 0 1 80]]"
  by code_simp

lemma techniques_loop_nth:
  "k < length refs \<Longrightarrow>
     techniques_loop prev refs ! k =
       (fst (refs ! k),
        (snd (refs ! k))\<lparr>gn_techniques :=
           gn_techniques (snd (refs ! k))
             @ new_techniques (if k = 0 then prev else Some (snd (refs ! (k - 1))))
                 (snd (refs ! k))
                 (if Suc k < length refs then Some (snd (refs ! Suc k)) else None)\<rparr>)"
proof (induction prev refs arbitrary: k rule: techniques_loop.induct)
  case (1 prev)
  then show ?case by simp
next
  case (2 prev i current rest)
  show ?case
  proof (cases k)
    case 0
    then show ?thesis by (cases rest) simp_all
  next
    case (Suc j)
    with "2.prems" have j: "j < length rest" by simp
    from "2.IH" [OF j] Suc show ?thesis by (cases j) simp_all
  qed
qed

lemma length_techniques_loop: "length (techniques_loop prev refs) = length refs"
  by (induction prev refs rule: techniques_loop.induct) simp_all

lemma map_fst_techniques_loop: "map fst (techniques_loop prev refs) = map fst refs"
  by (induction prev refs rule: techniques_loop.induct) simp_all

lemma write_back_other:
  "i \<notin> fst ` set refs \<Longrightarrow> write_back refs store ! i = store ! i"
proof (induction refs arbitrary: store)
  case Nil
  show ?case by (simp add: write_back_def)
next
  case (Cons r refs)
  obtain j m where r: "r = (j, m)" by (cases r)
  from Cons.prems r have ne: "i \<noteq> j" and rest: "i \<notin> fst ` set refs" by auto
  have "write_back (r # refs) store = write_back refs (store[j := m])"
    by (simp add: write_back_def r)
  with Cons.IH [OF rest, of "store[j := m]"] ne show ?case by simp
qed

lemma write_back_nth:
  "distinct (map fst refs) \<Longrightarrow> (i, n) \<in> set refs \<Longrightarrow> i < length store
     \<Longrightarrow> write_back refs store ! i = n"
proof (induction refs arbitrary: store)
  case Nil
  then show ?case by simp
next
  case (Cons r refs)
  obtain j m where r: "r = (j, m)" by (cases r)
  have wb: "write_back (r # refs) store = write_back refs (store[j := m])"
    by (simp add: write_back_def r)
  from Cons.prems(1) r have d: "distinct (map fst refs)" and nj: "j \<notin> fst ` set refs"
    by auto
  show ?case
  proof (cases "(i, n) = (j, m)")
    case True
    with nj have "i \<notin> fst ` set refs" by simp
    from write_back_other [OF this, of "store[j := m]"] True Cons.prems(3)
    show ?thesis unfolding wb by simp
  next
    case False
    with Cons.prems(2) r have "(i, n) \<in> set refs" by auto
    from Cons.IH [OF d this, of "store[j := m]"] Cons.prems(3)
    show ?thesis unfolding wb by simp
  qed
qed

lemma distinct_map_fst_sort_key:
  "distinct (map fst (sort_key f xs)) = distinct (map fst xs)"
  by (simp add: distinct_map)

lemma start_time_order_facts:
  "length (start_time_order ns) = length ns"
  "distinct (map fst (start_time_order ns))"
  "sorted (map (\<lambda>r. gn_start_time (snd r)) (start_time_order ns))"
  "set (start_time_order ns) = set (enumerate 0 ns)"
  by (simp_all add: start_time_order_def py_sorted_def distinct_map_fst_sort_key)

lemma start_time_order_nth:
  assumes "k < length ns"
  shows "fst (start_time_order ns ! k) < length ns"
    and "snd (start_time_order ns ! k) = ns ! fst (start_time_order ns ! k)"
proof -
  from assms have "start_time_order ns ! k \<in> set (start_time_order ns)"
    by (simp add: start_time_order_facts(1))
  then have "(fst (start_time_order ns ! k), snd (start_time_order ns ! k))
               \<in> set (enumerate 0 ns)"
    by (simp add: start_time_order_facts(4))
  from in_enumerate_0 [OF this]
  show "fst (start_time_order ns ! k) < length ns"
    and "snd (start_time_order ns ! k) = ns ! fst (start_time_order ns ! k)"
    by simp_all
qed

lemma tc_detect_techniques_nth:
  assumes "k < length ns"
  shows "tc_detect_techniques ns ! fst (start_time_order ns ! k) =
           (snd (start_time_order ns ! k))\<lparr>gn_techniques :=
              gn_techniques (snd (start_time_order ns ! k))
                @ new_techniques
                    (if k = 0 then None else Some (snd (start_time_order ns ! (k - 1))))
                    (snd (start_time_order ns ! k))
                    (if Suc k < length ns then Some (snd (start_time_order ns ! Suc k))
                     else None)\<rparr>"
proof -
  let ?o = "start_time_order ns"
  let ?t = "techniques_loop None ?o"
  have k: "k < length ?o" using assms by (simp add: start_time_order_facts(1))
  have d: "distinct (map fst ?t)"
    by (simp add: map_fst_techniques_loop start_time_order_facts(2))
  have m: "?t ! k \<in> set ?t"
    using k by (simp add: length_techniques_loop)
  have e: "?t ! k = (fst (?o ! k),
        (snd (?o ! k))\<lparr>gn_techniques :=
           gn_techniques (snd (?o ! k))
             @ new_techniques (if k = 0 then None else Some (snd (?o ! (k - 1))))
                 (snd (?o ! k))
                 (if Suc k < length ?o then Some (snd (?o ! Suc k)) else None)\<rparr>)"
    by (rule techniques_loop_nth [OF k])
  have "write_back ?t ns ! fst (?o ! k) = snd (?t ! k)"
  proof (rule write_back_nth [OF d])
    show "(fst (?o ! k), snd (?t ! k)) \<in> set ?t"
      using m e by (metis fst_conv prod.collapse)
    show "fst (?o ! k) < length ns" by (rule start_time_order_nth(1) [OF assms])
  qed
  then show ?thesis
    unfolding tc_detect_techniques_def start_time_order_def [symmetric] e
    by (simp add: start_time_order_facts(1))
qed

text \<open>
  Claim C5 fails on the code. At 120 BPM in 4/4 the notes starting at 0, 5, 5 and 5 s
  are all returned, once each and in order, but \<^verbatim>\<open>_organize_measures\<close> puts the first
  note of 5 s alone into measure 2 and the other two into measure 3: two consecutive
  measures hold notes of the same instant, so they are not disjoint in time, and neither
  is the window from 4 s to 6 s in which the three notes lie. \<^verbatim>\<open>_group_into_measures\<close>
  splits the notes of 0, 5 and 5 s likewise. The cause is the single step by which both
  loops advance the start of the measure.
\<close>

theorem simultaneous_notes_split_over_measures:
  "organize_measures
     [tab_note 1 0 0 0.5 80, tab_note 1 0 5 0.5 80, tab_note 2 0 5 0.5 80, tab_note 3 0 5 0.5 80]
     [] 120 (4, 4) =
     Inr [\<lparr> tm_measure_number = 1, tm_time_signature = (4, 4), tm_tempo = 120,
             tm_notes = [tab_note 1 0 0 0.5 80], tm_chords = [] \<rparr>,
          \<lparr> tm_measure_number = 2, tm_time_signature = (4, 4), tm_tempo = 120,
             tm_notes = [tab_note 1 0 5 0.5 80], tm_chords = [] \<rparr>,
          \<lparr> tm_measure_number = 3, tm_time_signature = (4, 4), tm_tempo = 120,
             tm_notes = [tab_note 2 0 5 0.5 80, tab_note 3 0 5 0.5 80], tm_chords = [] \<rparr>]
   \<and> group_into_measures
        [note_data 40 0 0.5 80, note_data 45 5 5.5 80, note_data 50 5 5.5 80] (4, 4) 120 =
       Inr [[note_data 40 0 0.5 80], [note_data 45 5 5.5 80], [note_data 50 5 5.5 80]]
   \<and> tn_start_time (tab_note 1 0 5 0.5 80) = tn_start_time (tab_note 2 0 5 0.5 80)"
  by code_simp

text \<open>
  Claim C6, as the code has it. \<^verbatim>\<open>MidiToTabConverter._detect_techniques\<close> compares
  each tab note with the one before it in the list: it becomes a hammer-on exactly when
  both are on the same string, its fret is higher, it starts less than 100 ms after the
  previous note starts (the previous note's end is not looked at) and its velocity is
  lower; a pull-off under the same conditions with a lower fret.
  \<^verbatim>\<open>TabConverter._detect_techniques\<close> walks the notes of the measure in start-time
  order (a stable sort of the notes with their indices): the note in place \<open>k\<close> of that
  order, if it had no technique yet, is a hammer-on exactly when it is not the first,
  it is on the same string as the note in place \<open>k - 1\<close>, its start is less than 50 ms
  away from that note's end and its fret is higher; a pull-off when the fret is lower;
  the velocities play no part. The scenario of the claim (fret 5 from 0 to 0.5 s, then
  fret 3 at 0.51 s, softer) is a pull-off for \<^verbatim>\<open>TabConverter\<close>.
\<close>

theorem technique_rules_in_both_converters:
  "(\<forall>i. Suc i < length ns \<and> tn_technique (ns ! Suc i) = NORMAL \<longrightarrow>
      (tn_technique (detect_techniques_M ns ! Suc i) = HAMMER_ON \<longleftrightarrow>
         tn_string (ns ! i) = tn_string (ns ! Suc i)
         \<and> tn_fret (ns ! Suc i) > tn_fret (ns ! i)
         \<and> tn_start_time (ns ! Suc i) - tn_start_time (ns ! i) < 0.1
         \<and> tn_velocity (ns ! Suc i) < tn_velocity (ns ! i))
      \<and> (tn_technique (detect_techniques_M ns ! Suc i) = PULL_OFF \<longleftrightarrow>
         tn_string (ns ! i) = tn_string (ns ! Suc i)
         \<and> tn_fret (ns ! Suc i) < tn_fret (ns ! i)
         \<and> tn_start_time (ns ! Suc i) - tn_start_time (ns ! i) < 0.1
         \<and> tn_velocity (ns ! Suc i) < tn_velocity (ns ! i)))
   \<and> length (start_time_order gs) = length gs
   \<and> distinct (map fst (start_time_order gs))
   \<and> sorted (map (\<lambda>r. gn_start_time (snd r)) (start_time_order gs))
   \<and> (\<forall>k. k < length gs \<longrightarrow>
        fst (start_time_order gs ! k) < length gs
        \<and> snd (start_time_order gs ! k) = gs ! fst (start_time_order gs ! k))
   \<and> (\<forall>k. k < length gs \<and> gn_techniques (snd (start_time_order gs ! k)) = [] \<longrightarrow>
        (PT_HAMMER_ON
           \<in> set (gn_techniques (tc_detect_techniques gs ! fst (start_time_order gs ! k)))
         \<longleftrightarrow> 0 < k
             \<and> gn_string (snd (start_time_order gs ! k))
                 = gn_string (snd (start_time_order gs ! (k - 1)))
             \<and> \<bar>gn_start_time (snd (start_time_order gs ! k))
                  - gn_end_time (snd (start_time_order gs ! (k - 1)))\<bar> < 0.05
             \<and> gn_fret (snd (start_time_order gs ! k))
                 > gn_fret (snd (start_time_order gs ! (k - 1))))
        \<and> (PT_PULL_OFF
           \<in> set (gn_techniques (tc_detect_techniques gs ! fst (start_time_order gs ! k)))
         \<longleftrightarrow> 0 < k
             \<and> gn_string (snd (start_time_order gs ! k))
                 = gn_string (snd (start_time_order gs ! (k - 1)))
             \<and> \<bar>gn_start_time (snd (start_time_order gs ! k))
                  - gn_end_time (snd (start_time_order gs ! (k - 1)))\<bar> < 0.05
             \<and> gn_fret (snd (start_time_order gs ! k))
                 < gn_fret (snd (start_time_order gs ! (k - 1)))))
   \<and> map gn_techniques
         (tc_detect_techniques [guitar_note 3 5 0 0.5 80, guitar_note 3 3 0.51 1 70])
       = [[], [PT_PULL_OFF]]"
proof (intro conjI allI impI)
  fix i
  assume a: "Suc i < length ns \<and> tn_technique (ns ! Suc i) = NORMAL"
  then have e: "detect_techniques_M ns ! Suc i = classify_technique (ns ! i) (ns ! Suc i)"
    by (simp add: detect_techniques_M_nth)
  from a show "tn_technique (detect_techniques_M ns ! Suc i) = HAMMER_ON \<longleftrightarrow>
         tn_string (ns ! i) = tn_string (ns ! Suc i)
         \<and> tn_fret (ns ! Suc i) > tn_fret (ns ! i)
         \<and> tn_start_time (ns ! Suc i) - tn_start_time (ns ! i) < 0.1
         \<and> tn_velocity (ns ! Suc i) < tn_velocity (ns ! i)"
    unfolding e by (simp only: classify_technique_hammer_on)
  from a show "tn_technique (detect_techniques_M ns ! Suc i) = PULL_OFF \<longleftrightarrow>
         tn_string (ns ! i) = tn_string (ns ! Suc i)
         \<and> tn_fret (ns ! Suc i) < tn_fret (ns ! i)
         \<and> tn_start_time (ns ! Suc i) - tn_start_time (ns ! i) < 0.1
         \<and> tn_velocity (ns ! Suc i) < tn_velocity (ns ! i)"
    unfolding e by (simp only: classify_technique_pull_off)
next
  show "length (start_time_order gs) = length gs"
    by (rule start_time_order_facts(1))
next
  show "distinct (map fst (start_time_order gs))"
    by (rule start_time_order_facts(2))
next
  show "sorted (map (\<lambda>r. gn_start_time (snd r)) (start_time_order gs))"
    by (rule start_time_order_facts(3))
next
  fix k assume "k < length gs"
  then show "fst (start_time_order gs ! k) < length gs"
    and "snd (start_time_order gs ! k) = gs ! fst (start_time_order gs ! k)"
    by (rule start_time_order_nth)+
next
  fix k
  assume a: "k < length gs \<and> gn_techniques (snd (start_time_order gs ! k)) = []"
  let ?cur = "snd (start_time_order gs ! k)"
  let ?prev = "snd (start_time_order gs ! (k - 1))"
  let ?nxt = "if Suc k < length gs then Some (snd (start_time_order gs ! Suc k)) else None"
  from a tc_detect_techniques_nth [of k gs]
  have t: "gn_techniques (tc_detect_techniques gs ! fst (start_time_order gs ! k))
             = new_techniques (if k = 0 then None else Some ?prev) ?cur ?nxt"
    by simp
  show "PT_HAMMER_ON
           \<in> set (gn_techniques (tc_detect_techniques gs ! fst (start_time_order gs ! k)))
         \<longleftrightarrow> 0 < k
             \<and> gn_string ?cur = gn_string ?prev
             \<and> \<bar>gn_start_time ?cur - gn_end_time ?prev\<bar> < 0.05
             \<and> gn_fret ?cur > gn_fret ?prev"
  proof (cases "k = 0")
    case True
    have "PT_HAMMER_ON \<notin> set (new_techniques None ?cur ?nxt)"
      by (auto simp: new_techniques_def split: option.splits)
    with True t show ?thesis by simp
  next
    case False
    with t new_techniques_hammer_on [of ?prev ?cur ?nxt] show ?thesis by simp
  qed
  show "PT_PULL_OFF
           \<in> set (gn_techniques (tc_detect_techniques gs ! fst (start_time_order gs ! k)))
         \<longleftrightarrow> 0 < k
             \<and> gn_string ?cur = gn_string ?prev
             \<and> \<bar>gn_start_time ?cur - gn_end_time ?prev\<bar> < 0.05
             \<and> gn_fret ?cur < gn_fret ?prev"
  proof (cases "k = 0")
    case True
    have "PT_PULL_OFF \<notin> set (new_techniques None ?cur ?nxt)"
      by (auto simp: new_techniques_def split: option.splits)
    with True t show ?thesis by simp
  next
    case False
    with t new_techniques_pull_off [of ?prev ?cur ?nxt] show ?thesis by simp
  qed
next
  show "map gn_techniques
         (tc_detect_techniques [guitar_note 3 5 0 0.5 80, guitar_note 3 3 0.51 1 70])
       = [[], [PT_PULL_OFF]]"
    by code_simp
qed

lemma start_time_order_example:
  "start_time_order
     [guitar_note 3 9 1.02 1.5 80, guitar_note 3 5 0 0.5 80, guitar_note 3 7 0.51 1 80]
   = [(1, guitar_note 3 5 0 0.5 80), (2, guitar_note 3 7 0.51 1 80),
      (0, guitar_note 3 9 1.02 1.5 80)]"
  by code_simp

theorem technique_rules_in_both_witness:
  "tn_technique (detect_techniques_M [tab_note 3 5 0 0.5 80, tab_note 3 7 0.03 0.5 70] ! Suc 0)
     = HAMMER_ON
   \<and> tn_technique (detect_techniques_M [tab_note 3 7 0 0.5 80, tab_note 3 5 0.03 0.5 70] ! Suc 0)
     = PULL_OFF
   \<and> PT_HAMMER_ON \<in> set (gn_techniques
        (tc_detect_techniques
           [guitar_note 3 9 1.02 1.5 80, guitar_note 3 5 0 0.5 80, guitar_note 3 7 0.51 1 80]
         ! 0))
   \<and> PT_HAMMER_ON \<notin> set (gn_techniques
        (tc_detect_techniques
           [guitar_note 3 9 1.02 1.5 80, guitar_note 3 5 0 0.5 80, guitar_note 3 7 0.51 1 80]
         ! 1))"
proof -
  have a: "Suc 0 < length [tab_note 3 5 0 0.5 80, tab_note 3 7 0.03 0.5 70]
           \<and> tn_technique ([tab_note 3 5 0 0.5 80, tab_note 3 7 0.03 0.5 70] ! Suc 0) = NORMAL"
    by (simp add: tab_note_def)
  have b: "Suc 0 < length [tab_note 3 7 0 0.5 80, tab_note 3 5 0.03 0.5 70]
           \<and> tn_technique ([tab_note 3 7 0 0.5 80, tab_note 3 5 0.03 0.5 70] ! Suc 0) = NORMAL"
    by (simp add: tab_note_def)
  from technique_rules_in_both_converters
         [of "[tab_note 3 5 0 0.5 80, tab_note 3 7 0.03 0.5 70]",
          THEN conjunct1, rule_format, OF a, THEN conjunct1]
  have h: "tn_technique (detect_techniques_M [tab_note 3 5 0 0.5 80, tab_note 3 7 0.03 0.5 70]
             ! Suc 0) = HAMMER_ON"
    by (simp add: tab_note_def)
  from technique_rules_in_both_converters
         [of "[tab_note 3 7 0 0.5 80, tab_note 3 5 0.03 0.5 70]",
          THEN conjunct1, rule_format, OF b, THEN conjunct2]
  have p: "tn_technique (detect_techniques_M [tab_note 3 7 0 0.5 80, tab_note 3 5 0.03 0.5 70]
             ! Suc 0) = PULL_OFF"
    by (simp add: tab_note_def)
  let ?gs = "[guitar_note 3 9 1.02 1.5 80, guitar_note 3 5 0 0.5 80, guitar_note 3 7 0.51 1 80]"
  note t = technique_rules_in_both_converters
         [of "[]" ?gs, THEN conjunct2, THEN conjunct2, THEN conjunct2, THEN conjunct2,
          THEN conjunct2, THEN conjunct1, rule_format]
  have c2: "2 < length ?gs \<and> gn_techniques (snd (start_time_order ?gs ! 2)) = []"
    by code_simp
  have c0: "0 < length ?gs \<and> gn_techniques (snd (start_time_order ?gs ! 0)) = []"
    by code_simp
  have i2: "fst (start_time_order ?gs ! 2) = 0" by code_simp
  have i0: "fst (start_time_order ?gs ! 0) = 1" by code_simp
  have r2: "0 < (2 :: nat)
             \<and> gn_string (snd (start_time_order ?gs ! 2))
                 = gn_string (snd (start_time_order ?gs ! (2 - 1)))
             \<and> \<bar>gn_start_time (snd (start_time_order ?gs ! 2))
                  - gn_end_time (snd (start_time_order ?gs ! (2 - 1)))\<bar> < 0.05
             \<and> gn_fret (snd (start_time_order ?gs ! 2))
                 > gn_fret (snd (start_time_order ?gs ! (2 - 1)))"
    by code_simp
  from t [OF c2, THEN conjunct1, THEN iffD2, OF r2]
  have g2: "PT_HAMMER_ON \<in> set (gn_techniques (tc_detect_techniques ?gs ! 0))"
    unfolding i2 .
  from t [OF c0, THEN conjunct1]
  have "PT_HAMMER_ON
          \<notin> set (gn_techniques (tc_detect_techniques ?gs ! fst (start_time_order ?gs ! 0)))"
    by simp
  then have g0: "PT_HAMMER_ON \<notin> set (gn_techniques (tc_detect_techniques ?gs ! 1))"
    unfolding i0 .
  from h p g2 g0 show ?thesis by (intro conjI)
qed

lemma chained_M_snoc:
  "chained_M (xs @ [n]) \<longleftrightarrow>
     chained_M xs \<and> (xs = [] \<or> \<bar>tn_start_time n - tn_start_time (last xs)\<bar> < 0.05)"
  by (induction xs rule: chained_M.induct) simp_all

lemma separated_M_snoc:
  "s \<noteq> [] \<Longrightarrow> separated_M (rs @ [s]) \<longleftrightarrow>
     separated_M rs
     \<and> (rs = [] \<or> \<not> \<bar>tn_start_time (hd s) - tn_start_time (last (last rs))\<bar> < 0.05)"
  by (induction rs rule: separated_M.induct) simp_all

lemma group_loop_state_step_extend:
  assumes "group_loop_state runs gs cur"
    and "cur = [] \<or> \<bar>tn_start_time n - tn_start_time (last cur)\<bar> < 0.05"
  shows "group_loop_state runs gs (cur @ [n])"
proof (cases "cur = []")
  case True
  with assms(1) show ?thesis by (simp add: group_loop_state_def)
next
  case False
  with assms(2) have c: "\<bar>tn_start_time n - tn_start_time (last cur)\<bar> < 0.05" by simp
  from assms(1) False have s: "separated_M (runs @ [cur])"
    and ch: "chained_M cur" and r: "[] \<notin> set runs" "list_all chained_M runs"
    and g: "gs = [r \<leftarrow> runs. 3 \<le> length r]"
    by (simp_all add: group_loop_state_def)
  have "separated_M (runs @ [cur @ [n]])"
    using s False by (simp add: separated_M_snoc)
  moreover have "chained_M (cur @ [n])"
    using ch c by (simp add: chained_M_snoc)
  ultimately show ?thesis using r g by (simp add: group_loop_state_def)
qed

lemma group_loop_state_step_close:
  assumes "group_loop_state runs gs cur"
    and "\<not> (cur = [] \<or> \<bar>tn_start_time n - tn_start_time (last cur)\<bar> < 0.05)"
  shows "group_loop_state (runs @ [cur]) (if length cur \<ge> 3 then gs @ [cur] else gs) [n]"
proof -
  from assms(2) have ne: "cur \<noteq> []"
    and far: "\<not> \<bar>tn_start_time n - tn_start_time (last cur)\<bar> < 0.05" by simp_all
  from assms(1) ne have s: "separated_M (runs @ [cur])"
    and ch: "chained_M cur" and r: "[] \<notin> set runs" "list_all chained_M runs"
    and g: "gs = [r \<leftarrow> runs. 3 \<le> length r]"
    by (simp_all add: group_loop_state_def)
  have "separated_M ((runs @ [cur]) @ [[n]])"
    using s far by (subst separated_M_snoc) simp_all
  then show ?thesis using ne ch r g by (simp add: group_loop_state_def)
qed

lemma group_loop_runs:
  "group_loop ns gs cur = (gs', cur') \<Longrightarrow> group_loop_state runs gs cur
     \<Longrightarrow> \<exists>runs'. group_loop_state runs' gs' cur'
                \<and> concat runs' @ cur' = concat runs @ cur @ ns"
proof (induction ns arbitrary: gs cur runs)
  case Nil
  then show ?case by auto
next
  case (Cons n ns)
  show ?case
  proof (cases "cur = [] \<or> \<bar>tn_start_time n - tn_start_time (last cur)\<bar> < 0.05")
    case True
    with Cons.prems(1) have l: "group_loop ns gs (cur @ [n]) = (gs', cur')" by simp
    from Cons.IH [OF l group_loop_state_step_extend [OF Cons.prems(2) True]]
    show ?thesis by simp
  next
    case False
    with Cons.prems(1) have l:
      "group_loop ns (if length cur \<ge> 3 then gs @ [cur] else gs) [n] = (gs', cur')"
      by simp
    from Cons.IH [OF l group_loop_state_step_close [OF Cons.prems(2) False]]
    show ?thesis by simp
  qed
qed

lemma note_groups_of_runs:
  "\<exists>runs. concat runs = py_sorted tn_start_time ns
      \<and> [] \<notin> set runs \<and> list_all chained_M runs \<and> separated_M runs
      \<and> note_groups_of ns = [r \<leftarrow> runs. 3 \<le> length r]"
proof -
  obtain gs' cur' where l: "group_loop (py_sorted tn_start_time ns) [] [] = (gs', cur')"
    by (cases "group_loop (py_sorted tn_start_time ns) [] []")
  have "group_loop_state [] [] []" by (simp add: group_loop_state_def)
  from group_loop_runs [OF l this] obtain runs' where
    st: "group_loop_state runs' gs' cur'"
    and c: "concat runs' @ cur' = py_sorted tn_start_time ns"
    by auto
  define runs where "runs = (if cur' = [] then runs' else runs' @ [cur'])"
  have 1: "concat runs = py_sorted tn_start_time ns"
    using c by (auto simp: runs_def)
  have 2: "[] \<notin> set runs" "list_all chained_M runs" "separated_M runs"
    using st by (simp_all add: runs_def group_loop_state_def)
  have 3: "note_groups_of ns = [r \<leftarrow> runs. 3 \<le> length r]"
    using st by (simp add: note_groups_of_def l runs_def group_loop_state_def)
  from 1 2 3 show ?thesis by blast
qed

lemma separated_T_snoc:
  "s \<noteq> [] \<Longrightarrow> separated_T (rs @ [s]) \<longleftrightarrow>
     separated_T rs
     \<and> (rs = [] \<or> \<not> \<bar>nd_start (hd s) - nd_start (hd (last rs))\<bar> \<le> 0.05)"
  by (induction rs rule: separated_T.induct) simp_all

lemma separated_T_snoc_same_head:
  assumes "cur \<noteq> []"
  shows "separated_T (rs @ [cur @ [n]]) = separated_T (rs @ [cur])"
  using assms by (simp add: separated_T_snoc)

lemma chord_groups_loop_state_first:
  assumes "chord_groups_loop_state runs gs cur None"
  shows "chord_groups_loop_state runs gs [n] (Some (nd_start n))"
proof -
  from assms have "cur = []" by (auto simp: chord_groups_loop_state_def split: if_splits)
  with assms show ?thesis by (simp add: chord_groups_loop_state_def anchored_T_def)
qed

lemma chord_groups_loop_state_extend:
  assumes "chord_groups_loop_state runs gs cur (Some t)"
    and "\<bar>nd_start n - t\<bar> \<le> 0.05"
  shows "chord_groups_loop_state runs gs (cur @ [n]) (Some t)"
proof -
  from assms(1) have ne: "cur \<noteq> []" and t: "t = nd_start (hd cur)"
    by (auto simp: chord_groups_loop_state_def split: if_splits)
  from assms(1) ne have s: "separated_T (runs @ [cur])"
    and a: "anchored_T cur" and r: "[] \<notin> set runs" "list_all anchored_T runs"
    and g: "gs = [r \<leftarrow> runs. 2 \<le> length r]"
    by (simp_all add: chord_groups_loop_state_def)
  have "anchored_T (cur @ [n])"
    using a assms(2) ne t by (simp add: anchored_T_def)
  moreover have "separated_T (runs @ [cur @ [n]])"
    using s ne by (simp add: separated_T_snoc_same_head)
  ultimately show ?thesis using r g ne t by (simp add: chord_groups_loop_state_def)
qed

lemma chord_groups_loop_state_close:
  assumes "chord_groups_loop_state runs gs cur (Some t)"
    and "\<not> \<bar>nd_start n - t\<bar> \<le> 0.05"
  shows "chord_groups_loop_state (runs @ [cur])
           (if length cur \<ge> 2 then gs @ [cur] else gs) [n] (Some (nd_start n))"
proof -
  from assms(1) have ne: "cur \<noteq> []" and t: "t = nd_start (hd cur)"
    by (auto simp: chord_groups_loop_state_def split: if_splits)
  from assms(1) ne have s: "separated_T (runs @ [cur])"
    and a: "anchored_T cur" and r: "[] \<notin> set runs" "list_all anchored_T runs"
    and g: "gs = [r \<leftarrow> runs. 2 \<le> length r]"
    by (simp_all add: chord_groups_loop_state_def)
  have "separated_T ((runs @ [cur]) @ [[n]])"
    using s assms(2) t by (subst separated_T_snoc) simp_all
  then show ?thesis using ne a r g
    by (simp add: chord_groups_loop_state_def anchored_T_def)
qed

lemma chord_groups_loop_runs:
  "chord_groups_loop ns gs cur st = (gs', cur')
     \<Longrightarrow> chord_groups_loop_state runs gs cur st
     \<Longrightarrow> \<exists>runs' st'. chord_groups_loop_state runs' gs' cur' st'
                \<and> concat runs' @ cur' = concat runs @ cur @ ns"
proof (induction ns arbitrary: gs cur st runs)
  case Nil
  then show ?case by auto
next
  case (Cons n ns)
  show ?case
  proof (cases st)
    case None
    with Cons.prems(1) have l: "chord_groups_loop ns gs [n] (Some (nd_start n)) = (gs', cur')"
      by simp
    from Cons.prems(2) None have e: "cur = []"
      by (auto simp: chord_groups_loop_state_def split: if_splits)
    from Cons.prems(2) None have "chord_groups_loop_state runs gs [n] (Some (nd_start n))"
      by (intro chord_groups_loop_state_first) simp
    from Cons.IH [OF l this] e show ?thesis by simp
  next
    case (Some t)
    show ?thesis
    proof (cases "\<bar>nd_start n - t\<bar> \<le> 0.05")
      case True
      with Some Cons.prems(1) have l: "chord_groups_loop ns gs (cur @ [n]) (Some t) = (gs', cur')"
        by simp
      from Cons.prems(2) Some True
      have "chord_groups_loop_state runs gs (cur @ [n]) (Some t)"
        by (intro chord_groups_loop_state_extend) simp_all
      from Cons.IH [OF l this] show ?thesis by simp
    next
      case False
      with Some Cons.prems(1) have l:
        "chord_groups_loop ns (if length cur \<ge> 2 then gs @ [cur] else gs) [n]
           (Some (nd_start n)) = (gs', cur')"
        by simp
      from Cons.prems(2) Some False
      have "chord_groups_loop_state (runs @ [cur])
              (if length cur \<ge> 2 then gs @ [cur] else gs) [n] (Some (nd_start n))"
        by (intro chord_groups_loop_state_close) simp_all
      from Cons.IH [OF l this] show ?thesis by simp
    qed
  qed
qed

lemma detect_chord_groups_runs:
  "\<exists>runs. concat runs = py_sorted nd_start nds
      \<and> [] \<notin> set runs \<and> list_all anchored_T runs \<and> separated_T runs
      \<and> detect_chord_groups nds = [r \<leftarrow> runs. 2 \<le> length r]"
proof -
  obtain gs' cur' where l: "chord_groups_loop (py_sorted nd_start nds) [] [] None = (gs', cur')"
    by (cases "chord_groups_loop (py_sorted nd_start nds) [] [] None")
  have "chord_groups_loop_state [] [] [] None"
    by (simp add: chord_groups_loop_state_def anchored_T_def)
  from chord_groups_loop_runs [OF l this] obtain runs' st' where
    st: "chord_groups_loop_state runs' gs' cur' st'"
    and c: "concat runs' @ cur' = py_sorted nd_start nds"
    by auto
  define runs where "runs = (if cur' = [] then runs' else runs' @ [cur'])"
  have 1: "concat runs = py_sorted nd_start nds"
    using c by (auto simp: runs_def)
  have 2: "[] \<notin> set runs" "list_all anchored_T runs" "separated_T runs"
    using st by (simp_all add: runs_def chord_groups_loop_state_def)
  have 3: "detect_chord_groups nds = [r \<leftarrow> runs. 2 \<le> length r]"
    using st by (simp add: detect_chord_groups_def l runs_def chord_groups_loop_state_def)
  from 1 2 3 show ?thesis by blast
qed

lemma identify_chord_None_iff:
  "identify_chord pitches notes = None \<longleftrightarrow>
     find (\<lambda>(root_pc, chord_type, pattern).
                   set (map (\<lambda>interval. (int root_pc + interval) mod 12) pattern)
                     \<subseteq> set (sort (remdups (map (\<lambda>p. p mod 12) pitches))))
             [(root_pc, chord_type, pattern).
                root_pc \<leftarrow> [0 ..< 12], (chord_type, pattern) \<leftarrow> chord_patterns] = None"
  by (simp add: identify_chord_def Let_def split: option.splits prod.splits)

lemma find_candidates:
  "find (\<lambda>(r, ct, pat). Q r pat) [(r, ct, pat). r \<leftarrow> roots, (ct, pat) \<leftarrow> pats] \<noteq> None
     \<longleftrightarrow> (\<exists>r \<in> set roots. \<exists>pat \<in> snd ` set pats. Q r pat)"
proof -
  let ?c = "[(r, ct, pat). r \<leftarrow> roots, (ct, pat) \<leftarrow> pats]"
  have s: "set ?c = {(r, ct, pat). r \<in> set roots \<and> (ct, pat) \<in> set pats}"
    by auto
  have "find (\<lambda>(r, ct, pat). Q r pat) ?c \<noteq> None
          \<longleftrightarrow> (\<exists>x \<in> set ?c. (\<lambda>(r, ct, pat). Q r pat) x)"
    unfolding find_None_iff by blast
  also have "\<dots> \<longleftrightarrow> (\<exists>r ct pat. r \<in> set roots \<and> (ct, pat) \<in> set pats \<and> Q r pat)"
    unfolding s by blast
  also have "\<dots> \<longleftrightarrow> (\<exists>r \<in> set roots. \<exists>pat \<in> snd ` set pats. Q r pat)"
    by force
  finally show ?thesis .
qed

lemma below_upt: "(\<exists>r \<in> set [0 ..< n]. A r) \<longleftrightarrow> (\<exists>r < n. A r)"
  by auto

lemma pattern_contained:
  "set (map f pat) \<subseteq> set (sort (remdups (map g ps))) \<longleftrightarrow> (\<forall>i \<in> set pat. f i \<in> g ` set ps)"
  by auto

lemma chord_patterns_snd:
  "snd ` set chord_patterns =
     {[0, 4, 7], [0, 3, 7], [0, 4, 7, 10], [0, 4, 7, 11], [0, 3, 7, 10],
      [0, 2, 7], [0, 5, 7], [0, 3, 6], [0, 4, 8]}"
  unfolding chord_patterns_def by (simp only: list.set image_insert image_empty snd_conv)

lemma identify_chord_iff:
  "identify_chord pitches notes \<noteq> None \<longleftrightarrow>
     (\<exists>root_pc < 12.
        \<exists>pattern \<in> {[0, 4, 7], [0, 3, 7], [0, 4, 7, 10], [0, 4, 7, 11], [0, 3, 7, 10],
                      [0, 2, 7], [0, 5, 7], [0, 3, 6], [0, 4, 8]}.
          \<forall>interval \<in> set pattern.
            (int root_pc + interval) mod 12 \<in> (\<lambda>p. p mod 12) ` set pitches)"
proof -
  have "identify_chord pitches notes \<noteq> None \<longleftrightarrow>
          (\<exists>r \<in> set [0 ..< 12]. \<exists>pat \<in> snd ` set chord_patterns.
             set (map (\<lambda>interval. (int r + interval) mod 12) pat)
               \<subseteq> set (sort (remdups (map (\<lambda>p. p mod 12) pitches))))"
    unfolding identify_chord_None_iff by (rule find_candidates)
  then show ?thesis
    unfolding below_upt pattern_contained chord_patterns_snd .
qed

lemma group_pitches_valid:
  "\<forall>n \<in> set grp. 1 \<le> tn_string n \<and> tn_string n \<le> int (length (tuning cfg))
     \<Longrightarrow> group_pitches cfg grp
           = Inr (map (\<lambda>n. tuning cfg ! nat (tn_string n - 1) + capo cfg + tn_fret n) grp)"
proof (induction grp)
  case Nil
  show ?case by simp
next
  case (Cons n grp)
  from Cons.prems have s: "1 \<le> tn_string n" "tn_string n \<le> int (length (tuning cfg))"
    by simp_all
  then have "py_index (self_tuning cfg) (tn_string n - 1)
               = Inr (tuning cfg ! nat (tn_string n - 1) + capo cfg)"
    by (simp add: py_index_def self_tuning_def)
  with Cons show ?case by simp
qed

lemma analyze_group_result:
  assumes "grp \<noteq> []"
  shows "analyze_group cfg grp = Inl e \<longleftrightarrow> group_pitches cfg grp = Inl e"
    and "analyze_group cfg grp = Inr None \<longleftrightarrow>
           (\<exists>ps. group_pitches cfg grp = Inr ps \<and> identify_chord ps grp = None)"
    and "analyze_group cfg grp = Inr (Some c) \<Longrightarrow>
           recognised_M cfg grp
           \<and> ch_tab_positions c = map (\<lambda>n. (tn_string n, tn_fret n)) grp
           \<and> ch_time c = tn_start_time (hd grp)"
proof -
  from assms obtain g0 rest where g: "grp = g0 # rest" by (cases grp) auto
  have m: "py_max (map tn_duration grp) = Inr (foldl max (tn_duration g0) (map tn_duration rest))"
    by (simp add: py_max_def g)
  show "analyze_group cfg grp = Inl e \<longleftrightarrow> group_pitches cfg grp = Inl e"
    unfolding analyze_group_def m
    by (auto simp: g split: sum.splits option.splits)
  show "analyze_group cfg grp = Inr None \<longleftrightarrow>
           (\<exists>ps. group_pitches cfg grp = Inr ps \<and> identify_chord ps grp = None)"
    unfolding analyze_group_def m
    by (auto simp: g split: sum.splits option.splits)
  show "analyze_group cfg grp = Inr (Some c) \<Longrightarrow>
           recognised_M cfg grp
           \<and> ch_tab_positions c = map (\<lambda>n. (tn_string n, tn_fret n)) grp
           \<and> ch_time c = tn_start_time (hd grp)"
    unfolding analyze_group_def m recognised_M_def
    by (auto simp: g split: sum.splits option.splits)
qed

lemma analyze_groups_result:
  "analyze_groups cfg gs = Inr chords \<Longrightarrow> [] \<notin> set gs
     \<Longrightarrow> map ch_tab_positions chords
           = map (map (\<lambda>n. (tn_string n, tn_fret n))) [g \<leftarrow> gs. recognised_M cfg g]
         \<and> map ch_time chords = map (\<lambda>g. tn_start_time (hd g)) [g \<leftarrow> gs. recognised_M cfg g]"
proof (induction gs arbitrary: chords)
  case Nil
  then show ?case by simp
next
  case (Cons g gs)
  from Cons.prems(2) have ne: "g \<noteq> []" and rest: "[] \<notin> set gs" by auto
  from Cons.prems(1) obtain c chords' where
    a: "analyze_group cfg g = Inr c" and b: "analyze_groups cfg gs = Inr chords'"
    and ch: "chords = (case c of None \<Rightarrow> chords' | Some chord \<Rightarrow> chord # chords')"
    by (auto split: sum.splits)
  note ih = Cons.IH [OF b rest]
  show ?case
  proof (cases c)
    case None
    with a analyze_group_result(2) [OF ne, of cfg]
    have "\<not> recognised_M cfg g" by (auto simp: recognised_M_def)
    with ih ch None show ?thesis by simp
  next
    case (Some chord)
    with a analyze_group_result(3) [OF ne, of cfg chord]
    have "recognised_M cfg g" "ch_tab_positions chord = map (\<lambda>n. (tn_string n, tn_fret n)) g"
      "ch_time chord = tn_start_time (hd g)" by simp_all
    with ih ch Some show ?thesis by simp
  qed
qed

lemma detect_chords_M_result:
  assumes "detect_chords_M cfg ns = Inr chords"
  shows "map ch_tab_positions chords
           = map (map (\<lambda>n. (tn_string n, tn_fret n)))
               [g \<leftarrow> note_groups_of ns. recognised_M cfg g]"
    and "map ch_time chords
           = map (\<lambda>g. tn_start_time (hd g)) [g \<leftarrow> note_groups_of ns. recognised_M cfg g]"
proof -
  have "[] \<notin> set (note_groups_of ns)"
    using note_groups_of_lengths [of ns] by auto
  from analyze_groups_result [OF assms [unfolded detect_chords_M_def] this]
  show "map ch_tab_positions chords
           = map (map (\<lambda>n. (tn_string n, tn_fret n)))
               [g \<leftarrow> note_groups_of ns. recognised_M cfg g]"
    and "map ch_time chords
           = map (\<lambda>g. tn_start_time (hd g)) [g \<leftarrow> note_groups_of ns. recognised_M cfg g]"
    by simp_all
qed

lemma recognised_M_iff:
  "recognised_M cfg grp \<longleftrightarrow>
     (\<exists>pitches. group_pitches cfg grp = Inr pitches
        \<and> (\<exists>root_pc < 12.
              \<exists>pattern \<in> {[0, 4, 7], [0, 3, 7], [0, 4, 7, 10], [0, 4, 7, 11], [0, 3, 7, 10],
                            [0, 2, 7], [0, 5, 7], [0, 3, 6], [0, 4, 8]}.
                \<forall>interval \<in> set pattern.
                  (int root_pc + interval) mod 12 \<in> (\<lambda>p. p mod 12) ` set pitches))"
proof (cases "group_pitches cfg grp")
  case (Inl e)
  then show ?thesis by (simp add: recognised_M_def)
next
  case (Inr ps)
  then show ?thesis
    unfolding recognised_M_def by (simp only: sum.case identify_chord_iff) blast
qed

text \<open>
  Claim C7, as the code has it. \<^verbatim>\<open>MidiToTabConverter._detect_chords\<close> cuts the notes,
  sorted by start time, into runs: within a run every note starts less than 50 ms from
  the note before it, and a new run begins at every note that is 50 ms or more from
  the last note of the run so far. Its groups are the runs of three or more notes; no
  check is made that their strings differ. The chords it returns are, in order, the
  groups whose pitches (open pitch of the string, plus capo, plus fret) hold, for some
  root, one of the nine interval patterns of \<^verbatim>\<open>_identify_chord\<close>; each chord lists the
  positions of all notes of its group. So three notes within the tolerance give exactly
  one chord holding all three when a pattern is found and no chord otherwise, and fewer
  than three notes never give a chord. \<^verbatim>\<open>TabConverter._detect_chord_groups\<close> cuts the
  sorted notes into groups whose notes all start within 50 ms of the first note of the
  group, a new group beginning at every note further than that from the first note of
  the group so far, and keeps every group of two or more notes.
\<close>

theorem chord_detection_in_both_converters:
  "(\<exists>runs. concat runs = py_sorted tn_start_time ns
      \<and> [] \<notin> set runs \<and> list_all chained_M runs \<and> separated_M runs
      \<and> note_groups_of ns = [r \<leftarrow> runs. 3 \<le> length r])
   \<and> (\<forall>chords. detect_chords_M cfg ns = Inr chords \<longrightarrow>
        map ch_tab_positions chords
          = map (map (\<lambda>n. (tn_string n, tn_fret n)))
              [g \<leftarrow> note_groups_of ns. recognised_M cfg g]
        \<and> map ch_time chords
          = map (\<lambda>g. tn_start_time (hd g)) [g \<leftarrow> note_groups_of ns. recognised_M cfg g])
   \<and> (recognised_M cfg grp \<longleftrightarrow>
        (\<exists>pitches. group_pitches cfg grp = Inr pitches
           \<and> (\<exists>root_pc < 12.
                 \<exists>pattern \<in> {[0, 4, 7], [0, 3, 7], [0, 4, 7, 10], [0, 4, 7, 11],
                               [0, 3, 7, 10], [0, 2, 7], [0, 5, 7], [0, 3, 6], [0, 4, 8]}.
                   \<forall>interval \<in> set pattern.
                     (int root_pc + interval) mod 12 \<in> (\<lambda>p. p mod 12) ` set pitches)))
   \<and> ((\<forall>n \<in> set grp. 1 \<le> tn_string n \<and> tn_string n \<le> int (length (tuning cfg))) \<longrightarrow>
        group_pitches cfg grp
          = Inr (map (\<lambda>n. tuning cfg ! nat (tn_string n - 1) + capo cfg + tn_fret n) grp))
   \<and> (\<forall>g \<in> set (note_groups_of ns). 3 \<le> length g)
   \<and> (length ns < 3 \<longrightarrow> detect_chords_M cfg ns = Inr [])
   \<and> (tn_start_time a \<le> tn_start_time b \<and> tn_start_time b \<le> tn_start_time c
        \<and> tn_start_time b - tn_start_time a < 0.05
        \<and> tn_start_time c - tn_start_time b < 0.05
      \<longrightarrow> note_groups_of [a, b, c] = [[a, b, c]]
          \<and> detect_chords_M cfg [a, b, c] =
              (case group_pitches cfg [a, b, c] of
                 Inl e \<Rightarrow> Inl e
               | Inr pitches \<Rightarrow>
                   (case identify_chord pitches [a, b, c] of
                      None \<Rightarrow> Inr []
                    | Some chord_info \<Rightarrow>
                        Inr [\<lparr> ch_time = tn_start_time a,
                               ch_duration =
                                 max (max (tn_duration a) (tn_duration b)) (tn_duration c),
                               ch_chord = chord_info,
                               ch_tab_positions =
                                 [(tn_string a, tn_fret a), (tn_string b, tn_fret b),
                                  (tn_string c, tn_fret c)] \<rparr>])))
   \<and> (\<exists>runs. concat runs = py_sorted nd_start nds
        \<and> [] \<notin> set runs \<and> list_all anchored_T runs \<and> separated_T runs
        \<and> detect_chord_groups nds = [r \<leftarrow> runs. 2 \<le> length r])
   \<and> (\<forall>g \<in> set (detect_chord_groups nds). 2 \<le> length g)
   \<and> (nd_start x = nd_start y \<longrightarrow> detect_chord_groups [x, y] = [[x, y]])"
proof (intro conjI allI impI)
  show "\<exists>runs. concat runs = py_sorted tn_start_time ns
      \<and> [] \<notin> set runs \<and> list_all chained_M runs \<and> separated_M runs
      \<and> note_groups_of ns = [r \<leftarrow> runs. 3 \<le> length r]"
    by (rule note_groups_of_runs)
next
  fix chords assume a: "detect_chords_M cfg ns = Inr chords"
  show "map ch_tab_positions chords
          = map (map (\<lambda>n. (tn_string n, tn_fret n)))
              [g \<leftarrow> note_groups_of ns. recognised_M cfg g]"
    by (rule detect_chords_M_result(1) [OF a])
  show "map ch_time chords
          = map (\<lambda>g. tn_start_time (hd g)) [g \<leftarrow> note_groups_of ns. recognised_M cfg g]"
    by (rule detect_chords_M_result(2) [OF a])
next
  show "recognised_M cfg grp \<longleftrightarrow>
        (\<exists>pitches. group_pitches cfg grp = Inr pitches
           \<and> (\<exists>root_pc < 12.
                 \<exists>pattern \<in> {[0, 4, 7], [0, 3, 7], [0, 4, 7, 10], [0, 4, 7, 11],
                               [0, 3, 7, 10], [0, 2, 7], [0, 5, 7], [0, 3, 6], [0, 4, 8]}.
                   \<forall>interval \<in> set pattern.
                     (int root_pc + interval) mod 12 \<in> (\<lambda>p. p mod 12) ` set pitches))"
    by (rule recognised_M_iff)
next
  assume "\<forall>n \<in> set grp. 1 \<le> tn_string n \<and> tn_string n \<le> int (length (tuning cfg))"
  then show "group_pitches cfg grp
          = Inr (map (\<lambda>n. tuning cfg ! nat (tn_string n - 1) + capo cfg + tn_fret n) grp)"
    by (rule group_pitches_valid)
next
  show "\<forall>g \<in> set (note_groups_of ns). 3 \<le> length g"
    by (rule note_groups_of_lengths)
next
  assume "length ns < 3"
  then show "detect_chords_M cfg ns = Inr []"
    by (simp add: detect_chords_M_def note_groups_of_small)
next
  assume a: "tn_start_time a \<le> tn_start_time b \<and> tn_start_time b \<le> tn_start_time c
        \<and> tn_start_time b - tn_start_time a < 0.05
        \<and> tn_start_time c - tn_start_time b < 0.05"
  then show g: "note_groups_of [a, b, c] = [[a, b, c]]"
    by (intro note_groups_of_three) simp_all
  show "detect_chords_M cfg [a, b, c] =
              (case group_pitches cfg [a, b, c] of
                 Inl e \<Rightarrow> Inl e
               | Inr pitches \<Rightarrow>
                   (case identify_chord pitches [a, b, c] of
                      None \<Rightarrow> Inr []
                    | Some chord_info \<Rightarrow>
                        Inr [\<lparr> ch_time = tn_start_time a,
                               ch_duration =
                                 max (max (tn_duration a) (tn_duration b)) (tn_duration c),
                               ch_chord = chord_info,
                               ch_tab_positions =
                                 [(tn_string a, tn_fret a), (tn_string b, tn_fret b),
                                  (tn_string c, tn_fret c)] \<rparr>]))"
    by (rule detect_chords_M_three [OF g])
next
  show "\<exists>runs. concat runs = py_sorted nd_start nds
        \<and> [] \<notin> set runs \<and> list_all anchored_T runs \<and> separated_T runs
        \<and> detect_chord_groups nds = [r \<leftarrow> runs. 2 \<le> length r]"
    by (rule detect_chord_groups_runs)
next
  show "\<forall>g \<in> set (detect_chord_groups nds). 2 \<le> length g"
    by (rule detect_chord_groups_lengths)
next
  assume "nd_start x = nd_start y"
  then show "detect_chord_groups [x, y] = [[x, y]]"
    by (rule detect_chord_groups_pair)
qed

theorem chord_detection_in_both_witness:
  "detect_chords_M default_TabConfig
     [tab_note 2 3 0 1 80, tab_note 3 2 0 1 80, tab_note 4 0 0 1 80]
   = Inr [\<lparr> ch_time = 0, ch_duration = 1,
             ch_chord = \<lparr> ci_root = ''C'', ci_type = ''major'', ci_shape = None,
                          ci_pitches = [48, 52, 55] \<rparr>,
             ch_tab_positions = [(2, 3), (3, 2), (4, 0)] \<rparr>]
   \<and> map (map (\<lambda>n. (tn_string n, tn_fret n)))
        [g \<leftarrow> note_groups_of [tab_note 2 3 0 1 80, tab_note 3 2 0 1 80, tab_note 4 0 0 1 80].
           recognised_M default_TabConfig g]
       = [[(2, 3), (3, 2), (4, 0)]]
   \<and> group_pitches default_TabConfig
        [tab_note 2 3 0 1 80, tab_note 3 2 0 1 80, tab_note 4 0 0 1 80]
       = Inr [48, 52, 55]
   \<and> detect_chords_M default_TabConfig [tab_note 2 3 0 1 80, tab_note 3 2 0 1 80] = Inr []
   \<and> detect_chord_groups [note_data 60 0 1 80, note_data 64 0 1 80]
       = [[note_data 60 0 1 80, note_data 64 0 1 80]]"
proof -
  let ?a = "tab_note 2 3 0 1 80" and ?b = "tab_note 3 2 0 1 80" and ?c = "tab_note 4 0 0 1 80"
  note t = chord_detection_in_both_converters
    [of "[?a, ?b]" default_TabConfig "[?a, ?b, ?c]" ?a ?b ?c "[]"
        "note_data 60 0 1 80" "note_data 64 0 1 80"]
  note u = chord_detection_in_both_converters [of "[?a, ?b, ?c]" default_TabConfig]
  have h: "tn_start_time ?a \<le> tn_start_time ?b \<and> tn_start_time ?b \<le> tn_start_time ?c
        \<and> tn_start_time ?b - tn_start_time ?a < 0.05
        \<and> tn_start_time ?c - tn_start_time ?b < 0.05"
    by (simp add: tab_note_def)
  from t [THEN conjunct2, THEN conjunct2, THEN conjunct2, THEN conjunct2, THEN conjunct2,
          THEN conjunct2, THEN conjunct1, rule_format, OF h, THEN conjunct2]
  have a: "detect_chords_M default_TabConfig [?a, ?b, ?c]
   = Inr [\<lparr> ch_time = 0, ch_duration = 1,
             ch_chord = \<lparr> ci_root = ''C'', ci_type = ''major'', ci_shape = None,
                          ci_pitches = [48, 52, 55] \<rparr>,
             ch_tab_positions = [(2, 3), (3, 2), (4, 0)] \<rparr>]"
    by (simp only: c_major_pitches c_major_identified sum.case option.case)
       (simp add: tab_note_def)
  from u [THEN conjunct2, THEN conjunct1, rule_format, OF a, THEN conjunct1]
  have b: "map (map (\<lambda>n. (tn_string n, tn_fret n)))
        [g \<leftarrow> note_groups_of [?a, ?b, ?c]. recognised_M default_TabConfig g]
       = [[(2, 3), (3, 2), (4, 0)]]"
    by simp
  have v: "\<forall>n \<in> set [?a, ?b, ?c].
             1 \<le> tn_string n \<and> tn_string n \<le> int (length (tuning default_TabConfig))"
    by (simp add: tab_note_def default_TabConfig_def STANDARD_def)
  from t [THEN conjunct2, THEN conjunct2, THEN conjunct2, THEN conjunct1, THEN mp, OF v]
  have p: "group_pitches default_TabConfig [?a, ?b, ?c] = Inr [48, 52, 55]"
    by (simp add: tab_note_def default_TabConfig_def STANDARD_def)
  have l: "length [?a, ?b] < 3" by simp
  from t [THEN conjunct2, THEN conjunct2, THEN conjunct2, THEN conjunct2, THEN conjunct2,
          THEN conjunct1, rule_format, OF l]
  have c: "detect_chords_M default_TabConfig [?a, ?b] = Inr []" .
  have s: "nd_start (note_data 60 0 1 80) = nd_start (note_data 64 0 1 80)"
    by (simp add: note_data_def)
  from t [THEN conjunct2, THEN conjunct2, THEN conjunct2, THEN conjunct2, THEN conjunct2,
          THEN conjunct2, THEN conjunct2, THEN conjunct2, THEN conjunct2,
          rule_format, OF s]
  have d: "detect_chord_groups [note_data 60 0 1 80, note_data 64 0 1 80]
       = [[note_data 60 0 1 80, note_data 64 0 1 80]]" .
  from a b p c d show ?thesis by (intro conjI)
qed

end
